theory Spec2Isabelle
  imports Main "HOL-Library.Word"
begin

unbundle bit_operations_syntax

section \<open>Bytes, buffers and the primitive interface\<close>

text \<open>
  The OPAQUE engine of \<^verbatim>\<open>src/opaque.c\<close> works on flat byte buffers. A byte is an
  8-bit word and a buffer is the list of the bytes it holds. Lengths that the C code
  keeps in \<^verbatim>\<open>uint64_t\<close> or \<^verbatim>\<open>size_t\<close> variables (64 bits on the targets of the
  library) are 64-bit words, so sums of lengths wrap as they do in C.
\<close>

type_synonym byte = "8 word"
type_synonym bytes = "byte list"

text \<open>
  \<^verbatim>\<open>memcpy(dst + off, src, n)\<close> on a buffer that holds \<open>dst\<close>: the bytes before
  \<open>off\<close> and after \<open>off + n\<close> keep their value. C leaves a copy that runs over
  the end of either buffer undefined; the theorems below state the sizes they need.
\<close>

definition memcpy :: "bytes \<Rightarrow> nat \<Rightarrow> bytes \<Rightarrow> nat \<Rightarrow> bytes" where
  "memcpy dst off src n = take off dst @ take n src @ drop (off + n) dst"

text \<open>
  The primitives of libsodium that \<^verbatim>\<open>opaque.c\<close> calls are not part of the repository.
  They are collected in one record and every function of the model takes it as its first
  argument. A primitive that reports failure through its return code yields \<open>None\<close>
  there.
  \<^item> \<open>crypto_core_ristretto255_is_valid_point p\<close>: the C function returns 1.
  \<^item> \<open>crypto_core_ristretto255_scalar_invert s\<close>: the inverse, or \<open>None\<close> for a
    non-zero return code.
  \<^item> \<open>crypto_scalarmult_ristretto255 n p\<close> and \<open>crypto_scalarmult n p\<close>: the product,
    or \<open>None\<close> for a non-zero return code.
  \<^item> \<open>crypto_scalarmult_base n\<close>: the product with the base point (the code ignores
    its return code).
  \<^item> \<open>crypto_generichash outlen input key\<close>: the keyed generic hash; the streaming
    interface (init with the key, update, update, final) hashes the concatenation of the
    updates.
  \<^item> \<open>crypto_hash_sha256\<close>, \<open>crypto_auth_hmacsha256 input key\<close>,
    \<open>crypto_kdf_hkdf_sha256_extract salt ikm\<close>,
    \<open>crypto_kdf_hkdf_sha256_expand outlen ctx prk\<close>.
  \<^item> \<open>crypto_pwhash outlen passwd salt\<close> at the interactive limits, \<open>None\<close> when it
    runs out of memory.
  \<^item> \<open>hash_to_group\<close>: the hash onto the group that the OPRF starts from.
  \<^item> \<open>sodium_mlock b\<close>: whether locking the local buffer named \<open>b\<close> succeeds
    (the C function does not return \<open>-1\<close>).
\<close>

record sodium =
  crypto_core_ristretto255_is_valid_point :: "bytes \<Rightarrow> bool"
  crypto_core_ristretto255_scalar_invert :: "bytes \<Rightarrow> bytes option"
  crypto_scalarmult_ristretto255 :: "bytes \<Rightarrow> bytes \<Rightarrow> bytes option"
  crypto_scalarmult :: "bytes \<Rightarrow> bytes \<Rightarrow> bytes option"
  crypto_scalarmult_base :: "bytes \<Rightarrow> bytes"
  crypto_generichash :: "nat \<Rightarrow> bytes \<Rightarrow> bytes \<Rightarrow> bytes"
  crypto_hash_sha256 :: "bytes \<Rightarrow> bytes"
  crypto_auth_hmacsha256 :: "bytes \<Rightarrow> bytes \<Rightarrow> bytes"
  crypto_kdf_hkdf_sha256_extract :: "bytes \<Rightarrow> bytes \<Rightarrow> bytes"
  crypto_kdf_hkdf_sha256_expand :: "nat \<Rightarrow> bytes \<Rightarrow> bytes \<Rightarrow> bytes"
  crypto_pwhash :: "nat \<Rightarrow> bytes \<Rightarrow> bytes \<Rightarrow> bytes option"
  hash_to_group :: "bytes \<Rightarrow> bytes"
  sodium_mlock :: "string \<Rightarrow> bool"

text \<open>
  \<^verbatim>\<open>crypto_auth_hmacsha256_verify(h, in, inlen, k)\<close> recomputes the tag and compares:
  0 when \<open>h\<close> is the tag of \<open>in\<close> under \<open>k\<close>, \<open>-1\<close> otherwise.
\<close>

definition crypto_auth_hmacsha256_verify :: "sodium \<Rightarrow> bytes \<Rightarrow> bytes \<Rightarrow> bytes \<Rightarrow> int" where
  "crypto_auth_hmacsha256_verify S h inp k =
     (if h = crypto_auth_hmacsha256 S inp k then 0 else - 1)"

text \<open>
  The incremental SHA-256 interface. The state is the input absorbed so far;
  \<^verbatim>\<open>crypto_hash_sha256_update(state, in, inlen)\<close> appends \<open>inlen\<close> bytes of \<open>in\<close> and
  \<^verbatim>\<open>crypto_hash_sha256_final\<close> hashes what was absorbed.
\<close>

type_synonym crypto_hash_sha256_state = bytes

definition crypto_hash_sha256_init :: crypto_hash_sha256_state where
  "crypto_hash_sha256_init = []"

definition crypto_hash_sha256_update ::
  "crypto_hash_sha256_state \<Rightarrow> bytes \<Rightarrow> nat \<Rightarrow> crypto_hash_sha256_state" where
  "crypto_hash_sha256_update state inp inlen = state @ take inlen inp"

definition crypto_hash_sha256_final :: "sodium \<Rightarrow> crypto_hash_sha256_state \<Rightarrow> bytes" where
  "crypto_hash_sha256_final S state = crypto_hash_sha256 S state"

text \<open>
  The size constants of libsodium: scalars, points, hashes, tags and keys are all 32
  bytes long.
\<close>

abbreviation (input) crypto_hash_sha256_BYTES :: nat where "crypto_hash_sha256_BYTES \<equiv> 32"
abbreviation (input) crypto_scalarmult_BYTES :: nat where "crypto_scalarmult_BYTES \<equiv> 32"
abbreviation (input) crypto_scalarmult_SCALARBYTES :: nat where "crypto_scalarmult_SCALARBYTES \<equiv> 32"
abbreviation (input) crypto_core_ristretto255_BYTES :: nat where "crypto_core_ristretto255_BYTES \<equiv> 32"
abbreviation (input) crypto_secretbox_KEYBYTES :: nat where "crypto_secretbox_KEYBYTES \<equiv> 32"

text \<open>
  Modelled from the spec: the header \<^verbatim>\<open>opaque.h\<close> is not among the sources. The spec
  gives the protocol nonce 32 bytes, the envelope of a record without extra data and
  without clear-text part \<open>32 + 96 + 32\<close> bytes (\<^verbatim>\<open>sizeof(Opaque_Blob)\<close> of the packed
  struct in \<^verbatim>\<open>opaque.c\<close>), and bounds the extra payload by 1024 bytes.
\<close>

abbreviation (input) OPAQUE_NONCE_BYTES :: nat where "OPAQUE_NONCE_BYTES \<equiv> 32"
abbreviation (input) OPAQUE_BLOB_LEN :: nat where "OPAQUE_BLOB_LEN \<equiv> 160"

definition OPAQUE_MAX_EXTRA_BYTES :: "64 word" where
  "OPAQUE_MAX_EXTRA_BYTES = 1024"

section \<open>The records of \<^verbatim>\<open>opaque.c\<close>\<close>

text \<open>
  The packed structs that the code lays over the caller's byte buffers. A field of fixed
  size is a record field. The envelope \<open>c\<close> at the end of \<open>Opaque_UserRecord\<close> and of
  \<open>Opaque_ServerSession\<close> is declared as an \<open>Opaque_Blob\<close> of 160 bytes, but the code
  writes \<open>extra_len + ClrEnv_len\<close> bytes more behind it: the field is the caller's
  buffer from the offset of \<open>c\<close> to its end.
\<close>

record Opaque_UserRecord =
  rec_k_s :: bytes
  rec_p_s :: bytes
  rec_P_u :: bytes
  rec_P_s :: bytes
  rec_extra_len :: "64 word"
  rec_c :: bytes

record Opaque_UserSession =
  pub_alpha :: bytes
  pub_X_u :: bytes
  pub_nonceU :: bytes

record Opaque_UserSession_Secret =
  sec_r :: bytes
  sec_x_u :: bytes
  sec_nonceU :: bytes
  sec_alpha :: bytes

record Opaque_ServerSession =
  resp_beta :: bytes
  resp_X_s :: bytes
  resp_nonceS :: bytes
  resp_auth :: bytes
  resp_extra_len :: "64 word"
  resp_c :: bytes

record Opaque_RegisterPub =
  rpub_beta :: bytes
  rpub_P_s :: bytes

record Opaque_RegisterSec =
  rsec_p_s :: bytes
  rsec_k_s :: bytes

record Opaque_Keys =
  keys_sk :: bytes
  keys_km2 :: bytes
  keys_km3 :: bytes
  keys_ke2 :: bytes
  keys_ke3 :: bytes

text \<open>
  The fields of \<open>Opaque_Blob\<close> inside the envelope buffer: \<open>nonce\<close> at offset 0,
  \<open>p_u\<close> at 32, \<open>P_u\<close> at 64, \<open>P_s\<close> at 96 and \<open>extra_or_mac\<close> at 128.
\<close>

abbreviation (input) blob_p_u :: nat where "blob_p_u \<equiv> 32"
abbreviation (input) blob_P_u :: nat where "blob_P_u \<equiv> 64"
abbreviation (input) blob_P_s :: nat where "blob_P_s \<equiv> 96"
abbreviation (input) blob_extra_or_mac :: nat where "blob_extra_or_mac \<equiv> 128"

text \<open>
  Modelled from the spec: \<open>Opaque_Ids\<close> and \<open>Opaque_App_Infos\<close> are declared in
  \<^verbatim>\<open>opaque.h\<close>. Each identity and each application info is a pointer (\<open>None\<close> for
  \<^verbatim>\<open>NULL\<close>) with its length, read as \<open>opaque.c\<close> reads them.
\<close>

record Opaque_Ids =
  idU_len :: nat
  idU :: "bytes option"
  idS_len :: nat
  idS :: "bytes option"

record Opaque_App_Infos =
  info1 :: "bytes option"
  info1_len :: nat
  info2 :: "bytes option"
  info2_len :: nat
  einfo2 :: "bytes option"
  einfo2_len :: nat
  info3 :: "bytes option"
  info3_len :: nat
  einfo3 :: "bytes option"
  einfo3_len :: nat

text \<open>
  The C entry points return \<open>-1\<close> (the static helpers 1) on every failure. The model
  keeps which return statement was taken, named after the error taxonomy of the spec.
\<close>

datatype opaque_error =
    InvalidPoint
  | InvalidScalar
  | EnvelopeAuthFailed
  | ServerAuthFailed
  | KdfFailure
  | LockFailure
  | LengthError

section \<open>Key derivation, session info and transcript\<close>

text \<open>
  \<^verbatim>\<open>derive_keys\<close>: HKDF-extract with the empty salt over the 96 bytes of \<open>ikm\<close>, then
  HKDF-expand to the 160 bytes of \<open>Opaque_Keys\<close>, read as its five 32-byte fields.
\<close>

definition derive_keys :: "sodium \<Rightarrow> bytes \<Rightarrow> bytes \<Rightarrow> Opaque_Keys" where
  "derive_keys S ikm info =
     (let prk = crypto_kdf_hkdf_sha256_extract S [] (take (crypto_scalarmult_BYTES * 3) ikm);
          okm = crypto_kdf_hkdf_sha256_expand S 160 (take crypto_hash_sha256_BYTES info) prk
      in \<lparr> keys_sk = take 32 okm,
           keys_km2 = take 32 (drop 32 okm),
           keys_km3 = take 32 (drop 64 okm),
           keys_ke2 = take 32 (drop 96 okm),
           keys_ke3 = take 32 (drop 128 okm) \<rparr>)"

definition calc_info :: "sodium \<Rightarrow> bytes \<Rightarrow> bytes \<Rightarrow> Opaque_Ids \<Rightarrow> bytes" where
  "calc_info S nonceU nonceS ids =
     (let state = crypto_hash_sha256_init;
          state = crypto_hash_sha256_update state nonceU OPAQUE_NONCE_BYTES;
          state = crypto_hash_sha256_update state nonceS OPAQUE_NONCE_BYTES;
          state = (case idU ids of None \<Rightarrow> state
                   | Some u \<Rightarrow> crypto_hash_sha256_update state u (idU_len ids));
          state = (case idS ids of None \<Rightarrow> state
                   | Some s \<Rightarrow> crypto_hash_sha256_update state s (idS_len ids))
      in crypto_hash_sha256_final S state)"

text \<open>
  \<^verbatim>\<open>get_xcript\<close> returns the transcript hash and the content of \<open>xcript_state\<close> after
  the call. The argument \<open>xcript_state\<close> is \<open>None\<close> for a null pointer and the state the
  caller's variable holds otherwise; the running state is copied into it only when
  \<open>infos\<close> carries neither \<open>info3\<close> nor \<open>einfo3\<close>.
\<close>

definition get_xcript ::
  "sodium \<Rightarrow> crypto_hash_sha256_state option \<Rightarrow> bytes \<Rightarrow> bytes \<Rightarrow> bytes \<Rightarrow> bytes \<Rightarrow>
   bytes \<Rightarrow> nat \<Rightarrow> bytes \<Rightarrow> bytes \<Rightarrow> Opaque_App_Infos option \<Rightarrow>
   bytes \<times> crypto_hash_sha256_state option" where
  "get_xcript S xcript_state oprf1 nonceU epubu oprf2 envu envu_len nonceS epubs infos =
     (let state = crypto_hash_sha256_init;
          state = crypto_hash_sha256_update state oprf1 crypto_core_ristretto255_BYTES;
          state = crypto_hash_sha256_update state nonceU OPAQUE_NONCE_BYTES;
          state = (case infos of None \<Rightarrow> state | Some i \<Rightarrow>
                    (case info1 i of None \<Rightarrow> state
                     | Some b \<Rightarrow> crypto_hash_sha256_update state b (info1_len i)));
          state = crypto_hash_sha256_update state epubu crypto_scalarmult_BYTES;
          state = crypto_hash_sha256_update state oprf2 crypto_core_ristretto255_BYTES;
          state = crypto_hash_sha256_update state envu envu_len;
          state = crypto_hash_sha256_update state nonceS OPAQUE_NONCE_BYTES;
          state = (case infos of None \<Rightarrow> state | Some i \<Rightarrow>
                    (case info2 i of None \<Rightarrow> state
                     | Some b \<Rightarrow> crypto_hash_sha256_update state b (info2_len i)));
          state = crypto_hash_sha256_update state epubs crypto_scalarmult_BYTES;
          state = (case infos of None \<Rightarrow> state | Some i \<Rightarrow>
                    (let state = (case einfo2 i of None \<Rightarrow> state
                                  | Some b \<Rightarrow> crypto_hash_sha256_update state b (einfo2_len i));
                         state = (case info3 i of None \<Rightarrow> state
                                  | Some b \<Rightarrow> crypto_hash_sha256_update state b (info3_len i));
                         state = (case einfo3 i of None \<Rightarrow> state
                                  | Some b \<Rightarrow> crypto_hash_sha256_update state b (einfo3_len i))
                     in state));
          saved = (if xcript_state \<noteq> None \<and>
                      (case infos of None \<Rightarrow> True
                       | Some i \<Rightarrow> \<not> (einfo3 i \<noteq> None \<or> info3 i \<noteq> None))
                   then Some state else xcript_state)
      in (crypto_hash_sha256_final S state, saved))"

section \<open>Triple Diffie-Hellman\<close>

text \<open>
  Both helpers return 1 as soon as one \<^verbatim>\<open>crypto_scalarmult\<close> fails (\<open>None\<close> here) and
  otherwise hand the 96 bytes of \<open>sec\<close>, the three products in the order the code
  writes them, to \<open>derive_keys\<close>.
\<close>

definition opaque_server_3dh ::
  "sodium \<Rightarrow> bytes \<Rightarrow> bytes \<Rightarrow> bytes \<Rightarrow> bytes \<Rightarrow> bytes \<Rightarrow> Opaque_Keys option" where
  "opaque_server_3dh S ix ex Ip Ep info =
     (case crypto_scalarmult S ix Ep of None \<Rightarrow> None | Some s1 \<Rightarrow>
     (case crypto_scalarmult S ex Ip of None \<Rightarrow> None | Some s2 \<Rightarrow>
     (case crypto_scalarmult S ex Ep of None \<Rightarrow> None | Some s3 \<Rightarrow>
        Some (derive_keys S (s1 @ s2 @ s3) info))))"

definition opaque_user_3dh ::
  "sodium \<Rightarrow> bytes \<Rightarrow> bytes \<Rightarrow> bytes \<Rightarrow> bytes \<Rightarrow> bytes \<Rightarrow> Opaque_Keys option" where
  "opaque_user_3dh S ix ex Ip Ep info =
     (case crypto_scalarmult S ex Ip of None \<Rightarrow> None | Some s1 \<Rightarrow>
     (case crypto_scalarmult S ix Ep of None \<Rightarrow> None | Some s2 \<Rightarrow>
     (case crypto_scalarmult S ex Ep of None \<Rightarrow> None | Some s3 \<Rightarrow>
        Some (derive_keys S (s1 @ s2 @ s3) info))))"

section \<open>Private registration, step 4\<close>

text \<open>
  \<^verbatim>\<open>opaque_private_init_srv_finish\<close> is a \<^verbatim>\<open>void\<close> function: three \<^verbatim>\<open>memcpy\<close> calls of
  whole fields into the record buffer.
\<close>

definition opaque_private_init_srv_finish ::
  "Opaque_RegisterSec \<Rightarrow> Opaque_RegisterPub \<Rightarrow> Opaque_UserRecord \<Rightarrow> Opaque_UserRecord" where
  "opaque_private_init_srv_finish sec pub rec =
     rec \<lparr> rec_k_s := rsec_k_s sec, rec_p_s := rsec_p_s sec, rec_P_s := rpub_P_s pub \<rparr>"

section \<open>The envelope\<close>

text \<open>
  The two byte strings the code spells out: \<^verbatim>\<open>"EnvU"\<close>, appended to the nonce as the
  HKDF context, and \<^verbatim>\<open>"rwd"\<close>, the key of the generic hash that yields \<open>rwd\<close>.
\<close>

definition EnvU :: bytes where
  "EnvU = [0x45, 0x6E, 0x76, 0x55]"

definition rwd_key :: bytes where
  "rwd_key = [0x72, 0x77, 0x64]"

text \<open>
  The loop \<^verbatim>\<open>for(i=0;i<n;i++) c[i]=a[i]^keys[i]\<close>: the \<open>n\<close> bytes it writes. The
  index stays below \<open>n\<close>; C leaves a read behind the end of \<open>a\<close> or \<open>keys\<close>
  undefined, and the theorems below state that both hold \<open>n\<close> bytes.
\<close>

definition xor_loop :: "bytes \<Rightarrow> bytes \<Rightarrow> nat \<Rightarrow> bytes" where
  "xor_loop a keys n = map (\<lambda>i. a ! i XOR keys ! i) [0..<n]"

text \<open>
  \<^verbatim>\<open>opaque_envelope\<close>. Arguments: the 32 bytes \<^verbatim>\<open>randombytes\<close> draws for the nonce;
  \<open>rwd\<close>, \<open>SecEnv\<close> and \<open>ClrEnv\<close> as pointers (\<open>None\<close> for \<^verbatim>\<open>NULL\<close>, otherwise the
  bytes found there) with their lengths; the numeric value of the pointer \<open>envelope\<close>,
  which the two overflow checks read; the caller's \<open>export_key\<close> buffer (\<open>None\<close> for
  \<^verbatim>\<open>NULL\<close>). On return code 0 the result holds the bytes written from \<open>envelope\<close> on,
  \<open>nonce | C | ClrEnv | tag\<close>, and the \<open>export_key\<close> buffer after the call. The
  callers pass \<open>envelope + 32\<close> as \<open>SecEnv\<close>: the loop then encrypts in place, each
  byte read before it is overwritten.
\<close>

definition opaque_envelope ::
  "sodium \<Rightarrow> bytes \<Rightarrow> bytes option \<Rightarrow> bytes option \<Rightarrow> 64 word \<Rightarrow> bytes option \<Rightarrow> 64 word \<Rightarrow>
   64 word \<Rightarrow> bytes option \<Rightarrow> opaque_error + (bytes \<times> bytes option)" where
  "opaque_envelope S nonce rwd SecEnv SecEnv_len ClrEnv ClrEnv_len envelope export_key =
     (if ((SecEnv = None) \<noteq> (SecEnv_len = 0)) \<or> ((ClrEnv = None) \<noteq> (ClrEnv_len = 0))
         \<or> rwd = None \<or> envelope = 0
      then Inl LengthError
      else if 2 ^ 64 \<le> 2 * crypto_hash_sha256_BYTES + unat SecEnv_len then Inl LengthError
      else
        (let tmp = 2 * crypto_hash_sha256_BYTES + unat SecEnv_len;
             ctx = take crypto_hash_sha256_BYTES nonce @ EnvU;
             keys = crypto_kdf_hkdf_sha256_expand S tmp ctx (case rwd of None \<Rightarrow> [] | Some k \<Rightarrow> k);
             C = (case SecEnv of None \<Rightarrow> [] | Some s \<Rightarrow> xor_loop s keys (unat SecEnv_len));
             E = nonce @ C @ (case ClrEnv of None \<Rightarrow> [] | Some cl \<Rightarrow> take (unat ClrEnv_len) cl);
             hmackey = take 32 (drop (unat SecEnv_len) keys)
         in if 2 ^ 64 \<le> unat (envelope + 32) + unat SecEnv_len then Inl LengthError
            else if 2 ^ 64 \<le> unat (envelope + 32 + SecEnv_len) + unat ClrEnv_len then Inl LengthError
            else
              (let T = crypto_auth_hmacsha256 S (take (unat (32 + SecEnv_len + ClrEnv_len)) E) hmackey;
                   ekey = take crypto_hash_sha256_BYTES (drop (unat SecEnv_len + crypto_hash_sha256_BYTES) keys)
               in Inr (E @ T, case export_key of None \<Rightarrow> None | Some _ \<Rightarrow> Some ekey))))"

text \<open>
  \<^verbatim>\<open>opaque_envelope_open\<close>. \<open>envelope\<close> is the numeric value of the pointer and \<open>env\<close>
  the bytes found there. \<open>SecEnv\<close>, \<open>ClrEnv\<close> and \<open>export_key\<close> are output buffers:
  \<open>None\<close> for \<^verbatim>\<open>NULL\<close>, otherwise the content before the call. On return code 0 the
  result holds the content of the three buffers after the call. Every failure returns
  before the first write; a tag mismatch is \<open>EnvelopeAuthFailed\<close>.
\<close>

definition opaque_envelope_open ::
  "sodium \<Rightarrow> bytes option \<Rightarrow> 64 word \<Rightarrow> bytes \<Rightarrow> bytes option \<Rightarrow> 64 word \<Rightarrow> bytes option \<Rightarrow>
   64 word \<Rightarrow> bytes option \<Rightarrow> opaque_error + (bytes option \<times> bytes option \<times> bytes option)" where
  "opaque_envelope_open S rwd envelope env SecEnv SecEnv_len ClrEnv ClrEnv_len export_key =
     (if ((SecEnv = None) \<noteq> (SecEnv_len = 0)) \<or> ((ClrEnv = None) \<noteq> (ClrEnv_len = 0))
         \<or> rwd = None \<or> envelope = 0
      then Inl LengthError
      else
        (let ctx = take crypto_hash_sha256_BYTES env @ EnvU
         in if 2 ^ 64 \<le> 2 * crypto_hash_sha256_BYTES + unat SecEnv_len then Inl LengthError
            else
              (let tmp = 2 * crypto_hash_sha256_BYTES + unat SecEnv_len;
                   keys = crypto_kdf_hkdf_sha256_expand S tmp ctx
                            (case rwd of None \<Rightarrow> [] | Some k \<Rightarrow> k);
                   hmackey = take 32 (drop (unat SecEnv_len) keys)
               in if 2 ^ 64 \<le> unat (envelope + 32) + unat SecEnv_len then Inl LengthError
                  else if 2 ^ 64 \<le> unat (envelope + 32 + SecEnv_len) + unat ClrEnv_len
                  then Inl LengthError
                  else if crypto_auth_hmacsha256_verify S
                            (take 32 (drop (unat (32 + SecEnv_len + ClrEnv_len)) env))
                            (take (unat (32 + SecEnv_len + ClrEnv_len)) env) hmackey = - 1
                  then Inl EnvelopeAuthFailed
                  else
                    (let c = drop crypto_hash_sha256_BYTES env;
                         ekey = take crypto_hash_sha256_BYTES
                                  (drop (unat SecEnv_len + crypto_hash_sha256_BYTES) keys)
                     in Inr (case SecEnv of None \<Rightarrow> None
                             | Some b \<Rightarrow> Some (xor_loop c keys (unat SecEnv_len) @ drop (unat SecEnv_len) b),
                             case ClrEnv of None \<Rightarrow> None
                             | Some b \<Rightarrow> Some (memcpy b 0 (drop (unat SecEnv_len) c) (unat ClrEnv_len)),
                             case export_key of None \<Rightarrow> None | Some _ \<Rightarrow> Some ekey)))))"

section \<open>The OPRF helpers\<close>

text \<open>
  Modelled from the spec: \<^verbatim>\<open>sphinx_blindPW\<close> and \<^verbatim>\<open>sphinx_oprf\<close> are functions of the
  repository (\<^verbatim>\<open>common.h\<close>) whose source is not among the files. The spec (4.2, 4.6)
  gives them: Blind computes \<open>alpha = hash_to_group(pw) \<cdot> r\<close> for the sampled \<open>r\<close>;
  the registration of the server evaluates the OPRF on its own,
  \<open>beta = hash_to_group(pw) \<cdot> k_s\<close>, and hashes \<open>pw || beta\<close> under the optional key
  to the 32 bytes \<open>rw0\<close>. Both fail when the scalar multiplication fails. The scalar
  \<open>r\<close> is the draw of \<^verbatim>\<open>crypto_core_ristretto255_scalar_random\<close>.
\<close>

definition sphinx_blindPW :: "sodium \<Rightarrow> bytes \<Rightarrow> bytes \<Rightarrow> (bytes \<times> bytes) option" where
  "sphinx_blindPW S r pw =
     (case crypto_scalarmult_ristretto255 S r (hash_to_group S pw) of
        None \<Rightarrow> None
      | Some alpha \<Rightarrow> Some (r, alpha))"

definition sphinx_oprf :: "sodium \<Rightarrow> bytes \<Rightarrow> bytes \<Rightarrow> bytes option \<Rightarrow> bytes option" where
  "sphinx_oprf S pw k key =
     (case crypto_scalarmult_ristretto255 S k (hash_to_group S pw) of
        None \<Rightarrow> None
      | Some h \<Rightarrow>
          Some (crypto_generichash S 32 (pw @ take 32 h) (case key of None \<Rightarrow> [] | Some b \<Rightarrow> b)))"

section \<open>Registration by the server\<close>

text \<open>
  \<^verbatim>\<open>opaque_init_srv\<close>. The first four arguments after the primitives are the draws of
  the random generator in the order the code makes them: \<open>k_s\<close>, \<open>p_s\<close>, \<open>p_u\<close> and
  the nonce of the envelope. \<open>pw\<close> holds the \<open>pwlen\<close> bytes of the password. \<open>key\<close>
  and \<open>ClrEnv\<close> are pointers (\<open>None\<close> for \<^verbatim>\<open>NULL\<close>); \<open>key\<close> holds \<open>key_len\<close>
  bytes. \<open>rec_ptr\<close> is the numeric value of the pointer \<^verbatim>\<open>_rec\<close> to the record buffer and \<open>rec0\<close>
  the content of that buffer before the call; the envelope starts 136 bytes into it.
  On return code 0 the result is the record and the \<open>export_key\<close> buffer after the
  call; what a failing call leaves in the record buffer is not modelled.
\<close>

definition opaque_init_srv ::
  "sodium \<Rightarrow> bytes \<Rightarrow> bytes \<Rightarrow> bytes \<Rightarrow> bytes \<Rightarrow>
   bytes \<Rightarrow> bytes \<Rightarrow> 64 word \<Rightarrow> bytes option \<Rightarrow> bytes option \<Rightarrow> 64 word \<Rightarrow>
   64 word \<Rightarrow> Opaque_UserRecord \<Rightarrow> bytes option \<Rightarrow>
   opaque_error + (Opaque_UserRecord \<times> bytes option)" where
  "opaque_init_srv S k_s p_s p_u nonce pw extra extra_len key ClrEnv ClrEnv_len rec_ptr rec0 export_key =
     (let rec = rec0 \<lparr> rec_k_s := k_s \<rparr>
      in if \<not> sodium_mlock S ''rw0'' then Inl LockFailure
         else (case sphinx_oprf S pw (rec_k_s rec) key of
           None \<Rightarrow> Inl InvalidPoint
         | Some rw0 \<Rightarrow>
           if \<not> sodium_mlock S ''rw'' then Inl LockFailure
           else (case crypto_pwhash S 32 rw0 (replicate 32 0) of
             None \<Rightarrow> Inl KdfFailure
           | Some rw \<Rightarrow>
             (let rec = rec \<lparr> rec_p_s := p_s \<rparr>;
                  rec = rec \<lparr> rec_c := memcpy (rec_c rec) blob_p_u p_u crypto_scalarmult_SCALARBYTES \<rparr>;
                  rec = rec \<lparr> rec_P_s := crypto_scalarmult_base S (rec_p_s rec) \<rparr>;
                  rec = rec \<lparr> rec_P_u := crypto_scalarmult_base S
                                             (take 32 (drop blob_p_u (rec_c rec))) \<rparr>;
                  rec = rec \<lparr> rec_c := memcpy (rec_c rec) blob_P_u (rec_P_u rec @ rec_P_s rec)
                                          (crypto_scalarmult_BYTES * 2) \<rparr>;
                  rec = rec \<lparr> rec_extra_len := extra_len \<rparr>;
                  rec = (if extra_len \<noteq> 0
                         then rec \<lparr> rec_c := memcpy (rec_c rec) blob_extra_or_mac extra (unat extra_len) \<rparr>
                         else rec)
              in (case opaque_envelope S nonce (Some rw)
                         (Some (drop crypto_hash_sha256_BYTES (rec_c rec)))
                         (32 + 32 * 2 + extra_len)
                         ClrEnv ClrEnv_len (rec_ptr + 136) export_key of
                    Inl e \<Rightarrow> Inl e
                  | Inr (env, ek) \<Rightarrow>
                      Inr (rec \<lparr> rec_c := memcpy (rec_c rec) 0 env (length env) \<rparr>, ek))))))"

section \<open>Login\<close>

text \<open>
  \<^verbatim>\<open>opaque_session_usr_start\<close>, with the draws \<open>r\<close>, \<open>x_u\<close> and \<open>nonceU\<close>.
\<close>

definition opaque_session_usr_start ::
  "sodium \<Rightarrow> bytes \<Rightarrow> bytes \<Rightarrow> bytes \<Rightarrow> bytes \<Rightarrow>
   opaque_error + (Opaque_UserSession_Secret \<times> Opaque_UserSession)" where
  "opaque_session_usr_start S r x_u nonceU pw =
     (case sphinx_blindPW S r pw of
        None \<Rightarrow> Inl InvalidPoint
      | Some (r', alpha) \<Rightarrow>
          Inr (\<lparr> sec_r = r', sec_x_u = x_u, sec_nonceU = nonceU, sec_alpha = alpha \<rparr>,
               \<lparr> pub_alpha = alpha, pub_X_u = crypto_scalarmult_base S x_u, pub_nonceU = nonceU \<rparr>))"

text \<open>
  \<^verbatim>\<open>opaque_session_srv\<close>, with the draws \<open>x_s\<close> and \<open>nonceS\<close>. \<open>resp0\<close> is the
  content of the response buffer before the call and \<open>xcript_state\<close> the caller's hash
  state (\<open>None\<close> for \<^verbatim>\<open>NULL\<close>). On return code 0 the result is the response buffer,
  \<open>sk\<close>, \<open>km3\<close> and the hash state after the call. The code copies
  \<^verbatim>\<open>sizeof rec->c + rec->extra_len\<close> bytes of the envelope, whatever the length of its
  clear-text part.
\<close>

definition opaque_session_srv ::
  "sodium \<Rightarrow> bytes \<Rightarrow> bytes \<Rightarrow> Opaque_UserSession \<Rightarrow> Opaque_UserRecord \<Rightarrow> Opaque_Ids \<Rightarrow>
   Opaque_App_Infos option \<Rightarrow> Opaque_ServerSession \<Rightarrow> crypto_hash_sha256_state option \<Rightarrow>
   opaque_error + (Opaque_ServerSession \<times> bytes \<times> bytes \<times> crypto_hash_sha256_state option)" where
  "opaque_session_srv S x_s nonceS pub rec ids infos resp0 xcript_state =
     (if \<not> crypto_core_ristretto255_is_valid_point S (pub_alpha pub) then Inl InvalidPoint
      else if \<not> sodium_mlock S ''x_s'' then Inl LockFailure
      else (case crypto_scalarmult_ristretto255 S (rec_k_s rec) (pub_alpha pub) of
        None \<Rightarrow> Inl InvalidPoint
      | Some beta \<Rightarrow>
        (let resp = resp0 \<lparr> resp_beta := beta \<rparr>;
             resp = resp \<lparr> resp_X_s := crypto_scalarmult_base S x_s \<rparr>;
             resp = resp \<lparr> resp_nonceS := nonceS \<rparr>;
             info = calc_info S (pub_nonceU pub) (resp_nonceS resp) ids
         in (case opaque_server_3dh S (rec_p_s rec) x_s (rec_P_u rec) (pub_X_u pub) info of
               None \<Rightarrow> Inl InvalidPoint
             | Some keys \<Rightarrow>
               (let resp = resp \<lparr> resp_c := memcpy (resp_c resp) 0 (rec_c rec)
                                               (unat (160 + rec_extra_len rec)) \<rparr>;
                    resp = resp \<lparr> resp_extra_len := rec_extra_len rec \<rparr>;
                    (xcript, saved) = get_xcript S xcript_state (pub_alpha pub) (pub_nonceU pub)
                                        (pub_X_u pub) (resp_beta resp) (resp_c resp)
                                        (unat (resp_extra_len resp + 160))
                                        (resp_nonceS resp) (resp_X_s resp) infos;
                    resp = resp \<lparr> resp_auth := crypto_auth_hmacsha256 S xcript (keys_km2 keys) \<rparr>
                in Inr (resp, keys_sk keys, keys_km3 keys, saved))))))"

text \<open>
  The caller-visible output buffers of \<^verbatim>\<open>opaque_session_usr_finish\<close>. \<open>rwd\<close>,
  \<open>auth\<close>, \<open>ClrEnv\<close> and \<open>export_key\<close> may be \<^verbatim>\<open>NULL\<close> (\<open>None\<close>).
\<close>

record usr_finish_buffers =
  out_sk :: bytes
  out_extra :: bytes
  out_rwd :: "bytes option"
  out_auth :: "bytes option"
  out_ClrEnv :: "bytes option"
  out_export_key :: "bytes option"

text \<open>
  \<^verbatim>\<open>opaque_session_usr_finish\<close>. \<open>resp_ptr\<close> is the numeric value of the pointer \<^verbatim>\<open>_resp\<close> to
  the response buffer, \<open>resp\<close> its content and \<open>out\<close> the content of the output buffers
  before the call. The result pairs the return code (\<open>Inr ()\<close> for 0) with the content of
  the output buffers after the call, on failure too. The local \<open>buf\<close> receives the
  opened \<open>SecEnv\<close> at offset 32; the bytes of \<open>buf\<close> that the code never writes are
  never read and are zero in the model. While it checks the tag of the server the code
  clears \<open>info3\<close> and \<open>einfo3\<close> in the caller's \<open>infos\<close> and restores them afterwards.
\<close>

definition opaque_session_usr_finish ::
  "sodium \<Rightarrow> bytes \<Rightarrow> 64 word \<Rightarrow> Opaque_ServerSession \<Rightarrow> Opaque_UserSession_Secret \<Rightarrow>
   bytes option \<Rightarrow> Opaque_Ids \<Rightarrow> Opaque_App_Infos option \<Rightarrow> usr_finish_buffers \<Rightarrow> 64 word \<Rightarrow>
   (opaque_error + unit) \<times> usr_finish_buffers" where
  "opaque_session_usr_finish S pw resp_ptr resp sec key ids infos out ClrEnv_len =
     (if \<not> crypto_core_ristretto255_is_valid_point S (resp_beta resp) then (Inl InvalidPoint, out)
      else if \<not> sodium_mlock S ''ir'' then (Inl LockFailure, out)
      else (case crypto_core_ristretto255_scalar_invert S (sec_r sec) of
        None \<Rightarrow> (Inl InvalidScalar, out)
      | Some ir \<Rightarrow>
        if \<not> sodium_mlock S ''h0'' then (Inl LockFailure, out)
        else (case crypto_scalarmult_ristretto255 S ir (resp_beta resp) of
          None \<Rightarrow> (Inl InvalidPoint, out)
        | Some h0 \<Rightarrow>
          if \<not> sodium_mlock S ''state'' then (Inl LockFailure, out)
          else if \<not> sodium_mlock S ''rw0'' then (Inl LockFailure, out)
          else
            (let rw0 = crypto_generichash S 32 (pw @ take 32 h0)
                         (case key of None \<Rightarrow> [] | Some b \<Rightarrow> b)
             in if \<not> sodium_mlock S ''rw'' then (Inl LockFailure, out)
                else (case crypto_pwhash S 32 rw0 (replicate 32 0) of
                  None \<Rightarrow> (Inl KdfFailure, out)
                | Some rw \<Rightarrow>
                  if OPAQUE_MAX_EXTRA_BYTES < resp_extra_len resp then (Inl LengthError, out)
                  else if \<not> sodium_mlock S ''buf'' then (Inl LockFailure, out)
                  else (case opaque_envelope_open S (Some rw) (resp_ptr + 136) (resp_c resp)
                               (Some (replicate (OPAQUE_BLOB_LEN + unat (resp_extra_len resp) - 32) 0))
                               (32 + 32 * 2 + resp_extra_len resp)
                               (out_ClrEnv out) ClrEnv_len (out_export_key out) of
                    Inl e \<Rightarrow> (Inl e, out)
                  | Inr (SecEnv, ClrEnv, export_key) \<Rightarrow>
                    (let out = out \<lparr> out_ClrEnv := ClrEnv, out_export_key := export_key \<rparr>;
                         out = (case out_rwd out of None \<Rightarrow> out
                                | Some _ \<Rightarrow> out \<lparr> out_rwd := Some (crypto_generichash S 32 rw rwd_key) \<rparr>);
                         buf = replicate 32 0 @ (case SecEnv of None \<Rightarrow> [] | Some b \<Rightarrow> b);
                         info = calc_info S (sec_nonceU sec) (resp_nonceS resp) ids
                     in (case opaque_user_3dh S (take 32 (drop blob_p_u buf)) (sec_x_u sec)
                                (take 32 (drop blob_P_s buf)) (resp_X_s resp) info of
                       None \<Rightarrow> (Inl InvalidPoint, out)
                     | Some keys \<Rightarrow>
                       (let X_u = crypto_scalarmult_base S (sec_x_u sec);
                            infos' = (case infos of None \<Rightarrow> None
                                      | Some i \<Rightarrow> Some (i \<lparr> einfo3 := None, info3 := None \<rparr>));
                            (xcript, _) = get_xcript S None (sec_alpha sec) (sec_nonceU sec) X_u
                                            (resp_beta resp) (resp_c resp)
                                            (unat (resp_extra_len resp + 160))
                                            (resp_nonceS resp) (resp_X_s resp) infos'
                        in if crypto_auth_hmacsha256_verify S (resp_auth resp) xcript (keys_km2 keys) \<noteq> 0
                           then (Inl ServerAuthFailed,
                                 (case out_rwd out of None \<Rightarrow> out
                                  | Some _ \<Rightarrow> out \<lparr> out_rwd := Some (replicate 32 0) \<rparr>))
                           else
                             (let out = out \<lparr> out_sk := keys_sk keys \<rparr>;
                                  out = (case out_auth out of None \<Rightarrow> out
                                         | Some _ \<Rightarrow>
                                           (let (xcript, _) = get_xcript S None (sec_alpha sec)
                                                  (sec_nonceU sec) X_u (resp_beta resp) (resp_c resp)
                                                  (unat (resp_extra_len resp + 160))
                                                  (resp_nonceS resp) (resp_X_s resp) infos
                                            in out \<lparr> out_auth :=
                                                 Some (crypto_auth_hmacsha256 S xcript (keys_km3 keys)) \<rparr>));
                                  out = (if resp_extra_len resp \<noteq> 0
                                         then out \<lparr> out_extra := memcpy (out_extra out) 0
                                                      (drop blob_extra_or_mac buf)
                                                      (unat (resp_extra_len resp)) \<rparr>
                                         else out)
                              in (Inr (), out)))))))))))"

section \<open>Private registration\<close>

definition opaque_private_init_usr_start :: "sodium \<Rightarrow> bytes \<Rightarrow> bytes \<Rightarrow> (bytes \<times> bytes) option" where
  "opaque_private_init_usr_start S r pw = sphinx_blindPW S r pw"

text \<open>
  \<^verbatim>\<open>opaque_private_init_srv_respond\<close>, with the draws \<open>k_s\<close> and \<open>p_s\<close>.
\<close>

definition opaque_private_init_srv_respond ::
  "sodium \<Rightarrow> bytes \<Rightarrow> bytes \<Rightarrow> bytes \<Rightarrow> opaque_error + (Opaque_RegisterSec \<times> Opaque_RegisterPub)" where
  "opaque_private_init_srv_respond S k_s p_s alpha =
     (if \<not> crypto_core_ristretto255_is_valid_point S alpha then Inl InvalidPoint
      else (case crypto_scalarmult_ristretto255 S k_s alpha of
        None \<Rightarrow> Inl InvalidPoint
      | Some beta \<Rightarrow>
          Inr (\<lparr> rsec_p_s = p_s, rsec_k_s = k_s \<rparr>,
               \<lparr> rpub_beta = beta, rpub_P_s = crypto_scalarmult_base S p_s \<rparr>)))"

text \<open>
  \<^verbatim>\<open>opaque_private_init_usr_respond\<close>, with the draws \<open>p_u\<close> and the nonce of the
  envelope. The arguments are those of \<open>opaque_init_srv\<close>, with the blinding scalar
  \<open>r\<close>, the registration public of the server and the \<open>rwd\<close> buffer (\<open>None\<close> for
  \<^verbatim>\<open>NULL\<close>). On return code 0 the result is the record, the \<open>rwd\<close> buffer and the
  \<open>export_key\<close> buffer after the call. The code copies \<open>extra\<close> once without
  looking at \<open>extra_len\<close> and once more when \<open>extra_len\<close> is not 0.
\<close>

definition opaque_private_init_usr_respond ::
  "sodium \<Rightarrow> bytes \<Rightarrow> bytes \<Rightarrow>
   bytes \<Rightarrow> bytes \<Rightarrow> Opaque_RegisterPub \<Rightarrow> bytes \<Rightarrow> 64 word \<Rightarrow> bytes option \<Rightarrow>
   bytes option \<Rightarrow> 64 word \<Rightarrow> 64 word \<Rightarrow> Opaque_UserRecord \<Rightarrow> bytes option \<Rightarrow> bytes option \<Rightarrow>
   opaque_error + (Opaque_UserRecord \<times> bytes option \<times> bytes option)" where
  "opaque_private_init_usr_respond S p_u nonce pw r pub extra extra_len key ClrEnv ClrEnv_len
       rec_ptr rec0 rwd export_key =
     (if \<not> crypto_core_ristretto255_is_valid_point S (rpub_beta pub) then Inl InvalidPoint
      else if \<not> sodium_mlock S ''ir'' then Inl LockFailure
      else (case crypto_core_ristretto255_scalar_invert S r of
        None \<Rightarrow> Inl InvalidScalar
      | Some ir \<Rightarrow>
        if \<not> sodium_mlock S ''h0'' then Inl LockFailure
        else (case crypto_scalarmult_ristretto255 S ir (rpub_beta pub) of
          None \<Rightarrow> Inl InvalidPoint
        | Some h0 \<Rightarrow>
          if \<not> sodium_mlock S ''state'' then Inl LockFailure
          else if \<not> sodium_mlock S ''rw0'' then Inl LockFailure
          else
            (let rw0 = crypto_generichash S 32 (pw @ take 32 h0)
                         (case key of None \<Rightarrow> [] | Some b \<Rightarrow> b)
             in if \<not> sodium_mlock S ''rw'' then Inl LockFailure
                else (case crypto_pwhash S 32 rw0 (replicate 32 0) of
                  None \<Rightarrow> Inl KdfFailure
                | Some rw \<Rightarrow>
                  (let rec = rec0 \<lparr> rec_c := memcpy (rec_c rec0) blob_p_u p_u
                                                crypto_scalarmult_SCALARBYTES \<rparr>;
                       rec = rec \<lparr> rec_c := memcpy (rec_c rec) blob_P_u
                                     (crypto_scalarmult_base S (take 32 (drop blob_p_u (rec_c rec))))
                                     crypto_scalarmult_BYTES \<rparr>;
                       rec = rec \<lparr> rec_P_u := take crypto_scalarmult_BYTES (drop blob_P_u (rec_c rec)) \<rparr>;
                       rec = rec \<lparr> rec_c := memcpy (rec_c rec) blob_P_s (rpub_P_s pub)
                                               crypto_scalarmult_BYTES \<rparr>;
                       rec = rec \<lparr> rec_extra_len := extra_len \<rparr>;
                       rec = rec \<lparr> rec_c := memcpy (rec_c rec) blob_extra_or_mac extra (unat extra_len) \<rparr>;
                       rec = (if extra_len \<noteq> 0
                              then rec \<lparr> rec_c := memcpy (rec_c rec) blob_extra_or_mac extra
                                                      (unat extra_len) \<rparr>
                              else rec)
                   in (case opaque_envelope S nonce (Some rw)
                              (Some (drop crypto_hash_sha256_BYTES (rec_c rec)))
                              (32 + 32 * 2 + extra_len)
                              ClrEnv ClrEnv_len (rec_ptr + 136) export_key of
                         Inl e \<Rightarrow> Inl e
                       | Inr (env, ek) \<Rightarrow>
                           Inr (rec \<lparr> rec_c := memcpy (rec_c rec) 0 env (length env) \<rparr>,
                                (case rwd of None \<Rightarrow> None
                                 | Some _ \<Rightarrow> Some (crypto_generichash S 32 rw rwd_key)),
                                ek))))))))"

section \<open>Auxiliary notions for the statements\<close>

text \<open>
  The bytes \<open>get_xcript\<close> has absorbed when it finalises the hash, written as one
  concatenation; \<open>app_info\<close> reads one optional application info of \<open>infos\<close>.
  \<open>without_info3\<close> is \<open>infos\<close> as \<open>opaque_session_usr_finish\<close> passes it on while it
  checks the tag of the server: \<open>info3\<close> and \<open>einfo3\<close> cleared.
\<close>

definition app_info ::
  "Opaque_App_Infos option \<Rightarrow> (Opaque_App_Infos \<Rightarrow> bytes option) \<Rightarrow> (Opaque_App_Infos \<Rightarrow> nat) \<Rightarrow> bytes" where
  "app_info infos ptr len =
     (case infos of None \<Rightarrow> []
      | Some i \<Rightarrow> (case ptr i of None \<Rightarrow> [] | Some b \<Rightarrow> take (len i) b))"

definition xcript_input ::
  "bytes \<Rightarrow> bytes \<Rightarrow> bytes \<Rightarrow> bytes \<Rightarrow> bytes \<Rightarrow> nat \<Rightarrow> bytes \<Rightarrow> bytes \<Rightarrow> Opaque_App_Infos option \<Rightarrow> bytes" where
  "xcript_input oprf1 nonceU epubu oprf2 envu envu_len nonceS epubs infos =
     take 32 oprf1 @ take 32 nonceU @ app_info infos info1 info1_len @ take 32 epubu @
     take 32 oprf2 @ take envu_len envu @ take 32 nonceS @ app_info infos info2 info2_len @
     take 32 epubs @ app_info infos einfo2 einfo2_len @ app_info infos info3 info3_len @
     app_info infos einfo3 einfo3_len"

definition without_info3 :: "Opaque_App_Infos option \<Rightarrow> Opaque_App_Infos option" where
  "without_info3 infos =
     (case infos of None \<Rightarrow> None | Some i \<Rightarrow> Some (i \<lparr> einfo3 := None, info3 := None \<rparr>))"

text \<open>
  The envelope that \<open>opaque_envelope\<close> makes of a secret part \<open>sec\<close> and a clear
  part \<open>clr\<close> under the key \<open>rw\<close> and the nonce: the key stream, the bytes of
  the envelope, and the export key, which is the third slice of the key stream.
\<close>

definition envelope_keys :: "sodium \<Rightarrow> bytes \<Rightarrow> bytes \<Rightarrow> nat \<Rightarrow> bytes" where
  "envelope_keys S rw nonce n = crypto_kdf_hkdf_sha256_expand S (64 + n) (take 32 nonce @ EnvU) rw"

definition sealed :: "sodium \<Rightarrow> bytes \<Rightarrow> bytes \<Rightarrow> bytes \<Rightarrow> bytes \<Rightarrow> bytes" where
  "sealed S rw nonce sec clr =
     (let keys = envelope_keys S rw nonce (length sec);
          C = xor_loop sec keys (length sec)
      in nonce @ C @ clr @ crypto_auth_hmacsha256 S (nonce @ C @ clr) (take 32 (drop (length sec) keys)))"

definition export_key_of :: "sodium \<Rightarrow> bytes \<Rightarrow> bytes \<Rightarrow> nat \<Rightarrow> bytes" where
  "export_key_of S rw nonce n = take 32 (drop (n + 32) (envelope_keys S rw nonce n))"

text \<open>
  The tag of an envelope body under the key \<open>rw\<close>: the HMAC under the second slice
  of the key stream. \<open>n\<close> is the length of the secret part.
\<close>

definition envelope_tag :: "sodium \<Rightarrow> bytes \<Rightarrow> bytes \<Rightarrow> bytes \<Rightarrow> nat \<Rightarrow> bytes" where
  "envelope_tag S rw nonce body n =
     crypto_auth_hmacsha256 S body (take 32 (drop n (envelope_keys S rw nonce n)))"


section \<open>Contracts of the primitives\<close>

text \<open>
  What the theorems below ask of the primitives, each as a predicate on the interface:
  Diffie-Hellman commutes on public keys made with the base point; unblinding with the
  inverse of the blinding scalar gives the OPRF value of the unblinded point; tags and
  public keys are 32 bytes long; locking memory succeeds.
\<close>

definition dh_commutes :: "sodium \<Rightarrow> bool" where
  "dh_commutes S \<longleftrightarrow>
     (\<forall>a b. crypto_scalarmult S a (crypto_scalarmult_base S b)
          = crypto_scalarmult S b (crypto_scalarmult_base S a))"

definition oprf_unblinds :: "sodium \<Rightarrow> bool" where
  "oprf_unblinds S \<longleftrightarrow>
     (\<forall>r ir k h a b.
        crypto_core_ristretto255_scalar_invert S r = Some ir \<longrightarrow>
        crypto_scalarmult_ristretto255 S r h = Some a \<longrightarrow>
        crypto_scalarmult_ristretto255 S k a = Some b \<longrightarrow>
        crypto_scalarmult_ristretto255 S ir b = crypto_scalarmult_ristretto255 S k h)"

definition tags_32 :: "sodium \<Rightarrow> bool" where
  "tags_32 S \<longleftrightarrow> (\<forall>m k. length (crypto_auth_hmacsha256 S m k) = 32)"

definition points_32 :: "sodium \<Rightarrow> bool" where
  "points_32 S \<longleftrightarrow> (\<forall>n. length (crypto_scalarmult_base S n) = 32)"

definition locks :: "sodium \<Rightarrow> bool" where
  "locks S \<longleftrightarrow> (\<forall>b. sodium_mlock S b)"

text \<open>
  A product that \<^verbatim>\<open>crypto_scalarmult_ristretto255\<close> returns is a valid point.
\<close>

definition products_valid :: "sodium \<Rightarrow> bool" where
  "products_valid S \<longleftrightarrow>
     (\<forall>n p q. crypto_scalarmult_ristretto255 S n p = Some q \<longrightarrow>
        crypto_core_ristretto255_is_valid_point S q)"


section \<open>A reference instance of the primitive interface\<close>

text \<open>
  A small executable instance of the interface, used to run the model on concrete
  inputs. Every value is cut or zero-padded to its size. The group of the OPRF is the
  bytewise sum of 32-byte strings with the zero string as identity. The validity check
  accepts every 32-byte encoding, the identity among them, as libsodium accepts the
  all-zero encoding; the scalar multiplication of the OPRF refuses the identity as point
  and as result, as libsodium does. The Diffie-Hellman group is the bytewise product
  with base point \<open>3, \<dots>, 3\<close>, and a product of zeros is refused. Hashes and tags mix
  the length and the first bytes of the input with the key.
\<close>

definition fitn :: "nat \<Rightarrow> bytes \<Rightarrow> bytes" where
  "fitn n x = take n (x @ replicate n 0)"

definition ref_is_valid_point :: "bytes \<Rightarrow> bool" where
  "ref_is_valid_point p \<longleftrightarrow> length p = 32"

definition ref_scalar_invert :: "bytes \<Rightarrow> bytes option" where
  "ref_scalar_invert r =
     (if fitn 32 r = replicate 32 0 then None else Some (map uminus (fitn 32 r)))"

definition ref_scalarmult_ristretto255 :: "bytes \<Rightarrow> bytes \<Rightarrow> bytes option" where
  "ref_scalarmult_ristretto255 n p =
     (let q = map2 (+) (fitn 32 n) (fitn 32 p)
      in if fitn 32 p = replicate 32 0 \<or> q = replicate 32 0 then None else Some q)"

definition ref_scalarmult :: "bytes \<Rightarrow> bytes \<Rightarrow> bytes option" where
  "ref_scalarmult n p =
     (let q = map2 (*) (fitn 32 n) (fitn 32 p)
      in if q = replicate 32 0 then None else Some q)"

definition ref_scalarmult_base :: "bytes \<Rightarrow> bytes" where
  "ref_scalarmult_base n = map2 (*) (fitn 32 n) (replicate 32 3)"

definition ref_digest :: "nat \<Rightarrow> bytes \<Rightarrow> bytes" where
  "ref_digest n m = fitn n (of_nat (length m) # m)"

definition ref_generichash :: "nat \<Rightarrow> bytes \<Rightarrow> bytes \<Rightarrow> bytes" where
  "ref_generichash outlen inp key = map2 (+) (ref_digest outlen inp) (fitn outlen key)"

definition ref_hmacsha256 :: "bytes \<Rightarrow> bytes \<Rightarrow> bytes" where
  "ref_hmacsha256 inp key = map2 (+) (ref_digest 32 inp) (fitn 32 key)"

definition ref_hkdf_extract :: "bytes \<Rightarrow> bytes \<Rightarrow> bytes" where
  "ref_hkdf_extract salt ikm = map2 (+) (ref_digest 32 ikm) (fitn 32 salt)"

definition ref_hkdf_expand :: "nat \<Rightarrow> bytes \<Rightarrow> bytes \<Rightarrow> bytes" where
  "ref_hkdf_expand n ctx prk =
     map (\<lambda>i. fitn 32 prk ! (i mod 32) + ref_digest 32 ctx ! (i mod 32) + of_nat i) [0..<n]"

definition ref_pwhash :: "nat \<Rightarrow> bytes \<Rightarrow> bytes \<Rightarrow> bytes option" where
  "ref_pwhash outlen passwd salt = Some (map2 (+) (fitn outlen passwd) (fitn outlen salt))"

definition ref_hash_to_group :: "bytes \<Rightarrow> bytes" where
  "ref_hash_to_group pw = 1 # fitn 31 pw"

definition ref_sodium :: sodium where
  "ref_sodium =
     \<lparr> crypto_core_ristretto255_is_valid_point = ref_is_valid_point,
       crypto_core_ristretto255_scalar_invert = ref_scalar_invert,
       crypto_scalarmult_ristretto255 = ref_scalarmult_ristretto255,
       crypto_scalarmult = ref_scalarmult,
       crypto_scalarmult_base = ref_scalarmult_base,
       crypto_generichash = ref_generichash,
       crypto_hash_sha256 = ref_digest 32,
       crypto_auth_hmacsha256 = ref_hmacsha256,
       crypto_kdf_hkdf_sha256_extract = ref_hkdf_extract,
       crypto_kdf_hkdf_sha256_expand = ref_hkdf_expand,
       crypto_pwhash = ref_pwhash,
       hash_to_group = ref_hash_to_group,
       sodium_mlock = (\<lambda>b. True) \<rparr>"

section \<open>Buffers of a sample run\<close>

text \<open>
  The buffers the callers hand over in the runs on the reference instance below: empty
  identities, a record buffer and a response buffer whose envelope part has \<open>n\<close>
  zero bytes, and the output buffers of the client, all present but that of the clear
  part of the envelope.
\<close>

definition sample_ids :: Opaque_Ids where
  "sample_ids = \<lparr> idU_len = 0, idU = None, idS_len = 0, idS = None \<rparr>"

definition sample_rec0 :: "nat \<Rightarrow> Opaque_UserRecord" where
  "sample_rec0 n = \<lparr> rec_k_s = [], rec_p_s = [], rec_P_u = [], rec_P_s = [], rec_extra_len = 0,
                     rec_c = replicate n 0 \<rparr>"

definition sample_resp0 :: "nat \<Rightarrow> Opaque_ServerSession" where
  "sample_resp0 n = \<lparr> resp_beta = [], resp_X_s = [], resp_nonceS = [], resp_auth = [],
                      resp_extra_len = 0, resp_c = replicate n 0 \<rparr>"

definition sample_out :: usr_finish_buffers where
  "sample_out = \<lparr> out_sk = replicate 32 0, out_extra = [], out_rwd = Some (replicate 32 0),
                  out_auth = Some (replicate 32 0), out_ClrEnv = None,
                  out_export_key = Some (replicate 32 0) \<rparr>"

section \<open>Properties of the reference instance\<close>

lemma length_fitn [simp]: "length (fitn n x) = n"
  by (simp add: fitn_def)

lemma fitn_same_length: "length x = n \<Longrightarrow> fitn n x = x"
  by (simp add: fitn_def)

lemma ref_dh_commutes: "dh_commutes ref_sodium"
proof -
  have "map2 (*) (fitn 32 a) (map2 (*) (fitn 32 b) (replicate 32 3))
      = map2 (*) (fitn 32 b) (map2 (*) (fitn 32 a) (replicate 32 3))" for a b
    by (rule nth_equalityI) (simp_all add: mult.left_commute)
  then show ?thesis
    by (simp add: dh_commutes_def ref_sodium_def ref_scalarmult_def ref_scalarmult_base_def
        fitn_same_length)
qed

lemma ref_locks: "locks ref_sodium"
  by (simp add: locks_def ref_sodium_def)

lemma ref_tags_32: "tags_32 ref_sodium"
  by (simp add: tags_32_def ref_sodium_def ref_hmacsha256_def ref_digest_def)

lemma ref_points_32: "points_32 ref_sodium"
  by (simp add: points_32_def ref_sodium_def ref_scalarmult_base_def)

lemma ref_mult_ones: "crypto_scalarmult ref_sodium (replicate 32 1) (replicate 32 1) = Some (replicate 32 1)"
  by (simp add: ref_sodium_def ref_scalarmult_def fitn_def)

lemma ref_rmult_ones:
  "crypto_scalarmult_ristretto255 ref_sodium (replicate 32 1) (replicate 32 1) = Some (replicate 32 2)"
  by (simp add: ref_sodium_def ref_scalarmult_ristretto255_def fitn_def)

lemma ref_accepts_identity: "crypto_core_ristretto255_is_valid_point ref_sodium (replicate 32 0)"
  by (simp add: ref_sodium_def ref_is_valid_point_def)

lemma ref_refuses_identity: "crypto_scalarmult_ristretto255 ref_sodium n (replicate 32 0) = None"
  by (simp add: ref_sodium_def ref_scalarmult_ristretto255_def fitn_same_length)

lemma ref_rejects_zero_product: "crypto_scalarmult ref_sodium n (replicate 32 0) = None"
proof -
  have "map2 (*) (fitn 32 n) (replicate 32 0) = replicate 32 0"
    by (rule nth_equalityI) simp_all
  then show ?thesis
    by (simp add: ref_sodium_def ref_scalarmult_def fitn_same_length)
qed

lemma ref_products_valid: "products_valid ref_sodium"
  by (auto simp: products_valid_def ref_sodium_def ref_scalarmult_ristretto255_def
      ref_is_valid_point_def Let_def split: if_splits)

lemma ref_oprf_unblinds: "oprf_unblinds ref_sodium"
proof -
  have eq: "map2 (+) (map uminus (fitn 32 r)) (map2 (+) (fitn 32 k) (map2 (+) (fitn 32 r) (fitn 32 h)))
      = map2 (+) (fitn 32 k) (fitn 32 h)" for r k h
    by (rule nth_equalityI) simp_all
  show ?thesis
    by (auto simp: oprf_unblinds_def ref_sodium_def ref_scalarmult_ristretto255_def
        ref_scalar_invert_def Let_def fitn_same_length eq split: if_splits)
qed


section \<open>Values of a run on the reference instance\<close>

lemma ref_pwhash_Some:
  "crypto_pwhash ref_sodium n x s = Some (map2 (+) (fitn n x) (fitn n s))"
  by (simp add: ref_sodium_def ref_pwhash_def)

lemma ref_alpha_reg: "crypto_scalarmult_ristretto255 ref_sodium (replicate 32 2) (hash_to_group ref_sodium [5])
     = Some ([3, 7] @ replicate 30 2)"
  by code_simp

lemma ref_beta_reg: "crypto_scalarmult_ristretto255 ref_sodium (replicate 32 1) ([3, 7] @ replicate 30 2)
     = Some ([4, 8] @ replicate 30 3)"
  by code_simp

lemma ref_invert_reg: "crypto_core_ristretto255_scalar_invert ref_sodium (replicate 32 2) = Some (replicate 32 254)"
  by code_simp

lemma ref_hk: "crypto_scalarmult_ristretto255 ref_sodium (replicate 32 1) (hash_to_group ref_sodium [5])
     = Some ([2, 6] @ replicate 30 1)"
  by code_simp

lemma ref_alpha_login:
  "crypto_scalarmult_ristretto255 ref_sodium (replicate 32 4) (hash_to_group ref_sodium [5])
     = Some ([5, 9] @ replicate 30 4)"
  by code_simp

lemma ref_beta_login:
  "crypto_scalarmult_ristretto255 ref_sodium (replicate 32 1) ([5, 9] @ replicate 30 4)
     = Some ([6, 10] @ replicate 30 5)"
  by code_simp

lemma ref_invert_login:
  "crypto_core_ristretto255_scalar_invert ref_sodium (replicate 32 4) = Some (replicate 32 252)"
  by code_simp

lemma ref_base: "crypto_scalarmult_base ref_sodium = ref_scalarmult_base"
  by (simp add: ref_sodium_def)

lemma ref_server_products:
  "crypto_scalarmult ref_sodium (replicate 32 1) (ref_scalarmult_base (replicate 32 9))
      = Some (replicate 32 27)"
  "crypto_scalarmult ref_sodium (replicate 32 5) (ref_scalarmult_base (replicate 32 7))
      = Some (replicate 32 105)"
  "crypto_scalarmult ref_sodium (replicate 32 5) (ref_scalarmult_base (replicate 32 9))
      = Some (replicate 32 135)"
  by (simp_all add: ref_sodium_def ref_scalarmult_def ref_scalarmult_base_def fitn_def)

lemma ref_unblind_reg:
  "crypto_scalarmult_ristretto255 ref_sodium (replicate 32 254) ([4, 8] @ replicate 30 3)
     = Some ([2, 6] @ replicate 30 1)"
  by code_simp

lemma ref_valid_beta_reg:
  "crypto_core_ristretto255_is_valid_point ref_sodium ([4, 8] @ replicate 30 3)"
  by code_simp





lemma ref_stale_tag:
  "take 7 (drop 160 (sealed ref_sodium
        (map2 (+) (fitn 32 (crypto_generichash ref_sodium 32 ([5] @ take 32 ([2, 6] @ replicate 30 1)) []))
                  (fitn 32 (replicate 32 0)))
        (replicate 32 7)
        (replicate 32 7 @ crypto_scalarmult_base ref_sodium (replicate 32 7)
           @ crypto_scalarmult_base ref_sodium (replicate 32 1))
        [0x43, 0x6c, 0x72, 0x45, 0x6e, 0x76, 0]))
   \<noteq> replicate 7 0"
  by code_simp




section \<open>Words and loops\<close>

lemma unat_add_nowrap:
  "unat (a::64 word) + unat b < 2 ^ 64 \<Longrightarrow> unat (a + b) = unat a + unat b"
  using unat_add_lem [of a b] by simp

lemma length_xor_loop [simp]: "length (xor_loop a k n) = n"
  by (simp add: xor_loop_def)

lemma xor_loop_nth: "i < n \<Longrightarrow> xor_loop a k n ! i = a ! i XOR k ! i"
  by (simp add: xor_loop_def)

lemma xor_loop_twice:
  assumes "n \<le> length s"
  shows "xor_loop (xor_loop s k n @ rest) k n = take n s"
proof (rule nth_equalityI)
  show "length (xor_loop (xor_loop s k n @ rest) k n) = length (take n s)"
    using assms by simp
next
  fix i assume "i < length (xor_loop (xor_loop s k n @ rest) k n)"
  then have i: "i < n" by simp
  then have "xor_loop (xor_loop s k n @ rest) k n ! i = (s ! i XOR k ! i) XOR k ! i"
    by (simp add: xor_loop_nth nth_append)
  also have "\<dots> = s ! i" by (simp add: xor.assoc)
  finally show "xor_loop (xor_loop s k n @ rest) k n ! i = take n s ! i"
    using i by simp
qed

section \<open>The transcript\<close>

lemma get_xcript_eq:
  "get_xcript S st oprf1 nonceU epubu oprf2 envu envu_len nonceS epubs infos
     = (crypto_hash_sha256 S (xcript_input oprf1 nonceU epubu oprf2 envu envu_len nonceS epubs infos),
        if st \<noteq> None \<and> (case infos of None \<Rightarrow> True
                          | Some i \<Rightarrow> \<not> (einfo3 i \<noteq> None \<or> info3 i \<noteq> None))
        then Some (xcript_input oprf1 nonceU epubu oprf2 envu envu_len nonceS epubs infos)
        else st)"
  by (simp add: get_xcript_def xcript_input_def app_info_def Let_def crypto_hash_sha256_init_def
      crypto_hash_sha256_update_def crypto_hash_sha256_final_def split: option.splits)

lemma xcript_input_info3:
  "xcript_input oprf1 nonceU epubu oprf2 envu envu_len nonceS epubs infos
     = xcript_input oprf1 nonceU epubu oprf2 envu envu_len nonceS epubs (without_info3 infos)
       @ app_info infos info3 info3_len @ app_info infos einfo3 einfo3_len"
  by (simp add: xcript_input_def app_info_def without_info3_def split: option.splits)

lemma session_srv_result:
  assumes "crypto_core_ristretto255_is_valid_point S (pub_alpha pub)"
    and "sodium_mlock S ''x_s''"
    and "crypto_scalarmult_ristretto255 S (rec_k_s rec) (pub_alpha pub) = Some beta"
    and "opaque_server_3dh S (rec_p_s rec) x_s (rec_P_u rec) (pub_X_u pub)
           (calc_info S (pub_nonceU pub) nonceS ids) = Some keys"
  shows "opaque_session_srv S x_s nonceS pub rec ids infos resp0 st
     = Inr (resp0 \<lparr> resp_beta := beta, resp_X_s := crypto_scalarmult_base S x_s,
                    resp_nonceS := nonceS,
                    resp_c := memcpy (resp_c resp0) 0 (rec_c rec) (unat (160 + rec_extra_len rec)),
                    resp_extra_len := rec_extra_len rec,
                    resp_auth := crypto_auth_hmacsha256 S
                      (crypto_hash_sha256 S
                        (xcript_input (pub_alpha pub) (pub_nonceU pub) (pub_X_u pub) beta
                           (memcpy (resp_c resp0) 0 (rec_c rec) (unat (160 + rec_extra_len rec)))
                           (unat (rec_extra_len rec + 160)) nonceS (crypto_scalarmult_base S x_s) infos))
                      (keys_km2 keys) \<rparr>,
            keys_sk keys, keys_km3 keys,
            snd (get_xcript S st (pub_alpha pub) (pub_nonceU pub) (pub_X_u pub) beta
                   (memcpy (resp_c resp0) 0 (rec_c rec) (unat (160 + rec_extra_len rec)))
                   (unat (rec_extra_len rec + 160)) nonceS (crypto_scalarmult_base S x_s) infos))"
  using assms
  by (simp add: opaque_session_srv_def Let_def get_xcript_eq)

section \<open>Sealing and opening, step by step\<close>

lemma xor_loop_take: "xor_loop (take n a) k n = xor_loop a k n"
  by (simp add: xor_loop_def)

lemma length_sealed:
  "tags_32 S \<Longrightarrow> length (sealed S rw nonce sec clr) = length nonce + length sec + length clr + 32"
  by (simp add: sealed_def Let_def tags_32_def)

lemma unat_sizes:
  assumes "unat (e :: 64 word) + 64 + unat (a :: 64 word) + unat (b :: 64 word) < 2 ^ 64"
  shows "unat (e + 32) = unat e + 32" "unat (e + 32 + a) = unat e + 32 + unat a"
    "unat (32 + a + b) = 32 + unat a + unat b" "\<not> (2::nat) ^ 64 \<le> 64 + unat a"
    "unat (32 + a) = 32 + unat a"
proof -
  show 1: "unat (e + 32) = unat e + 32" using assms unat_add_nowrap [of e 32] by simp
  show "unat (e + 32 + a) = unat e + 32 + unat a"
    using assms 1 unat_add_nowrap [of "e + 32" a] by simp
  show 2: "unat (32 + a) = 32 + unat a" using assms unat_add_nowrap [of 32 a] by simp
  then show "unat (32 + a + b) = 32 + unat a + unat b"
    using assms unat_add_nowrap [of "32 + a" b] by simp
  show "\<not> (2::nat) ^ 64 \<le> 64 + unat a" using assms by simp
qed

lemma envelope_result:
  assumes nonce: "length nonce = 32"
    and sec: "SecEnv_len \<noteq> 0" "unat SecEnv_len \<le> length s"
    and clr: "ClrEnv = (if ClrEnv_len = 0 then None else Some cl)" "unat ClrEnv_len \<le> length cl"
    and seal_at: "envelope \<noteq> 0" "unat envelope + 64 + unat SecEnv_len + unat ClrEnv_len < 2 ^ 64"
  shows "opaque_envelope S nonce (Some rw) (Some s) SecEnv_len ClrEnv ClrEnv_len envelope export_key
      = Inr (sealed S rw nonce (take (unat SecEnv_len) s) (take (unat ClrEnv_len) cl),
             map_option (\<lambda>_. export_key_of S rw nonce (unat SecEnv_len)) export_key)"
proof -
  define n where "n = unat SecEnv_len"
  define m where "m = unat ClrEnv_len"
  have m0: "ClrEnv_len = 0 \<Longrightarrow> m = 0" by (simp add: m_def)
  have len: "length (take n s) = n" "length (take m cl) = m"
    using sec(2) clr(2) by (simp_all add: n_def m_def)
  show ?thesis
    using seal_at sec(1) nonce len m0
    by (cases export_key)
      (simp_all add: opaque_envelope_def clr(1) Let_def unat_sizes [OF seal_at(2)]
        n_def [symmetric] m_def [symmetric] sealed_def envelope_keys_def export_key_of_def
        xor_loop_take)
qed

lemma envelope_open_sealed:
  assumes tags: "tags_32 S"
    and nonce: "length nonce = 32"
    and sec: "SecEnv_len \<noteq> 0" "length sec = unat SecEnv_len"
    and clr: "length clr = unat ClrEnv_len"
    and clr_out: "ClrEnv_out = (if ClrEnv_len = 0 then None else Some cbuf)"
    and open_at: "envelope \<noteq> 0" "unat envelope + 64 + unat SecEnv_len + unat ClrEnv_len < 2 ^ 64"
  shows "opaque_envelope_open S (Some rw) envelope (sealed S rw nonce sec clr @ rest) (Some sbuf)
          SecEnv_len ClrEnv_out ClrEnv_len export_key
      = Inr (Some (sec @ drop (unat SecEnv_len) sbuf),
             (if ClrEnv_len = 0 then None else Some (clr @ drop (unat ClrEnv_len) cbuf)),
             map_option (\<lambda>_. export_key_of S rw nonce (unat SecEnv_len)) export_key)"
proof -
  define n where "n = unat SecEnv_len"
  define m where "m = unat ClrEnv_len"
  define keys where "keys = envelope_keys S rw nonce n"
  define C where "C = xor_loop sec keys n"
  define T where "T = crypto_auth_hmacsha256 S (nonce @ C @ clr) (take 32 (drop n keys))"
  define env where "env = sealed S rw nonce sec clr @ rest"
  have env: "env = (nonce @ C @ clr @ T) @ rest"
    using sec(2) by (simp add: env_def sealed_def Let_def C_def T_def keys_def n_def)
  have lenT: "length T = 32" using tags by (simp add: T_def tags_32_def)
  have lens: "length sec = n" "length clr = m" using sec(2) clr by (simp_all add: n_def m_def)
  have e1: "take 32 env = nonce" using nonce by (simp add: env)
  have e2: "take (32 + n + m) env = nonce @ C @ clr"
    using nonce lens by (simp add: C_def env)
  have e3: "take 32 (drop (32 + n + m) env) = T"
    using nonce lens lenT by (simp add: C_def env)
  have e4: "drop 32 env = C @ clr @ T @ rest" using nonce by (simp add: env)
  have e5: "xor_loop (drop 32 env) keys n = sec"
    unfolding e4 C_def using lens xor_loop_twice [of n sec keys "clr @ T @ rest"] by simp
  have e6: "take m (drop (n + 32) env) = clr"
    using lens nonce by (simp add: C_def env)
  have k: "crypto_kdf_hkdf_sha256_expand S (64 + n) (nonce @ EnvU) rw = keys"
    using nonce by (simp add: keys_def envelope_keys_def)
  have "opaque_envelope_open S (Some rw) envelope env (Some sbuf) SecEnv_len ClrEnv_out ClrEnv_len
          export_key
      = Inr (Some (sec @ drop n sbuf),
             (if ClrEnv_len = 0 then None else Some (clr @ drop m cbuf)),
             map_option (\<lambda>_. take 32 (drop (n + 32) keys)) export_key)"
    using open_at sec(1)
    by (cases export_key)
      (simp_all add: opaque_envelope_open_def clr_out Let_def unat_sizes [OF open_at(2)]
        n_def [symmetric] m_def [symmetric] e1 e2 e3 e5 e6 k
        crypto_auth_hmacsha256_verify_def T_def [symmetric] memcpy_def)
  then show ?thesis
    by (simp add: env_def n_def m_def export_key_of_def keys_def)
qed

lemma envelope_open_export_key:
  assumes "opaque_envelope_open S rwd envelope env SecEnv SecEnv_len ClrEnv ClrEnv_len export_key
             = Inr (SecEnv', ClrEnv', ek)"
  shows "ek = (case export_key of None \<Rightarrow> None
               | Some _ \<Rightarrow> Some (take 32 (drop (unat SecEnv_len + 32)
                   (crypto_kdf_hkdf_sha256_expand S (2 * 32 + unat SecEnv_len) (take 32 env @ EnvU)
                      (case rwd of None \<Rightarrow> [] | Some k \<Rightarrow> k)))))"
  using assms
  by (cases export_key; cases rwd) (auto simp: opaque_envelope_open_def Let_def split: if_splits)

lemma envelope_open_errors:
  "opaque_envelope_open S rwd envelope env SecEnv SecEnv_len ClrEnv ClrEnv_len export_key = Inl e
   \<Longrightarrow> e = LengthError \<or> e = EnvelopeAuthFailed"
  by (auto simp: opaque_envelope_open_def Let_def split: if_splits)

lemma envelope_open_bad_tag:
  assumes sec: "SecEnv_len \<noteq> 0"
    and clr_out: "ClrEnv_out = (if ClrEnv_len = 0 then None else Some cbuf)"
    and open_at: "envelope \<noteq> 0" "unat envelope + 64 + unat SecEnv_len + unat ClrEnv_len < 2 ^ 64"
    and tag: "take 32 (drop (32 + unat SecEnv_len + unat ClrEnv_len) env)
        \<noteq> crypto_auth_hmacsha256 S (take (32 + unat SecEnv_len + unat ClrEnv_len) env)
            (take 32 (drop (unat SecEnv_len)
               (crypto_kdf_hkdf_sha256_expand S (64 + unat SecEnv_len) (take 32 env @ EnvU) rw)))"
  shows "opaque_envelope_open S (Some rw) envelope env (Some sbuf) SecEnv_len ClrEnv_out ClrEnv_len
          export_key = Inl EnvelopeAuthFailed"
  using open_at sec tag
  by (simp add: opaque_envelope_open_def clr_out Let_def unat_sizes [OF open_at(2)]
      crypto_auth_hmacsha256_verify_def)

lemma sealed_split:
  assumes "length nonce = 32" "length sec = k"
  shows "sealed S rw nonce sec clr
     = take (32 + k + length clr) (sealed S rw nonce sec clr)
       @ envelope_tag S rw nonce (take (32 + k + length clr) (sealed S rw nonce sec clr)) k"
  using assms by (simp add: sealed_def Let_def envelope_tag_def)

lemma length_envelope_tag: "tags_32 S \<Longrightarrow> length (envelope_tag S rw nonce body n) = 32"
  by (simp add: envelope_tag_def tags_32_def)

lemma truncated_envelope_slices:
  assumes lenb: "length body = 128 + n + m" and lent: "length T = 32" and m: "m \<le> 32"
    and env: "env = take (160 + n) ((body @ T) @ rest) @ tail"
  shows "take (128 + n + m) env = body"
    and "take 32 (drop (128 + n + m) env) = take (32 - m) T @ take m tail"
proof -
  have t: "take (160 + n) ((body @ T) @ rest) = body @ take (32 - m) T"
    using lenb lent m by simp
  show "take (128 + n + m) env = body"
    unfolding env t using lenb by simp
  show "take 32 (drop (128 + n + m) env) = take (32 - m) T @ take m tail"
    unfolding env t using lenb lent m by simp
qed

section \<open>The results of the protocol steps\<close>

lemma unat_record_sizes:
  assumes "unat (p :: 64 word) + 296 + unat (e :: 64 word) + unat (l :: 64 word) < 2 ^ 64"
  shows "unat (p + 136) = unat p + 136" "unat (96 + e) = 96 + unat e" "p + 136 \<noteq> 0" "96 + e \<noteq> 0"
    "unat (p + 136) + 64 + unat (96 + e) + unat l < 2 ^ 64"
    "unat (160 + e) = 160 + unat e" "unat (e + 160) = 160 + unat e"
proof -
  show 1: "unat (p + 136) = unat p + 136" using assms unat_add_nowrap [of p 136] by simp
  show 2: "unat (96 + e) = 96 + unat e" using assms unat_add_nowrap [of 96 e] by simp
  show "p + 136 \<noteq> 0" using 1 by (metis add_is_0 unat_0 zero_neq_numeral)
  show "96 + e \<noteq> 0" using 2 by (metis add_is_0 unat_0 zero_neq_numeral)
  show "unat (p + 136) + 64 + unat (96 + e) + unat l < 2 ^ 64" using assms 1 2 by simp
  show 3: "unat (160 + e) = 160 + unat e" using assms unat_add_nowrap [of 160 e] by simp
  show "unat (e + 160) = 160 + unat e" using 3 by (simp add: add.commute)
qed

lemma init_srv_result:
  assumes locks: "locks S" and pts: "points_32 S" and tags: "tags_32 S"
    and oprf: "sphinx_oprf S pw k_s key = Some rw0"
    and kdf: "crypto_pwhash S 32 rw0 (replicate 32 0) = Some rw"
    and draws: "length p_u = 32" "length nonce = 32"
    and extra: "unat extra_len \<le> length extra"
    and clr: "ClrEnv = (if ClrEnv_len = 0 then None else Some cl)" "unat ClrEnv_len \<le> length cl"
    and place: "unat rec_ptr + 296 + unat extra_len + unat ClrEnv_len < 2 ^ 64"
    and room: "160 + unat extra_len + unat ClrEnv_len \<le> length (rec_c rec0)"
  shows "opaque_init_srv S k_s p_s p_u nonce pw extra extra_len key ClrEnv ClrEnv_len rec_ptr rec0
           export_key
     = Inr (rec0 \<lparr> rec_k_s := k_s, rec_p_s := p_s,
                   rec_P_u := crypto_scalarmult_base S p_u,
                   rec_P_s := crypto_scalarmult_base S p_s,
                   rec_extra_len := extra_len,
                   rec_c := sealed S rw nonce
                              (p_u @ crypto_scalarmult_base S p_u @ crypto_scalarmult_base S p_s
                                 @ take (unat extra_len) extra)
                              (take (unat ClrEnv_len) cl)
                            @ drop (160 + unat extra_len + unat ClrEnv_len) (rec_c rec0) \<rparr>,
            map_option (\<lambda>_. export_key_of S rw nonce (96 + unat extra_len)) export_key)"
proof -
  define n where "n = unat extra_len"
  define m where "m = unat ClrEnv_len"
  define c0 where "c0 = rec_c rec0"
  define P_u where "P_u = crypto_scalarmult_base S p_u"
  define P_s where "P_s = crypto_scalarmult_base S p_s"
  define sec where "sec = p_u @ P_u @ P_s @ take n extra"
  define c3 where "c3 = take 32 c0 @ sec @ drop (128 + n) c0"
  define env where "env = sealed S rw nonce sec (take m cl)"
  note sz = unat_record_sizes [OF place]
  have lenP: "length P_u = 32" "length P_s = 32"
    using pts by (simp_all add: points_32_def P_u_def P_s_def)
  have lensec: "length sec = 96 + n"
    using draws(1) lenP extra by (simp add: sec_def n_def)
  have lenc0: "160 + n + m \<le> length c0" using room by (simp add: c0_def n_def m_def)
  have lenenv: "length env = 160 + n + m"
    using length_sealed [OF tags, of rw nonce sec "take m cl"] draws(2) lensec clr(2)
    by (simp add: env_def m_def)
  define c2 where "c2 = take 32 c0 @ p_u @ P_u @ P_s @ drop 128 c0"
  have rd: "take 32 (drop 32 (memcpy c0 32 p_u 32)) = p_u"
    using draws(1) lenc0 by (simp add: memcpy_def)
  have c2: "memcpy (memcpy c0 32 p_u 32) 64 (P_u @ P_s) 64 = c2"
    using draws(1) lenP lenc0 by (simp add: memcpy_def c2_def)
  have c3a: "memcpy c2 128 extra n = c3"
    using draws(1) lenP lenc0 by (simp add: memcpy_def c3_def c2_def sec_def add.commute)
  have c3b: "n = 0 \<Longrightarrow> c2 = c3"
    by (simp add: c3_def c2_def sec_def)
  have secenv: "take (96 + n) (drop 32 c3) = sec"
    using lensec lenc0 by (simp add: c3_def)
  have lens: "96 + n \<le> length (drop 32 c3)" using lensec lenc0 by (simp add: c3_def)
  have seal: "opaque_envelope S nonce (Some rw) (Some (drop 32 c3)) (96 + extra_len) ClrEnv ClrEnv_len
        (rec_ptr + 136) export_key
      = Inr (env, map_option (\<lambda>_. export_key_of S rw nonce (96 + n)) export_key)"
    using envelope_result [OF draws(2) sz(4) _ clr sz(3) sz(5), of "drop 32 c3" S rw export_key]
      lens secenv
    by (simp add: sz(2) n_def [symmetric] m_def [symmetric] env_def)
  have c4: "memcpy c3 0 env (length env) = env @ drop (160 + n + m) c0"
    using lenenv lensec lenc0 by (simp add: memcpy_def c3_def ac_simps)
  have lk: "sodium_mlock S b" for b using locks by (simp add: locks_def)
  have run: "opaque_init_srv S k_s p_s p_u nonce pw extra extra_len key ClrEnv ClrEnv_len rec_ptr rec0
           export_key
     = Inr (rec0 \<lparr> rec_k_s := k_s, rec_p_s := p_s, rec_P_u := P_u, rec_P_s := P_s,
                   rec_extra_len := extra_len, rec_c := env @ drop (160 + n + m) c0 \<rparr>,
            map_option (\<lambda>_. export_key_of S rw nonce (96 + n)) export_key)"
  proof (cases "extra_len = 0")
    case True
    then have "n = 0" by (simp add: n_def)
    then have "c2 = c3" by (rule c3b)
    with True show ?thesis
      using seal
      by (simp add: opaque_init_srv_def lk oprf kdf Let_def c0_def [symmetric] rd
          P_u_def [symmetric] P_s_def [symmetric] c2 c4)
  next
    case False
    then show ?thesis
      by (simp add: opaque_init_srv_def lk oprf kdf Let_def c0_def [symmetric] rd
          P_u_def [symmetric] P_s_def [symmetric] c2 n_def [symmetric] c3a seal c4)
  qed
  then show ?thesis
    by (simp add: env_def sec_def n_def m_def P_u_def P_s_def c0_def)
qed


lemma private_init_usr_respond_result:
  assumes locks: "locks S" and pts: "points_32 S" and tags: "tags_32 S"
    and valid: "crypto_core_ristretto255_is_valid_point S (rpub_beta pub)"
    and inv: "crypto_core_ristretto255_scalar_invert S r = Some ir"
    and unb: "crypto_scalarmult_ristretto255 S ir (rpub_beta pub) = Some h0"
    and kdf: "crypto_pwhash S 32
                (crypto_generichash S 32 (pw @ take 32 h0) (case key of None \<Rightarrow> [] | Some b \<Rightarrow> b))
                (replicate 32 0) = Some rw"
    and draws: "length p_u = 32" "length nonce = 32"
    and P_s: "length (rpub_P_s pub) = 32"
    and extra: "unat extra_len \<le> length extra"
    and clr: "ClrEnv = (if ClrEnv_len = 0 then None else Some cl)" "unat ClrEnv_len \<le> length cl"
    and place: "unat rec_ptr + 296 + unat extra_len + unat ClrEnv_len < 2 ^ 64"
    and room: "160 + unat extra_len + unat ClrEnv_len \<le> length (rec_c rec0)"
  shows "opaque_private_init_usr_respond S p_u nonce pw r pub extra extra_len key ClrEnv ClrEnv_len
           rec_ptr rec0 rwd export_key
     = Inr (rec0 \<lparr> rec_P_u := crypto_scalarmult_base S p_u,
                   rec_extra_len := extra_len,
                   rec_c := sealed S rw nonce
                              (p_u @ crypto_scalarmult_base S p_u @ rpub_P_s pub
                                 @ take (unat extra_len) extra)
                              (take (unat ClrEnv_len) cl)
                            @ drop (160 + unat extra_len + unat ClrEnv_len) (rec_c rec0) \<rparr>,
            map_option (\<lambda>_. crypto_generichash S 32 rw rwd_key) rwd,
            map_option (\<lambda>_. export_key_of S rw nonce (96 + unat extra_len)) export_key)"
proof -
  define n where "n = unat extra_len"
  define m where "m = unat ClrEnv_len"
  define c0 where "c0 = rec_c rec0"
  define P_u where "P_u = crypto_scalarmult_base S p_u"
  define sec where "sec = p_u @ P_u @ rpub_P_s pub @ take n extra"
  define c2 where "c2 = take 32 c0 @ p_u @ P_u @ drop 96 c0"
  define c3 where "c3 = take 32 c0 @ sec @ drop (128 + n) c0"
  define env where "env = sealed S rw nonce sec (take m cl)"
  note sz = unat_record_sizes [OF place]
  have lenP: "length P_u = 32" using pts by (simp add: points_32_def P_u_def)
  have lensec: "length sec = 96 + n"
    using draws(1) lenP P_s extra by (simp add: sec_def n_def)
  have lenc0: "160 + n + m \<le> length c0" using room by (simp add: c0_def n_def m_def)
  have lenenv: "length env = 160 + n + m"
    using length_sealed [OF tags, of rw nonce sec "take m cl"] draws(2) lensec clr(2)
    by (simp add: env_def m_def)
  have rd: "take 32 (drop 32 (memcpy c0 32 p_u 32)) = p_u"
    using draws(1) lenc0 by (simp add: memcpy_def)
  have c2: "memcpy (memcpy c0 32 p_u 32) 64 P_u 32 = c2"
    using draws(1) lenP lenc0 by (simp add: memcpy_def c2_def)
  have rdP: "take 32 (drop 64 c2) = P_u"
    using draws(1) lenP lenc0 by (simp add: c2_def)
  have c3: "memcpy (memcpy c2 96 (rpub_P_s pub) 32) 128 extra n = c3"
    using draws(1) lenP P_s lenc0 by (simp add: memcpy_def c3_def c2_def sec_def add.commute)
  have c3': "memcpy c3 128 extra n = c3"
    using draws(1) lenP P_s lenc0 extra
    by (simp add: memcpy_def c3_def sec_def n_def [symmetric] add.commute)
  have secenv: "take (96 + n) (drop 32 c3) = sec"
    using lensec lenc0 by (simp add: c3_def)
  have lens: "96 + n \<le> length (drop 32 c3)" using lensec lenc0 by (simp add: c3_def)
  have seal: "opaque_envelope S nonce (Some rw) (Some (drop 32 c3)) (96 + extra_len) ClrEnv ClrEnv_len
        (rec_ptr + 136) export_key
      = Inr (env, map_option (\<lambda>_. export_key_of S rw nonce (96 + n)) export_key)"
    using envelope_result [OF draws(2) sz(4) _ clr sz(3) sz(5), of "drop 32 c3" S rw export_key]
      lens secenv
    by (simp add: sz(2) n_def [symmetric] m_def [symmetric] env_def)
  have c4: "memcpy c3 0 env (length env) = env @ drop (160 + n + m) c0"
    using lenenv lensec lenc0 by (simp add: memcpy_def c3_def ac_simps)
  have lk: "sodium_mlock S b" for b using locks by (simp add: locks_def)
  have run: "opaque_private_init_usr_respond S p_u nonce pw r pub extra extra_len key ClrEnv ClrEnv_len
           rec_ptr rec0 rwd export_key
     = Inr (rec0 \<lparr> rec_P_u := P_u, rec_extra_len := extra_len,
                   rec_c := env @ drop (160 + n + m) c0 \<rparr>,
            map_option (\<lambda>_. crypto_generichash S 32 rw rwd_key) rwd,
            map_option (\<lambda>_. export_key_of S rw nonce (96 + n)) export_key)"
  proof (cases "extra_len = 0")
    case True
    then have "n = 0" by (simp add: n_def)
    then have "memcpy (memcpy c2 96 (rpub_P_s pub) 32) 128 extra 0 = c3" using c3 by simp
    with True show ?thesis
      using seal
      by (cases rwd)
        (simp_all add: opaque_private_init_usr_respond_def lk valid inv unb kdf Let_def
          c0_def [symmetric] rd P_u_def [symmetric] c2 rdP c4)
  next
    case False
    then show ?thesis
      by (cases rwd)
        (simp_all add: opaque_private_init_usr_respond_def lk valid inv unb kdf Let_def
          c0_def [symmetric] rd P_u_def [symmetric] c2 rdP n_def [symmetric] c3 c3' seal c4)
  qed
  then show ?thesis
    by (simp add: env_def sec_def n_def m_def P_u_def c0_def)
qed

lemma usr_finish_result:
  assumes locks: "locks S"
    and valid: "crypto_core_ristretto255_is_valid_point S (resp_beta resp)"
    and inv: "crypto_core_ristretto255_scalar_invert S (sec_r sec) = Some ir"
    and unb: "crypto_scalarmult_ristretto255 S ir (resp_beta resp) = Some h0"
    and kdf: "crypto_pwhash S 32
                (crypto_generichash S 32 (pw @ take 32 h0) (case key of None \<Rightarrow> [] | Some b \<Rightarrow> b))
                (replicate 32 0) = Some rw"
    and bound: "\<not> OPAQUE_MAX_EXTRA_BYTES < resp_extra_len resp"
    and opn: "opaque_envelope_open S (Some rw) (resp_ptr + 136) (resp_c resp)
                (Some (replicate (128 + unat (resp_extra_len resp)) 0))
                (96 + resp_extra_len resp) (out_ClrEnv out) ClrEnv_len (out_export_key out)
              = Inr (Some SecEnv, ClrEnv', ek')"
    and dh: "opaque_user_3dh S (take 32 SecEnv) (sec_x_u sec) (take 32 (drop 64 SecEnv))
               (resp_X_s resp) (calc_info S (sec_nonceU sec) (resp_nonceS resp) ids) = Some keys"
    and auth: "resp_auth resp = crypto_auth_hmacsha256 S
                 (crypto_hash_sha256 S
                    (xcript_input (sec_alpha sec) (sec_nonceU sec)
                       (crypto_scalarmult_base S (sec_x_u sec)) (resp_beta resp) (resp_c resp)
                       (unat (resp_extra_len resp + 160)) (resp_nonceS resp) (resp_X_s resp)
                       (without_info3 infos)))
                 (keys_km2 keys)"
  shows "opaque_session_usr_finish S pw resp_ptr resp sec key ids infos out ClrEnv_len
     = (Inr (),
        out \<lparr> out_ClrEnv := ClrEnv', out_export_key := ek',
              out_rwd := map_option (\<lambda>_. crypto_generichash S 32 rw rwd_key) (out_rwd out),
              out_sk := keys_sk keys,
              out_auth := map_option
                (\<lambda>_. crypto_auth_hmacsha256 S
                   (crypto_hash_sha256 S
                      (xcript_input (sec_alpha sec) (sec_nonceU sec)
                         (crypto_scalarmult_base S (sec_x_u sec)) (resp_beta resp) (resp_c resp)
                         (unat (resp_extra_len resp + 160)) (resp_nonceS resp) (resp_X_s resp) infos))
                   (keys_km3 keys)) (out_auth out),
              out_extra := (if resp_extra_len resp \<noteq> 0
                            then memcpy (out_extra out) 0 (drop 96 SecEnv) (unat (resp_extra_len resp))
                            else out_extra out) \<rparr>)"
proof -
  have lk: "sodium_mlock S b" for b using locks by (simp add: locks_def)
  have w: "(case infos of None \<Rightarrow> None | Some i \<Rightarrow> Some (i \<lparr> einfo3 := None, info3 := None \<rparr>))
      = without_info3 infos"
    by (simp add: without_info3_def)
  show ?thesis
    using bound opn dh auth
    by (cases "out_rwd out"; cases "out_auth out"; cases "resp_extra_len resp = 0")
      (simp_all add: opaque_session_usr_finish_def lk valid inv unb kdf Let_def w
        get_xcript_eq crypto_auth_hmacsha256_verify_def)
qed


lemma usr_finish_auth_mismatch:
  assumes locks: "locks S"
    and valid: "crypto_core_ristretto255_is_valid_point S (resp_beta resp)"
    and inv: "crypto_core_ristretto255_scalar_invert S (sec_r sec) = Some ir"
    and unb: "crypto_scalarmult_ristretto255 S ir (resp_beta resp) = Some h0"
    and kdf: "crypto_pwhash S 32
                (crypto_generichash S 32 (pw @ take 32 h0) (case key of None \<Rightarrow> [] | Some b \<Rightarrow> b))
                (replicate 32 0) = Some rw"
    and bound: "\<not> OPAQUE_MAX_EXTRA_BYTES < resp_extra_len resp"
    and opn: "opaque_envelope_open S (Some rw) (resp_ptr + 136) (resp_c resp)
                (Some (replicate (128 + unat (resp_extra_len resp)) 0))
                (96 + resp_extra_len resp) (out_ClrEnv out) ClrEnv_len (out_export_key out)
              = Inr (Some SecEnv, ClrEnv', ek')"
    and dh: "opaque_user_3dh S (take 32 SecEnv) (sec_x_u sec) (take 32 (drop 64 SecEnv))
               (resp_X_s resp) (calc_info S (sec_nonceU sec) (resp_nonceS resp) ids) = Some keys"
    and auth: "resp_auth resp \<noteq> crypto_auth_hmacsha256 S
                 (crypto_hash_sha256 S
                    (xcript_input (sec_alpha sec) (sec_nonceU sec)
                       (crypto_scalarmult_base S (sec_x_u sec)) (resp_beta resp) (resp_c resp)
                       (unat (resp_extra_len resp + 160)) (resp_nonceS resp) (resp_X_s resp)
                       (without_info3 infos)))
                 (keys_km2 keys)"
  shows "opaque_session_usr_finish S pw resp_ptr resp sec key ids infos out ClrEnv_len
     = (Inl ServerAuthFailed,
        out \<lparr> out_ClrEnv := ClrEnv', out_export_key := ek',
              out_rwd := map_option (\<lambda>_. replicate 32 0) (out_rwd out) \<rparr>)"
proof -
  have lk: "sodium_mlock S b" for b using locks by (simp add: locks_def)
  have w: "(case infos of None \<Rightarrow> None | Some i \<Rightarrow> Some (i \<lparr> einfo3 := None, info3 := None \<rparr>))
      = without_info3 infos"
    by (simp add: without_info3_def)
  show ?thesis
    using bound opn dh auth
    by (cases "out_rwd out")
      (simp_all add: opaque_session_usr_finish_def lk valid inv unb kdf Let_def w
        get_xcript_eq crypto_auth_hmacsha256_verify_def)
qed

lemma usr_finish_envelope_failure:
  assumes locks: "locks S"
    and valid: "crypto_core_ristretto255_is_valid_point S (resp_beta resp)"
    and inv: "crypto_core_ristretto255_scalar_invert S (sec_r sec) = Some ir"
    and unb: "crypto_scalarmult_ristretto255 S ir (resp_beta resp) = Some h0"
    and kdf: "crypto_pwhash S 32
                (crypto_generichash S 32 (pw @ take 32 h0) (case key of None \<Rightarrow> [] | Some b \<Rightarrow> b))
                (replicate 32 0) = Some rw"
    and bound: "\<not> OPAQUE_MAX_EXTRA_BYTES < resp_extra_len resp"
    and opn: "opaque_envelope_open S (Some rw) (resp_ptr + 136) (resp_c resp)
                (Some (replicate (128 + unat (resp_extra_len resp)) 0))
                (96 + resp_extra_len resp) (out_ClrEnv out) ClrEnv_len (out_export_key out)
              = Inl e"
  shows "opaque_session_usr_finish S pw resp_ptr resp sec key ids infos out ClrEnv_len = (Inl e, out)"
proof -
  have lk: "sodium_mlock S b" for b using locks by (simp add: locks_def)
  show ?thesis
    using bound opn
    by (simp add: opaque_session_usr_finish_def lk valid inv unb kdf Let_def)
qed

lemma usr_finish_rejects_oversized_extra:
  "OPAQUE_MAX_EXTRA_BYTES < resp_extra_len resp \<Longrightarrow>
   isl (fst (opaque_session_usr_finish S pw resp_ptr resp sec key ids infos out ClrEnv_len))"
  by (simp add: opaque_session_usr_finish_def Let_def split: option.splits)

lemma server_3dh_SomeD:
  assumes "opaque_server_3dh S ix ex Ip Ep info = Some keys"
  shows "\<exists>a b c. crypto_scalarmult S ix Ep = Some a \<and> crypto_scalarmult S ex Ip = Some b
           \<and> crypto_scalarmult S ex Ep = Some c \<and> keys = derive_keys S (a @ b @ c) info"
  using assms by (auto simp: opaque_server_3dh_def split: option.splits)

lemma session_srv_InrD:
  assumes "opaque_session_srv S x_s nonceS pub rec ids infos resp0 st = Inr (resp, sk, km3, st')"
  shows "\<exists>beta keys.
      crypto_core_ristretto255_is_valid_point S (pub_alpha pub)
      \<and> crypto_scalarmult_ristretto255 S (rec_k_s rec) (pub_alpha pub) = Some beta
      \<and> opaque_server_3dh S (rec_p_s rec) x_s (rec_P_u rec) (pub_X_u pub)
           (calc_info S (pub_nonceU pub) nonceS ids) = Some keys
      \<and> resp_beta resp = beta
      \<and> resp_X_s resp = crypto_scalarmult_base S x_s
      \<and> resp_nonceS resp = nonceS
      \<and> resp_extra_len resp = rec_extra_len rec
      \<and> resp_c resp = memcpy (resp_c resp0) 0 (rec_c rec) (unat (160 + rec_extra_len rec))
      \<and> resp_auth resp = crypto_auth_hmacsha256 S
           (crypto_hash_sha256 S
              (xcript_input (pub_alpha pub) (pub_nonceU pub) (pub_X_u pub) beta
                 (memcpy (resp_c resp0) 0 (rec_c rec) (unat (160 + rec_extra_len rec)))
                 (unat (rec_extra_len rec + 160)) nonceS (crypto_scalarmult_base S x_s) infos))
           (keys_km2 keys)
      \<and> sk = keys_sk keys \<and> km3 = keys_km3 keys"
  using assms
  by (auto simp: opaque_session_srv_def Let_def get_xcript_eq split: if_splits option.splits)


lemma user_3dh_agrees:
  assumes comm: "dh_commutes S"
    and pubkeys: "P_s = crypto_scalarmult_base S p_s" "P_u = crypto_scalarmult_base S p_u"
      "X_s = crypto_scalarmult_base S x_s" "X_u = crypto_scalarmult_base S x_u"
    and a: "crypto_scalarmult S p_s X_u = Some a"
    and b: "crypto_scalarmult S x_s P_u = Some b"
    and c: "crypto_scalarmult S x_s X_u = Some c"
  shows "opaque_user_3dh S p_u x_u P_s X_s info = Some (derive_keys S (a @ b @ c) info)"
proof -
  from comm have sym: "crypto_scalarmult S m (crypto_scalarmult_base S n)
      = crypto_scalarmult S n (crypto_scalarmult_base S m)" for m n
    by (simp add: dh_commutes_def)
  have a': "crypto_scalarmult S x_u P_s = Some a"
    using a sym [of x_u p_s] by (simp add: pubkeys)
  have b': "crypto_scalarmult S p_u X_s = Some b"
    using b sym [of p_u x_s] by (simp add: pubkeys)
  have c': "crypto_scalarmult S x_u X_s = Some c"
    using c sym [of x_u x_s] by (simp add: pubkeys)
  show ?thesis
    by (simp add: opaque_user_3dh_def a' b' c')
qed

lemma login_steps:
  assumes locks: "locks S" and tags: "tags_32 S" and pts: "points_32 S" and comm: "dh_commutes S"
    and unbl: "oprf_unblinds S" and pv: "products_valid S"
    and rec_c: "rec_c rec = sealed S rw nonce
                  (p_u @ crypto_scalarmult_base S p_u @ crypto_scalarmult_base S (rec_p_s rec) @ ex) []
                  @ rest"
    and lens: "length nonce = 32" "length p_u = 32" "length ex = unat (rec_extra_len rec)"
    and rec_P_u: "rec_P_u rec = crypto_scalarmult_base S p_u"
    and oprf: "crypto_scalarmult_ristretto255 S (rec_k_s rec) h = Some hk"
    and kdf: "crypto_pwhash S 32
                (crypto_generichash S 32 (pw @ take 32 hk) (case key of None \<Rightarrow> [] | Some b \<Rightarrow> b))
                (replicate 32 0) = Some rw"
    and blind: "crypto_scalarmult_ristretto255 S (sec_r sec) h = Some (pub_alpha pub)"
    and inv: "crypto_core_ristretto255_scalar_invert S (sec_r sec) = Some ir"
    and sec: "sec_alpha sec = pub_alpha pub" "sec_nonceU sec = pub_nonceU pub"
      "pub_X_u pub = crypto_scalarmult_base S (sec_x_u sec)"
    and srv: "opaque_session_srv S x_s nonceS pub rec ids (without_info3 infos) resp0 st
                = Inr (resp, sk, km3, st')"
    and bound: "rec_extra_len rec \<le> OPAQUE_MAX_EXTRA_BYTES"
    and place: "unat resp_ptr + 296 + unat (rec_extra_len rec) < 2 ^ 64"
    and room: "160 + unat (rec_extra_len rec) \<le> length (resp_c resp0)"
    and out: "out_ClrEnv out = None"
    and se: "se = (p_u @ crypto_scalarmult_base S p_u @ crypto_scalarmult_base S (rec_p_s rec) @ ex)
                    @ replicate 32 0"
  obtains keys where
    "crypto_core_ristretto255_is_valid_point S (resp_beta resp)"
    "crypto_scalarmult_ristretto255 S ir (resp_beta resp) = Some hk"
    "\<not> OPAQUE_MAX_EXTRA_BYTES < resp_extra_len resp"
    "opaque_envelope_open S (Some rw) (resp_ptr + 136) (resp_c resp)
       (Some (replicate (128 + unat (resp_extra_len resp)) 0))
       (96 + resp_extra_len resp) (out_ClrEnv out) 0 (out_export_key out)
     = Inr (Some se, None,
            map_option (\<lambda>_. export_key_of S rw nonce (96 + unat (rec_extra_len rec)))
              (out_export_key out))"
    "opaque_user_3dh S (take 32 se) (sec_x_u sec) (take 32 (drop 64 se)) (resp_X_s resp)
       (calc_info S (sec_nonceU sec) (resp_nonceS resp) ids) = Some keys"
    "resp_auth resp = crypto_auth_hmacsha256 S
       (crypto_hash_sha256 S
          (xcript_input (sec_alpha sec) (sec_nonceU sec)
             (crypto_scalarmult_base S (sec_x_u sec)) (resp_beta resp) (resp_c resp)
             (unat (resp_extra_len resp + 160)) (resp_nonceS resp) (resp_X_s resp)
             (without_info3 infos)))
       (keys_km2 keys)"
    "sk = keys_sk keys" "km3 = keys_km3 keys"
    "memcpy (out_extra out) 0 (drop 96 se) (unat (rec_extra_len rec))
       = ex @ drop (unat (rec_extra_len rec)) (out_extra out)"
    "resp_extra_len resp = rec_extra_len rec" "resp_nonceS resp = nonceS"
proof -
  define n where "n = unat (rec_extra_len rec)"
  define P_u where "P_u = crypto_scalarmult_base S p_u"
  define P_s where "P_s = crypto_scalarmult_base S (rec_p_s rec)"
  define secb where "secb = p_u @ P_u @ P_s @ ex"
  define env where "env = sealed S rw nonce secb []"
  have se': "se = secb @ replicate 32 0" by (simp add: se secb_def P_u_def P_s_def)
  from session_srv_InrD [OF srv] obtain beta keys where
    valid_alpha: "crypto_core_ristretto255_is_valid_point S (pub_alpha pub)"
    and beta: "crypto_scalarmult_ristretto255 S (rec_k_s rec) (pub_alpha pub) = Some beta"
    and dh_s: "opaque_server_3dh S (rec_p_s rec) x_s (rec_P_u rec) (pub_X_u pub)
           (calc_info S (pub_nonceU pub) nonceS ids) = Some keys"
    and r_beta: "resp_beta resp = beta"
    and r_X_s: "resp_X_s resp = crypto_scalarmult_base S x_s"
    and r_nonceS: "resp_nonceS resp = nonceS"
    and r_len: "resp_extra_len resp = rec_extra_len rec"
    and r_c: "resp_c resp = memcpy (resp_c resp0) 0 (rec_c rec) (unat (160 + rec_extra_len rec))"
    and r_auth: "resp_auth resp = crypto_auth_hmacsha256 S
           (crypto_hash_sha256 S
              (xcript_input (pub_alpha pub) (pub_nonceU pub) (pub_X_u pub) beta
                 (memcpy (resp_c resp0) 0 (rec_c rec) (unat (160 + rec_extra_len rec)))
                 (unat (rec_extra_len rec + 160)) nonceS (crypto_scalarmult_base S x_s)
                 (without_info3 infos)))
           (keys_km2 keys)"
    and sk: "sk = keys_sk keys" and km3: "km3 = keys_km3 keys"
    by blast
  have place': "unat resp_ptr + 296 + unat (rec_extra_len rec) + unat (0 :: 64 word) < 2 ^ 64"
    using place by simp
  note sz = unat_record_sizes [OF place']
  have lenP: "length P_u = 32" "length P_s = 32"
    using pts by (simp_all add: points_32_def P_u_def P_s_def)
  have lensecb: "length secb = 96 + n" using lens lenP by (simp add: secb_def n_def)
  have lenenv: "length env = 160 + n"
    using length_sealed [OF tags, of rw nonce secb "[]"] lens(1) lensecb by (simp add: env_def)
  have rc: "resp_c resp = env @ drop (160 + n) (resp_c resp0)"
    using lenenv
    by (simp add: r_c rec_c memcpy_def sz(6) n_def [symmetric] env_def secb_def P_u_def P_s_def)
  have unblind: "crypto_scalarmult_ristretto255 S ir (resp_beta resp) = Some hk"
    using unbl inv blind beta oprf unfolding oprf_unblinds_def r_beta by metis
  have valid: "crypto_core_ristretto255_is_valid_point S (resp_beta resp)"
    using pv beta unfolding products_valid_def r_beta by blast
  have opn: "opaque_envelope_open S (Some rw) (resp_ptr + 136) (resp_c resp)
                (Some (replicate (128 + unat (resp_extra_len resp)) 0))
                (96 + resp_extra_len resp) (out_ClrEnv out) 0 (out_export_key out)
              = Inr (Some se, None,
                     map_option (\<lambda>_. export_key_of S rw nonce (96 + n)) (out_export_key out))"
    unfolding se'
    using envelope_open_sealed [OF tags lens(1) sz(4), of secb "[]" 0 "out_ClrEnv out" "[]"
        "resp_ptr + 136" rw "drop (160 + n) (resp_c resp0)" "replicate (128 + n) 0"
        "out_export_key out"] lensecb sz(3) sz(5)
    by (simp add: sz(2) n_def [symmetric] out rc env_def r_len)
  obtain a b c where
    a: "crypto_scalarmult S (rec_p_s rec) (pub_X_u pub) = Some a"
    and b: "crypto_scalarmult S x_s (rec_P_u rec) = Some b"
    and c: "crypto_scalarmult S x_s (pub_X_u pub) = Some c"
    and keys: "keys = derive_keys S (a @ b @ c) (calc_info S (pub_nonceU pub) nonceS ids)"
    using server_3dh_SomeD [OF dh_s] by blast
  have dh_u: "opaque_user_3dh S p_u (sec_x_u sec) P_s (resp_X_s resp)
               (calc_info S (sec_nonceU sec) (resp_nonceS resp) ids) = Some keys"
    using user_3dh_agrees [OF comm P_s_def rec_P_u r_X_s sec(3) a b c,
        of "calc_info S (pub_nonceU pub) nonceS ids"]
    by (simp add: keys sec(2) r_nonceS)
  have p1: "take 32 se = p_u" using lens(2) by (simp add: secb_def se')
  have p2: "take 32 (drop 64 se) = P_s"
    using lens(2) lenP by (simp add: secb_def se')
  have p3: "memcpy (out_extra out) 0 (drop 96 se) n = ex @ drop n (out_extra out)"
    using lens lenP by (simp add: secb_def se' memcpy_def n_def)
  have auth: "resp_auth resp = crypto_auth_hmacsha256 S
                 (crypto_hash_sha256 S
                    (xcript_input (sec_alpha sec) (sec_nonceU sec)
                       (crypto_scalarmult_base S (sec_x_u sec)) (resp_beta resp) (resp_c resp)
                       (unat (resp_extra_len resp + 160)) (resp_nonceS resp) (resp_X_s resp)
                       (without_info3 infos)))
                 (keys_km2 keys)"
    by (simp add: r_auth sec(1,2) sec(3) [symmetric] r_beta r_c r_len r_nonceS r_X_s)
  have bound': "\<not> OPAQUE_MAX_EXTRA_BYTES < resp_extra_len resp"
    using bound by (simp add: r_len not_less)
  have kdf': "crypto_pwhash S 32
                (crypto_generichash S 32 (pw @ take 32 hk) (case key of None \<Rightarrow> [] | Some b \<Rightarrow> b))
                (replicate 32 0) = Some rw"
    by (rule kdf)
  have dh_u': "opaque_user_3dh S (take 32 se) (sec_x_u sec) (take 32 (drop 64 se)) (resp_X_s resp)
       (calc_info S (sec_nonceU sec) (resp_nonceS resp) ids) = Some keys"
    unfolding p1 p2 by (rule dh_u)
  show ?thesis
    using that [OF valid unblind bound' opn [unfolded n_def] dh_u' auth sk km3 p3 [unfolded n_def]
        r_len r_nonceS] .
qed

lemma login_from_record:
  assumes locks: "locks S" and tags: "tags_32 S" and pts: "points_32 S" and comm: "dh_commutes S"
    and unbl: "oprf_unblinds S" and pv: "products_valid S"
    and rec_c: "rec_c rec = sealed S rw nonce
                  (p_u @ crypto_scalarmult_base S p_u @ crypto_scalarmult_base S (rec_p_s rec) @ ex) []
                  @ rest"
    and lens: "length nonce = 32" "length p_u = 32" "length ex = unat (rec_extra_len rec)"
    and rec_P_u: "rec_P_u rec = crypto_scalarmult_base S p_u"
    and oprf: "crypto_scalarmult_ristretto255 S (rec_k_s rec) h = Some hk"
    and kdf: "crypto_pwhash S 32
                (crypto_generichash S 32 (pw @ take 32 hk) (case key of None \<Rightarrow> [] | Some b \<Rightarrow> b))
                (replicate 32 0) = Some rw"
    and blind: "crypto_scalarmult_ristretto255 S (sec_r sec) h = Some (pub_alpha pub)"
    and inv: "crypto_core_ristretto255_scalar_invert S (sec_r sec) = Some ir"
    and sec: "sec_alpha sec = pub_alpha pub" "sec_nonceU sec = pub_nonceU pub"
      "pub_X_u pub = crypto_scalarmult_base S (sec_x_u sec)"
    and srv: "opaque_session_srv S x_s nonceS pub rec ids (without_info3 infos) resp0 st
                = Inr (resp, sk, km3, st')"
    and bound: "rec_extra_len rec \<le> OPAQUE_MAX_EXTRA_BYTES"
    and place: "unat resp_ptr + 296 + unat (rec_extra_len rec) < 2 ^ 64"
    and room: "160 + unat (rec_extra_len rec) \<le> length (resp_c resp0)"
    and out: "out_ClrEnv out = None"
  shows "opaque_session_usr_finish S pw resp_ptr resp sec key ids infos out 0
     = (Inr (),
        out \<lparr> out_ClrEnv := None,
              out_export_key := map_option
                (\<lambda>_. export_key_of S rw nonce (96 + unat (rec_extra_len rec))) (out_export_key out),
              out_rwd := map_option (\<lambda>_. crypto_generichash S 32 rw rwd_key) (out_rwd out),
              out_sk := sk,
              out_auth := map_option
                (\<lambda>_. crypto_auth_hmacsha256 S
                   (crypto_hash_sha256 S
                      (xcript_input (pub_alpha pub) (pub_nonceU pub) (pub_X_u pub) (resp_beta resp)
                         (resp_c resp) (unat (resp_extra_len resp + 160)) nonceS (resp_X_s resp) infos))
                   km3) (out_auth out),
              out_extra := ex @ drop (unat (rec_extra_len rec)) (out_extra out) \<rparr>)"
proof -
  define se where "se = (p_u @ crypto_scalarmult_base S p_u @ crypto_scalarmult_base S (rec_p_s rec)
                           @ ex) @ replicate 32 0"
  show ?thesis
  proof (rule login_steps [OF locks tags pts comm unbl pv rec_c lens rec_P_u oprf kdf blind inv sec
        srv bound place room out se_def], goal_cases)
  case (1 keys)
  show ?case
  proof (cases "rec_extra_len rec = 0")
    case True
    then have "ex = []" using lens(3) by simp
    with True show ?thesis
      using usr_finish_result [OF locks 1(1) inv 1(2) kdf 1(3) 1(4) 1(5) 1(6)]
      by (simp add: 1(7,8,10,11) sec(1,2) sec(3) [symmetric])
  next
    case False
    then show ?thesis
      using usr_finish_result [OF locks 1(1) inv 1(2) kdf 1(3) 1(4) 1(5) 1(6)]
      by (simp add: 1(7,8,9,10,11) sec(1,2) sec(3) [symmetric])
  qed
  qed
qed

lemma login_tampered:
  assumes locks: "locks S" and tags: "tags_32 S" and pts: "points_32 S" and comm: "dh_commutes S"
    and unbl: "oprf_unblinds S" and pv: "products_valid S"
    and rec_c: "rec_c rec = sealed S rw nonce
                  (p_u @ crypto_scalarmult_base S p_u @ crypto_scalarmult_base S (rec_p_s rec) @ ex) []
                  @ rest"
    and lens: "length nonce = 32" "length p_u = 32" "length ex = unat (rec_extra_len rec)"
    and rec_P_u: "rec_P_u rec = crypto_scalarmult_base S p_u"
    and oprf: "crypto_scalarmult_ristretto255 S (rec_k_s rec) h = Some hk"
    and kdf: "crypto_pwhash S 32
                (crypto_generichash S 32 (pw @ take 32 hk) (case key of None \<Rightarrow> [] | Some b \<Rightarrow> b))
                (replicate 32 0) = Some rw"
    and blind: "crypto_scalarmult_ristretto255 S (sec_r sec) h = Some (pub_alpha pub)"
    and inv: "crypto_core_ristretto255_scalar_invert S (sec_r sec) = Some ir"
    and sec: "sec_alpha sec = pub_alpha pub" "sec_nonceU sec = pub_nonceU pub"
      "pub_X_u pub = crypto_scalarmult_base S (sec_x_u sec)"
    and srv: "opaque_session_srv S x_s nonceS pub rec ids (without_info3 infos) resp0 st
                = Inr (resp, sk, km3, st')"
    and bound: "rec_extra_len rec \<le> OPAQUE_MAX_EXTRA_BYTES"
    and place: "unat resp_ptr + 296 + unat (rec_extra_len rec) < 2 ^ 64"
    and room: "160 + unat (rec_extra_len rec) \<le> length (resp_c resp0)"
    and out: "out_ClrEnv out = None"
    and tamper: "t \<noteq> resp_auth resp"
  shows "opaque_session_usr_finish S pw resp_ptr (resp \<lparr> resp_auth := t \<rparr>) sec key ids infos out 0
     = (Inl ServerAuthFailed,
        out \<lparr> out_ClrEnv := None,
              out_export_key := map_option
                (\<lambda>_. export_key_of S rw nonce (96 + unat (rec_extra_len rec))) (out_export_key out),
              out_rwd := map_option (\<lambda>_. replicate 32 0) (out_rwd out) \<rparr>)"
proof -
  define se where "se = (p_u @ crypto_scalarmult_base S p_u @ crypto_scalarmult_base S (rec_p_s rec)
                           @ ex) @ replicate 32 0"
  show ?thesis
  proof (rule login_steps [OF locks tags pts comm unbl pv rec_c lens rec_P_u oprf kdf blind inv sec
        srv bound place room out se_def], goal_cases)
  case (1 keys)
  define resp' where "resp' = resp \<lparr> resp_auth := t \<rparr>"
  have sel: "resp_beta resp' = resp_beta resp" "resp_extra_len resp' = resp_extra_len resp"
    "resp_c resp' = resp_c resp" "resp_X_s resp' = resp_X_s resp"
    "resp_nonceS resp' = resp_nonceS resp" "resp_auth resp' = t"
    by (simp_all add: resp'_def)
  show ?case
    unfolding resp'_def [symmetric]
    using usr_finish_auth_mismatch [of S resp' sec ir hk pw key rw resp_ptr out 0 _ None _ ids keys
        infos, unfolded sel, OF locks 1(1) inv 1(2) kdf 1(3) 1(4) 1(5)] tamper 1(6)
    by simp
  qed
qed

lemma map_succ_neq: "xs \<noteq> [] \<Longrightarrow> map ((+) 1) xs \<noteq> (xs :: bytes)"
  by (cases xs) simp_all

lemma usr_finish_server_auth_failed:
  assumes "opaque_session_usr_finish S pw resp_ptr resp sec key ids infos out ClrEnv_len
             = (Inl ServerAuthFailed, out')"
  shows "\<exists>ir h0 rw SecEnv ClrEnv ek.
      crypto_core_ristretto255_scalar_invert S (sec_r sec) = Some ir
      \<and> crypto_scalarmult_ristretto255 S ir (resp_beta resp) = Some h0
      \<and> crypto_pwhash S 32
            (crypto_generichash S 32 (pw @ take 32 h0) (case key of None \<Rightarrow> [] | Some b \<Rightarrow> b))
            (replicate 32 0) = Some rw
      \<and> opaque_envelope_open S (Some rw) (resp_ptr + 136) (resp_c resp)
            (Some (replicate (OPAQUE_BLOB_LEN + unat (resp_extra_len resp) - 32) 0))
            (32 + 32 * 2 + resp_extra_len resp) (out_ClrEnv out) ClrEnv_len (out_export_key out)
          = Inr (SecEnv, ClrEnv, ek)
      \<and> out' = out \<lparr> out_ClrEnv := ClrEnv, out_export_key := ek,
                      out_rwd := (case out_rwd out of None \<Rightarrow> None | Some _ \<Rightarrow> Some (replicate 32 0)) \<rparr>"
  using assms
  by (auto simp: opaque_session_usr_finish_def Let_def get_xcript_eq
      split: if_splits option.splits sum.splits prod.splits dest: envelope_open_errors)

lemma sphinx_oprf_SomeD:
  assumes "sphinx_oprf S pw k key = Some rw0"
  shows "\<exists>hk. crypto_scalarmult_ristretto255 S k (hash_to_group S pw) = Some hk
           \<and> rw0 = crypto_generichash S 32 (pw @ take 32 hk) (case key of None \<Rightarrow> [] | Some b \<Rightarrow> b)"
  using assms by (auto simp: sphinx_oprf_def split: option.splits)

lemma session_usr_start_InrD:
  assumes "opaque_session_usr_start S r x_u nonceU pw = Inr (sec, pub)"
  shows "crypto_scalarmult_ristretto255 S r (hash_to_group S pw) = Some (pub_alpha pub)
       \<and> sec = \<lparr> sec_r = r, sec_x_u = x_u, sec_nonceU = nonceU, sec_alpha = pub_alpha pub \<rparr>
       \<and> pub = \<lparr> pub_alpha = pub_alpha pub, pub_X_u = crypto_scalarmult_base S x_u,
                 pub_nonceU = nonceU \<rparr>"
  using assms
  by (auto simp: opaque_session_usr_start_def sphinx_blindPW_def split: option.splits)

lemma private_init_srv_respond_InrD:
  assumes "opaque_private_init_srv_respond S k_s p_s alpha = Inr (rsec, rpub)"
  shows "crypto_scalarmult_ristretto255 S k_s alpha = Some (rpub_beta rpub)
       \<and> rsec = \<lparr> rsec_p_s = p_s, rsec_k_s = k_s \<rparr>
       \<and> rpub_P_s rpub = crypto_scalarmult_base S p_s"
  using assms
  by (auto simp: opaque_private_init_srv_respond_def split: if_splits option.splits)

lemma private_init_usr_respond_InrD:
  assumes "opaque_private_init_usr_respond S p_u nonce pw r pub extra extra_len key ClrEnv ClrEnv_len
             rec_ptr rec0 rwd export_key = Inr (rec, rwd', ek)"
  shows "\<exists>ir h0 rw.
      crypto_core_ristretto255_scalar_invert S r = Some ir
      \<and> crypto_scalarmult_ristretto255 S ir (rpub_beta pub) = Some h0
      \<and> crypto_pwhash S 32
            (crypto_generichash S 32 (pw @ take 32 h0) (case key of None \<Rightarrow> [] | Some b \<Rightarrow> b))
            (replicate 32 0) = Some rw
      \<and> rwd' = map_option (\<lambda>_. crypto_generichash S 32 rw rwd_key) rwd"
  using assms
  by (cases rwd)
    (auto simp: opaque_private_init_usr_respond_def Let_def
      split: if_splits option.splits sum.splits)

lemma usr_finish_InrD:
  assumes "opaque_session_usr_finish S pw resp_ptr resp sec key ids infos out ClrEnv_len
             = (Inr (), out')"
  shows "\<exists>ir h0 rw.
      crypto_core_ristretto255_scalar_invert S (sec_r sec) = Some ir
      \<and> crypto_scalarmult_ristretto255 S ir (resp_beta resp) = Some h0
      \<and> crypto_pwhash S 32
            (crypto_generichash S 32 (pw @ take 32 h0) (case key of None \<Rightarrow> [] | Some b \<Rightarrow> b))
            (replicate 32 0) = Some rw
      \<and> out_rwd out' = map_option (\<lambda>_. crypto_generichash S 32 rw rwd_key) (out_rwd out)"
  using assms
  by (cases "out_rwd out"; cases "out_auth out")
    (auto simp: opaque_session_usr_finish_def Let_def get_xcript_eq
      split: if_splits option.splits sum.splits prod.splits)

lemma session_srv_envelope:
  assumes "opaque_session_srv S x_s nonceS pub rec ids infos resp0 st = Inr (resp, sk, km3, st')"
    and "unat (rec_extra_len rec) + 160 < 2 ^ 64"
  shows "resp_c resp = take (160 + unat (rec_extra_len rec)) (rec_c rec)
                       @ drop (160 + unat (rec_extra_len rec)) (resp_c resp0)"
proof -
  have "unat (160 + rec_extra_len rec) = 160 + unat (rec_extra_len rec)"
    using assms(2) unat_add_nowrap [of 160 "rec_extra_len rec"] by simp
  with session_srv_InrD [OF assms(1)] show ?thesis
    by (auto simp: memcpy_def)
qed

lemma login_envelope_rejected:
  assumes locks: "locks S" and unbl: "oprf_unblinds S" and pv: "products_valid S"
    and srv: "opaque_session_srv S x_s nonceS pub rec ids infos_s resp0 st = Inr (resp, sk, km3, st')"
    and blind: "crypto_scalarmult_ristretto255 S (sec_r sec) h = Some (pub_alpha pub)"
    and inv: "crypto_core_ristretto255_scalar_invert S (sec_r sec) = Some ir"
    and oprf: "crypto_scalarmult_ristretto255 S (rec_k_s rec) h = Some hk"
    and kdf: "crypto_pwhash S 32
                (crypto_generichash S 32 (pw @ take 32 hk) (case key of None \<Rightarrow> [] | Some b \<Rightarrow> b))
                (replicate 32 0) = Some rw"
    and bound: "rec_extra_len rec \<le> OPAQUE_MAX_EXTRA_BYTES"
    and place: "unat resp_ptr + 296 + unat (rec_extra_len rec) + unat ClrEnv_len < 2 ^ 64"
    and clr_out: "out_ClrEnv out = (if ClrEnv_len = 0 then None else Some cbuf)"
    and tag: "take 32 (drop (128 + unat (rec_extra_len rec) + unat ClrEnv_len) (resp_c resp))
        \<noteq> crypto_auth_hmacsha256 S
            (take (128 + unat (rec_extra_len rec) + unat ClrEnv_len) (resp_c resp))
            (take 32 (drop (96 + unat (rec_extra_len rec))
               (crypto_kdf_hkdf_sha256_expand S (160 + unat (rec_extra_len rec))
                  (take 32 (resp_c resp) @ EnvU) rw)))"
  shows "opaque_session_usr_finish S pw resp_ptr resp sec key ids infos out ClrEnv_len
     = (Inl EnvelopeAuthFailed, out)"
proof -
  from session_srv_InrD [OF srv] obtain beta where
    beta: "crypto_scalarmult_ristretto255 S (rec_k_s rec) (pub_alpha pub) = Some beta"
    and r_beta: "resp_beta resp = beta"
    and r_len: "resp_extra_len resp = rec_extra_len rec"
    by blast
  note sz = unat_record_sizes [OF place]
  have unblind: "crypto_scalarmult_ristretto255 S ir (resp_beta resp) = Some hk"
    using unbl inv blind beta oprf unfolding oprf_unblinds_def r_beta by metis
  have valid: "crypto_core_ristretto255_is_valid_point S (resp_beta resp)"
    using pv beta unfolding products_valid_def r_beta by blast
  have bound': "\<not> OPAQUE_MAX_EXTRA_BYTES < resp_extra_len resp"
    using bound by (simp add: r_len not_less)
  have opn: "opaque_envelope_open S (Some rw) (resp_ptr + 136) (resp_c resp)
                (Some (replicate (128 + unat (resp_extra_len resp)) 0))
                (96 + resp_extra_len resp) (out_ClrEnv out) ClrEnv_len (out_export_key out)
              = Inl EnvelopeAuthFailed"
    unfolding r_len
    using tag
    by (intro envelope_open_bad_tag [OF sz(4) clr_out sz(3) sz(5)]) (simp add: sz(2) add.assoc)
  show ?thesis
    by (rule usr_finish_envelope_failure [OF locks valid inv unblind kdf bound' opn])
qed



section \<open>The envelope opens to what was sealed\<close>

text \<open>
  C5. Sealing a non-empty \<open>SecEnv\<close> and a \<open>ClrEnv\<close> under \<open>rw\<close> and opening the
  result under the same \<open>rw\<close> with the same two lengths succeeds, returns the bytes of
  \<open>SecEnv\<close> and of \<open>ClrEnv\<close> at the start of the output buffers, and returns the
  \<open>export_key\<close> of the seal. An empty \<open>ClrEnv\<close> is the null pointer with length 0,
  as the first check of both functions demands. The envelope may be opened at another
  address than it was sealed at and may be followed by any bytes. Both buffers lie inside
  the address space, the sealed buffers hold as many bytes as their lengths say, the
  nonce has 32 bytes and a tag has 32 bytes.
\<close>

theorem envelope_roundtrip:
  assumes tags: "tags_32 S"
    and nonce: "length nonce = 32"
    and sec: "SecEnv_len \<noteq> 0" "unat SecEnv_len \<le> length s"
    and clr: "ClrEnv = (if ClrEnv_len = 0 then None else Some cl)" "unat ClrEnv_len \<le> length cl"
    and clr_out: "ClrEnv_out = (if ClrEnv_len = 0 then None else Some cbuf)"
    and seal_at: "envelope \<noteq> 0" "unat envelope + 64 + unat SecEnv_len + unat ClrEnv_len < 2 ^ 64"
    and open_at: "envelope' \<noteq> 0" "unat envelope' + 64 + unat SecEnv_len + unat ClrEnv_len < 2 ^ 64"
  shows "\<exists>E ek.
      opaque_envelope S nonce (Some rw) (Some s) SecEnv_len ClrEnv ClrEnv_len envelope (Some ek0)
        = Inr (E, Some ek)
      \<and> length E = 64 + unat SecEnv_len + unat ClrEnv_len
      \<and> opaque_envelope_open S (Some rw) envelope' (E @ rest) (Some sbuf) SecEnv_len
          ClrEnv_out ClrEnv_len (Some ek1)
        = Inr (Some (take (unat SecEnv_len) s @ drop (unat SecEnv_len) sbuf),
               (if ClrEnv_len = 0 then None
                else Some (take (unat ClrEnv_len) cl @ drop (unat ClrEnv_len) cbuf)),
               Some ek)"
proof -
  define n where "n = unat SecEnv_len"
  define m where "m = unat ClrEnv_len"
  define keys where "keys = crypto_kdf_hkdf_sha256_expand S (64 + n) (nonce @ EnvU) rw"
  define C where "C = xor_loop s keys n"
  define clrb where "clrb = (if ClrEnv_len = 0 then [] else take m cl)"
  define T where "T = crypto_auth_hmacsha256 S (nonce @ C @ clrb) (take 32 (drop n keys))"
  have lenT: "length T = 32" using tags by (simp add: T_def tags_32_def)
  have lenclr: "length clrb = m" using clr(2) by (auto simp: clrb_def m_def)
  have u1: "unat (32 + SecEnv_len + ClrEnv_len) = 32 + n + m"
  proof -
    have "unat (32 + SecEnv_len) = 32 + n"
      using seal_at(2) unat_add_nowrap [of 32 SecEnv_len] by (simp add: n_def)
    then show ?thesis
      using seal_at(2) unat_add_nowrap [of "32 + SecEnv_len" ClrEnv_len] by (simp add: n_def m_def)
  qed
  have u2: "unat (e + 32) = unat e + 32" "unat (e + 32 + SecEnv_len) = unat e + 32 + n"
    if "unat e + 64 + unat SecEnv_len + unat ClrEnv_len < 2 ^ 64" for e :: "64 word"
  proof -
    show a: "unat (e + 32) = unat e + 32" using that unat_add_nowrap [of e 32] by simp
    show "unat (e + 32 + SecEnv_len) = unat e + 32 + n"
      using that a unat_add_nowrap [of "e + 32" SecEnv_len] by (simp add: n_def)
  qed
  have small: "\<not> (2::nat) ^ 64 \<le> 64 + n" using seal_at(2) by (simp add: n_def)
  have seal: "opaque_envelope S nonce (Some rw) (Some s) SecEnv_len ClrEnv ClrEnv_len envelope (Some ek0)
        = Inr (nonce @ C @ clrb @ T, Some (take 32 (drop (n + 32) keys)))"
    using seal_at sec(1) small nonce lenclr
    by (simp add: opaque_envelope_def clr(1) Let_def u1 u2 [OF seal_at(2)] n_def [symmetric] m_def [symmetric]
        keys_def [symmetric] C_def [symmetric] clrb_def T_def)
  have opn: "opaque_envelope_open S (Some rw) envelope' ((nonce @ C @ clrb @ T) @ rest) (Some sbuf) SecEnv_len
          ClrEnv_out ClrEnv_len (Some ek1)
        = Inr (Some (take n s @ drop n sbuf),
               (if ClrEnv_len = 0 then None else Some (take m cl @ drop m cbuf)),
               Some (take 32 (drop (n + 32) keys)))"
  proof -
    define env where "env = (nonce @ C @ clrb @ T) @ rest"
    define cout where "cout = (if ClrEnv_len = 0 then None else Some (take m cl @ drop m cbuf))"
    have e1: "take 32 env = nonce" using nonce by (simp add: env_def)
    have e2: "take (32 + n + m) env = nonce @ C @ clrb"
      using nonce lenclr by (simp add: C_def env_def)
    have e3: "take 32 (drop (32 + n + m) env) = T"
      using nonce lenclr lenT by (simp add: C_def env_def)
    have e4: "drop 32 env = C @ clrb @ T @ rest" using nonce by (simp add: env_def)
    have e5: "xor_loop (drop 32 env) keys n = take n s"
      unfolding e4 C_def using sec(2) by (intro xor_loop_twice) (simp add: n_def)
    have e6: "take m (drop (n + 32) env) = clrb"
      using lenclr nonce by (simp add: C_def env_def)
    have e7: "(if ClrEnv_len = 0 then None else Some (clrb @ drop m cbuf)) = cout"
      by (simp add: clrb_def cout_def)
    have "opaque_envelope_open S (Some rw) envelope' env (Some sbuf) SecEnv_len
          ClrEnv_out ClrEnv_len (Some ek1)
        = Inr (Some (take n s @ drop n sbuf), cout, Some (take 32 (drop (n + 32) keys)))"
      using open_at sec(1) small
      by (simp add: opaque_envelope_open_def clr_out Let_def u1 u2 [OF open_at(2)]
          n_def [symmetric] m_def [symmetric] e1 e2 e3 e5 e6 keys_def [symmetric]
          crypto_auth_hmacsha256_verify_def T_def [symmetric] memcpy_def e7 [symmetric])
    then show ?thesis by (simp add: env_def cout_def)
  qed
  show ?thesis
    using seal opn nonce lenclr lenT by (simp add: C_def n_def m_def)
qed

theorem envelope_roundtrip_witness:
  "\<exists>E ek.
      opaque_envelope ref_sodium (replicate 32 7) (Some (replicate 32 9)) (Some [1, 2, 3]) 3
          (Some [4, 5]) 2 4096 (Some [])
        = Inr (E, Some ek)
      \<and> length E = 69
      \<and> opaque_envelope_open ref_sodium (Some (replicate 32 9)) 8192 (E @ [6]) (Some [0, 0, 0, 8]) 3
          (Some [0, 0, 0]) 2 (Some [])
        = Inr (Some [1, 2, 3, 8], Some [4, 5, 0], Some ek)"
  using envelope_roundtrip [OF ref_tags_32, of "replicate 32 7" 3 "[1, 2, 3]"
      "Some [4, 5]" 2 "[4, 5]" "Some [0, 0, 0]" "[0, 0, 0]" 4096 8192 "replicate 32 9" "[]"
      "[6]" "[0, 0, 0, 8]" "[]"]
  by simp

section \<open>Triple Diffie-Hellman: both sides derive the same keys\<close>

text \<open>
  C6. \<open>opaque_server_3dh\<close> hands \<open>(Ep\<cdot>ix) || (Ip\<cdot>ex) || (Ep\<cdot>ex)\<close> to the key
  derivation and \<open>opaque_user_3dh\<close> hands it \<open>(Ip\<cdot>ex) || (Ep\<cdot>ix) || (Ep\<cdot>ex)\<close>. When
  the public keys are the base-point products of the private ones and the three products
  of the server exist, the three products of the client are the same byte strings in the
  same positions, and both calls return the same key bundle for the same \<open>info\<close>.
\<close>

theorem triple_dh_agreement:
  assumes comm: "dh_commutes S"
    and pubkeys: "P_s = crypto_scalarmult_base S p_s" "P_u = crypto_scalarmult_base S p_u"
      "X_s = crypto_scalarmult_base S x_s" "X_u = crypto_scalarmult_base S x_u"
    and a: "crypto_scalarmult S p_s X_u = Some a"
    and b: "crypto_scalarmult S x_s P_u = Some b"
    and c: "crypto_scalarmult S x_s X_u = Some c"
  shows "opaque_server_3dh S p_s x_s P_u X_u info = Some (derive_keys S (a @ b @ c) info)
       \<and> crypto_scalarmult S x_u P_s = Some a
       \<and> crypto_scalarmult S p_u X_s = Some b
       \<and> crypto_scalarmult S x_u X_s = Some c
       \<and> opaque_user_3dh S p_u x_u P_s X_s info = Some (derive_keys S (a @ b @ c) info)"
proof -
  from comm have sym: "crypto_scalarmult S m (crypto_scalarmult_base S n)
      = crypto_scalarmult S n (crypto_scalarmult_base S m)" for m n
    by (simp add: dh_commutes_def)
  have a': "crypto_scalarmult S x_u P_s = Some a"
    using a sym [of x_u p_s] by (simp add: pubkeys)
  have b': "crypto_scalarmult S p_u X_s = Some b"
    using b sym [of p_u x_s] by (simp add: pubkeys)
  have c': "crypto_scalarmult S x_u X_s = Some c"
    using c sym [of x_u x_s] by (simp add: pubkeys)
  have srv: "opaque_server_3dh S p_s x_s P_u X_u info = Some (derive_keys S (a @ b @ c) info)"
    by (simp add: opaque_server_3dh_def a b c)
  have usr: "opaque_user_3dh S p_u x_u P_s X_s info = Some (derive_keys S (a @ b @ c) info)"
    by (simp add: opaque_user_3dh_def a' b' c')
  from srv a' b' c' usr show ?thesis by simp
qed

theorem triple_dh_agreement_witness:
  "opaque_server_3dh ref_sodium (replicate 32 1) (replicate 32 5)
       (ref_scalarmult_base (replicate 32 7)) (ref_scalarmult_base (replicate 32 9)) []
     = Some (derive_keys ref_sodium (replicate 32 27 @ replicate 32 105 @ replicate 32 135) [])
   \<and> opaque_user_3dh ref_sodium (replicate 32 7) (replicate 32 9)
       (ref_scalarmult_base (replicate 32 1)) (ref_scalarmult_base (replicate 32 5)) []
     = Some (derive_keys ref_sodium (replicate 32 27 @ replicate 32 105 @ replicate 32 135) [])"
proof -
  have base: "crypto_scalarmult_base ref_sodium = ref_scalarmult_base"
    by (simp add: ref_sodium_def)
  have a: "crypto_scalarmult ref_sodium (replicate 32 1) (ref_scalarmult_base (replicate 32 9))
      = Some (replicate 32 27)"
    by (simp add: ref_sodium_def ref_scalarmult_def ref_scalarmult_base_def fitn_def)
  have b: "crypto_scalarmult ref_sodium (replicate 32 5) (ref_scalarmult_base (replicate 32 7))
      = Some (replicate 32 105)"
    by (simp add: ref_sodium_def ref_scalarmult_def ref_scalarmult_base_def fitn_def)
  have c: "crypto_scalarmult ref_sodium (replicate 32 5) (ref_scalarmult_base (replicate 32 9))
      = Some (replicate 32 135)"
    by (simp add: ref_sodium_def ref_scalarmult_def ref_scalarmult_base_def fitn_def)
  show ?thesis
    using triple_dh_agreement [OF ref_dh_commutes, of
        "ref_scalarmult_base (replicate 32 1)" "replicate 32 1"
        "ref_scalarmult_base (replicate 32 7)" "replicate 32 7"
        "ref_scalarmult_base (replicate 32 5)" "replicate 32 5"
        "ref_scalarmult_base (replicate 32 9)" "replicate 32 9"
        "replicate 32 27" "replicate 32 105" "replicate 32 135" "[]"]
      a b c
    by (simp add: base)
qed

section \<open>Private registration, step 4: what the server fills in\<close>

text \<open>
  C9. \<open>opaque_private_init_srv_finish\<close> writes \<open>k_s\<close> and \<open>p_s\<close> of the registration
  secret and \<open>P_s\<close> of the registration public into the record and leaves \<open>P_u\<close>,
  \<open>extra_len\<close> and the envelope as the client delivered them. It is total: the C
  function is \<^verbatim>\<open>void\<close> and has no failing path.
\<close>

theorem private_init_srv_finish_frame:
  "rec_k_s (opaque_private_init_srv_finish sec pub rec) = rsec_k_s sec
   \<and> rec_p_s (opaque_private_init_srv_finish sec pub rec) = rsec_p_s sec
   \<and> rec_P_s (opaque_private_init_srv_finish sec pub rec) = rpub_P_s pub
   \<and> rec_P_u (opaque_private_init_srv_finish sec pub rec) = rec_P_u rec
   \<and> rec_extra_len (opaque_private_init_srv_finish sec pub rec) = rec_extra_len rec
   \<and> rec_c (opaque_private_init_srv_finish sec pub rec) = rec_c rec"
  by (simp add: opaque_private_init_srv_finish_def)

section \<open>An injected identity aborts the receiving step\<close>

lemma server_3dh_rejects:
  "\<forall>n. crypto_scalarmult S n Ep = None \<Longrightarrow> opaque_server_3dh S ix ex Ip Ep info = None"
  by (simp add: opaque_server_3dh_def)

lemma user_3dh_rejects:
  "\<forall>n. crypto_scalarmult S n Ep = None \<Longrightarrow> opaque_user_3dh S ix ex Ip Ep info = None"
  by (simp add: opaque_user_3dh_def split: option.splits)

text \<open>
  C7. The identity is the encoding of 32 zero bytes. The validity check of libsodium
  accepts it; what refuses it is the scalar multiplication:
  \<^verbatim>\<open>crypto_scalarmult_ristretto255\<close> fails when the point or the product is the
  identity, and \<^verbatim>\<open>crypto_scalarmult\<close> fails when the product is all zero, as it is
  for the zero point. These are the two hypotheses. With the identity as \<open>alpha\<close>,
  \<open>opaque_session_srv\<close> returns an error, at the latest where it evaluates the OPRF
  (\<^verbatim>\<open>opaque.c:501\<close>), and as \<open>X_u\<close> in \<open>opaque_server_3dh\<close>; with the identity as
  \<open>beta\<close>, \<open>opaque_session_usr_finish\<close> returns an error, at the latest where it
  unblinds (\<^verbatim>\<open>opaque.c:619\<close>), and as \<open>X_s\<close> in \<open>opaque_user_3dh\<close>, whatever the
  other inputs are.
\<close>

theorem identity_injection_aborts:
  assumes ri: "\<forall>n. crypto_scalarmult_ristretto255 S n (replicate 32 0) = None"
      and xi: "\<forall>n. crypto_scalarmult S n (replicate 32 0) = None"
  shows "isl (opaque_session_srv S x_s nonceS (pub \<lparr> pub_alpha := replicate 32 0 \<rparr>) rec ids infos
                resp0 st)
       \<and> isl (opaque_session_srv S x_s nonceS (pub \<lparr> pub_X_u := replicate 32 0 \<rparr>) rec ids infos
                resp0 st)
       \<and> isl (fst (opaque_session_usr_finish S pw rp (resp \<lparr> resp_beta := replicate 32 0 \<rparr>) sec key
                ids infos out n))
       \<and> isl (fst (opaque_session_usr_finish S pw rp (resp \<lparr> resp_X_s := replicate 32 0 \<rparr>) sec key
                ids infos out n))"
proof (intro conjI)
  show "isl (opaque_session_srv S x_s nonceS (pub \<lparr> pub_alpha := replicate 32 0 \<rparr>) rec ids infos
                resp0 st)"
    using ri by (simp add: opaque_session_srv_def)
  show "isl (opaque_session_srv S x_s nonceS (pub \<lparr> pub_X_u := replicate 32 0 \<rparr>) rec ids infos
                resp0 st)"
    by (simp add: opaque_session_srv_def Let_def server_3dh_rejects [OF xi] split: option.splits)
  show "isl (fst (opaque_session_usr_finish S pw rp (resp \<lparr> resp_beta := replicate 32 0 \<rparr>) sec key
                ids infos out n))"
    using ri by (simp add: opaque_session_usr_finish_def split: option.splits)
  show "isl (fst (opaque_session_usr_finish S pw rp (resp \<lparr> resp_X_s := replicate 32 0 \<rparr>) sec key
                ids infos out n))"
    by (simp add: opaque_session_usr_finish_def Let_def user_3dh_rejects [OF xi]
        split: option.splits sum.splits prod.splits)
qed

theorem identity_injection_aborts_witness:
  "\<exists>rec ek sec pub resp sk km3 st' out'.
     opaque_init_srv ref_sodium (replicate 32 1) (replicate 32 1) (replicate 32 7) (replicate 32 7)
         [5] [] 0 None None 0 4096 (sample_rec0 160) None = Inr (rec, ek)
     \<and> opaque_session_usr_start ref_sodium (replicate 32 4) (replicate 32 9) (replicate 32 0) [5]
         = Inr (sec, pub)
     \<and> opaque_session_srv ref_sodium (replicate 32 5) (replicate 32 0) pub rec sample_ids None
         (sample_resp0 160) None = Inr (resp, sk, km3, st')
     \<and> opaque_session_usr_finish ref_sodium [5] 8192 resp sec None sample_ids None sample_out 0
         = (Inr (), out')
     \<and> crypto_core_ristretto255_is_valid_point ref_sodium (replicate 32 0)
     \<and> isl (opaque_session_srv ref_sodium (replicate 32 5) (replicate 32 0)
              (pub \<lparr> pub_alpha := replicate 32 0 \<rparr>) rec sample_ids None (sample_resp0 160) None)
     \<and> isl (opaque_session_srv ref_sodium (replicate 32 5) (replicate 32 0)
              (pub \<lparr> pub_X_u := replicate 32 0 \<rparr>) rec sample_ids None (sample_resp0 160) None)
     \<and> isl (fst (opaque_session_usr_finish ref_sodium [5] 8192
              (resp \<lparr> resp_beta := replicate 32 0 \<rparr>) sec None sample_ids None sample_out 0))
     \<and> isl (fst (opaque_session_usr_finish ref_sodium [5] 8192
              (resp \<lparr> resp_X_s := replicate 32 0 \<rparr>) sec None sample_ids None sample_out 0))"
proof -
  let ?S = ref_sodium
  define k_s :: bytes where "k_s = replicate 32 1"
  define p_u :: bytes where "p_u = replicate 32 7"
  define nonce :: bytes where "nonce = replicate 32 7"
  define hk :: bytes where "hk = [2, 6] @ replicate 30 1"
  define rw where "rw = map2 (+) (fitn 32 (crypto_generichash ?S 32 ([5] @ take 32 hk) []))
                          (fitn 32 (replicate 32 0))"
  define sec where "sec = \<lparr> sec_r = replicate 32 4, sec_x_u = replicate 32 9,
                             sec_nonceU = replicate 32 0, sec_alpha = [5, 9] @ replicate 30 4 \<rparr>"
  define pub where "pub = \<lparr> pub_alpha = [5, 9] @ replicate 30 4,
                             pub_X_u = crypto_scalarmult_base ?S (replicate 32 9),
                             pub_nonceU = replicate 32 0 \<rparr>"
  define rec where "rec = (sample_rec0 160) \<lparr> rec_k_s := k_s, rec_p_s := k_s,
      rec_P_u := crypto_scalarmult_base ?S p_u, rec_P_s := crypto_scalarmult_base ?S k_s,
      rec_extra_len := 0,
      rec_c := sealed ?S rw nonce
                 (p_u @ crypto_scalarmult_base ?S p_u @ crypto_scalarmult_base ?S k_s) [] \<rparr>"
  have oprf: "crypto_scalarmult_ristretto255 ?S k_s (hash_to_group ?S [5]) = Some hk"
    unfolding hk_def k_s_def by (rule ref_hk)
  have oprf0: "sphinx_oprf ?S [5] k_s None = Some (crypto_generichash ?S 32 ([5] @ take 32 hk) [])"
    by (simp add: sphinx_oprf_def oprf)
  have kdf0: "crypto_pwhash ?S 32 (crypto_generichash ?S 32 ([5] @ take 32 hk) []) (replicate 32 0)
      = Some rw"
    by (simp add: ref_pwhash_Some rw_def)
  have kdf: "crypto_pwhash ?S 32
       (crypto_generichash ?S 32 ([5] @ take 32 hk) (case None of None \<Rightarrow> [] | Some b \<Rightarrow> b))
       (replicate 32 0) = Some rw"
    by (simp add: ref_pwhash_Some rw_def)
  have lens0: "length p_u = 32" "length nonce = 32" by (simp_all add: p_u_def nonce_def)
  have e1: "opaque_init_srv ?S k_s k_s p_u nonce [5] [] 0 None None 0 4096 (sample_rec0 160) None
      = Inr (rec, None)"
    using init_srv_result [OF ref_locks ref_points_32 ref_tags_32 oprf0 kdf0 lens0,
        of 0 "[]" None 0 "[]" 4096 "sample_rec0 160" k_s None]
    by (simp add: rec_def sample_rec0_def)
  have rec: "rec_k_s rec = k_s" "rec_p_s rec = k_s" "rec_P_u rec = crypto_scalarmult_base ?S p_u"
    "rec_extra_len rec = 0"
    "rec_c rec = sealed ?S rw nonce
       (p_u @ crypto_scalarmult_base ?S p_u @ crypto_scalarmult_base ?S (rec_p_s rec) @ []) [] @ []"
    by (simp_all add: rec_def)
  have blind2: "crypto_scalarmult_ristretto255 ?S (sec_r sec) (hash_to_group ?S [5])
      = Some (pub_alpha pub)"
    using ref_alpha_login by (simp add: sec_def pub_def)
  have e4: "opaque_session_usr_start ?S (replicate 32 4) (replicate 32 9) (replicate 32 0) [5]
      = Inr (sec, pub)"
    using ref_alpha_login
    by (simp add: opaque_session_usr_start_def sphinx_blindPW_def sec_def pub_def)
  have valid2: "crypto_core_ristretto255_is_valid_point ?S (pub_alpha pub)"
    using ref_products_valid blind2 unfolding products_valid_def by blast
  have lock: "sodium_mlock ?S ''x_s''" by (simp add: ref_sodium_def)
  have beta2: "crypto_scalarmult_ristretto255 ?S (rec_k_s rec) (pub_alpha pub)
      = Some ([6, 10] @ replicate 30 5)"
    using ref_beta_login by (simp add: rec(1) k_s_def pub_def)
  obtain keys where keys: "opaque_server_3dh ?S (rec_p_s rec) (replicate 32 5) (rec_P_u rec)
      (pub_X_u pub) (calc_info ?S (pub_nonceU pub) (replicate 32 0) sample_ids) = Some keys"
    by (simp add: opaque_server_3dh_def rec(2,3) k_s_def p_u_def pub_def ref_base
        ref_server_products)
  obtain resp sk km3 st' where e5: "opaque_session_srv ?S (replicate 32 5) (replicate 32 0) pub rec
      sample_ids None (sample_resp0 160) None = Inr (resp, sk, km3, st')"
    using session_srv_result [OF valid2 lock beta2 keys, of None "sample_resp0 160" None] by simp
  then have srv: "opaque_session_srv ?S (replicate 32 5) (replicate 32 0) pub rec
      sample_ids (without_info3 None) (sample_resp0 160) None = Inr (resp, sk, km3, st')"
    by (simp add: without_info3_def)
  have lens: "length nonce = 32" "length p_u = 32" "length ([] :: bytes) = unat (rec_extra_len rec)"
    by (simp_all add: nonce_def p_u_def rec(4))
  have oprf': "crypto_scalarmult_ristretto255 ?S (rec_k_s rec) (hash_to_group ?S [5]) = Some hk"
    by (simp add: rec(1) oprf)
  have inv2: "crypto_core_ristretto255_scalar_invert ?S (sec_r sec) = Some (replicate 32 252)"
    using ref_invert_login by (simp add: sec_def)
  have secs: "sec_alpha sec = pub_alpha pub" "sec_nonceU sec = pub_nonceU pub"
      "pub_X_u pub = crypto_scalarmult_base ?S (sec_x_u sec)"
    by (simp_all add: sec_def pub_def)
  have bound: "rec_extra_len rec \<le> OPAQUE_MAX_EXTRA_BYTES"
    by (simp add: rec(4))
  have place: "unat (8192 :: 64 word) + 296 + unat (rec_extra_len rec) < 2 ^ 64"
    by (simp add: rec(4))
  have room: "160 + unat (rec_extra_len rec) \<le> length (resp_c (sample_resp0 160))"
    by (simp add: rec(4) sample_resp0_def)
  have out: "out_ClrEnv sample_out = None" by (simp add: sample_out_def)
  note fin = login_from_record [OF ref_locks ref_tags_32 ref_points_32 ref_dh_commutes
      ref_oprf_unblinds ref_products_valid rec(5) lens rec(3) oprf' kdf blind2 inv2 secs srv
      bound place room out]
  obtain out' where fin': "opaque_session_usr_finish ?S [5] 8192 resp sec None sample_ids None
      sample_out 0 = (Inr (), out')"
    using fin by blast
  have ri: "\<forall>n. crypto_scalarmult_ristretto255 ?S n (replicate 32 0) = None"
    by (simp add: ref_refuses_identity)
  have xi: "\<forall>n. crypto_scalarmult ?S n (replicate 32 0) = None"
    by (simp add: ref_rejects_zero_product)
  note inj = identity_injection_aborts [OF ri xi, where x_s = "replicate 32 5"
      and nonceS = "replicate 32 0" and pub = pub and rec = rec and ids = sample_ids
      and infos = None and ?resp0.0 = "sample_resp0 160" and st = None and pw = "[5]" and rp = 8192
      and resp = resp and sec = sec and key = None and out = sample_out and n = 0]
  show ?thesis
    using e1 [unfolded k_s_def p_u_def nonce_def] e4 e5 fin' ref_accepts_identity
      inj [THEN conjunct1] inj [THEN conjunct2, THEN conjunct1]
      inj [THEN conjunct2, THEN conjunct2, THEN conjunct1]
      inj [THEN conjunct2, THEN conjunct2, THEN conjunct2]
    by - (rule exI [of _ rec], rule exI [of _ None], rule exI [of _ sec], rule exI [of _ pub],
        rule exI [of _ resp], rule exI [of _ sk], rule exI [of _ km3], rule exI [of _ st'],
        rule exI [of _ out'], intro conjI, assumption+)
qed

section \<open>The transcript under the tag of the server\<close>

text \<open>
  C3. Whenever \<open>opaque_session_srv\<close> succeeds, the tag \<open>auth\<close> it sends is the HMAC
  under \<open>Km2\<close> of the hash of the transcript that the client recomputes (the transcript
  for \<open>infos\<close> with \<open>info3\<close> and \<open>einfo3\<close> cleared) followed by the bytes of
  \<open>info3\<close> and of \<open>einfo3\<close> that the caller passed to the server: the code hands
  \<open>infos\<close> to \<open>get_xcript\<close> as it is, so the two fields are part of the hashed
  transcript.
\<close>

theorem server_auth_covers_info3:
  assumes "opaque_session_srv S x_s nonceS pub rec ids infos resp0 st = Inr (resp, sk, km3, st')"
  shows "\<exists>keys.
      opaque_server_3dh S (rec_p_s rec) x_s (rec_P_u rec) (pub_X_u pub)
          (calc_info S (pub_nonceU pub) nonceS ids) = Some keys
      \<and> resp_auth resp = crypto_auth_hmacsha256 S
          (crypto_hash_sha256 S
            (xcript_input (pub_alpha pub) (pub_nonceU pub) (pub_X_u pub) (resp_beta resp)
               (resp_c resp) (unat (resp_extra_len resp + 160)) nonceS (resp_X_s resp)
               (without_info3 infos)
             @ app_info infos info3 info3_len @ app_info infos einfo3 einfo3_len))
          (keys_km2 keys)"
  using assms
  by (auto simp: opaque_session_srv_def Let_def get_xcript_eq xcript_input_info3 [symmetric]
      split: if_splits option.splits)


theorem server_auth_covers_info3_witness:
  "\<exists>resp sk km3 st'.
      opaque_session_srv ref_sodium (replicate 32 1) (replicate 32 0)
          \<lparr> pub_alpha = replicate 32 1, pub_X_u = replicate 32 1, pub_nonceU = replicate 32 0 \<rparr>
          \<lparr> rec_k_s = replicate 32 1, rec_p_s = replicate 32 1, rec_P_u = replicate 32 1,
            rec_P_s = replicate 32 1, rec_extra_len = 0, rec_c = replicate 160 0 \<rparr>
          \<lparr> idU_len = 0, idU = None, idS_len = 0, idS = None \<rparr>
          (Some \<lparr> info1 = None, info1_len = 0, info2 = None, info2_len = 0, einfo2 = None,
                  einfo2_len = 0, info3 = Some [0x33], info3_len = 1, einfo3 = None, einfo3_len = 0 \<rparr>)
          \<lparr> resp_beta = [], resp_X_s = [], resp_nonceS = [], resp_auth = [], resp_extra_len = 0,
            resp_c = replicate 160 0 \<rparr> None
        = Inr (resp, sk, km3, st')
      \<and> (\<exists>keys :: Opaque_Keys. resp_auth resp = crypto_auth_hmacsha256 ref_sodium
          (crypto_hash_sha256 ref_sodium
            (xcript_input (replicate 32 1) (replicate 32 0) (replicate 32 1) (resp_beta resp)
               (resp_c resp) (unat (resp_extra_len resp + 160)) (replicate 32 0) (resp_X_s resp)
               (Some \<lparr> info1 = None, info1_len = 0, info2 = None, info2_len = 0, einfo2 = None,
                  einfo2_len = 0, info3 = None, info3_len = 1, einfo3 = None, einfo3_len = 0 \<rparr>)
             @ [0x33]))
          (keys_km2 keys))"
proof -
  let ?pub = "\<lparr> pub_alpha = replicate 32 1, pub_X_u = replicate 32 1, pub_nonceU = replicate 32 0 \<rparr>"
  let ?rec = "\<lparr> rec_k_s = replicate 32 1, rec_p_s = replicate 32 1, rec_P_u = replicate 32 1,
            rec_P_s = replicate 32 1, rec_extra_len = 0, rec_c = replicate 160 0 \<rparr>"
  let ?ids = "\<lparr> idU_len = 0, idU = None, idS_len = 0, idS = None \<rparr>"
  let ?infos = "Some \<lparr> info1 = None, info1_len = 0, info2 = None, info2_len = 0, einfo2 = None,
                  einfo2_len = 0, info3 = Some [0x33], info3_len = 1, einfo3 = None, einfo3_len = 0 \<rparr>"
  let ?resp0 = "\<lparr> resp_beta = [], resp_X_s = [], resp_nonceS = [], resp_auth = [], resp_extra_len = 0,
            resp_c = replicate 160 0 \<rparr>"
  obtain keys where keys: "opaque_server_3dh ref_sodium (rec_p_s ?rec) (replicate 32 1) (rec_P_u ?rec)
      (pub_X_u ?pub) (calc_info ref_sodium (pub_nonceU ?pub) (replicate 32 0) ?ids) = Some keys"
    by (simp add: opaque_server_3dh_def ref_mult_ones)
  have valid: "crypto_core_ristretto255_is_valid_point ref_sodium (pub_alpha ?pub)"
    by (simp add: ref_sodium_def ref_is_valid_point_def)
  have lock: "sodium_mlock ref_sodium ''x_s''" by (simp add: ref_sodium_def)
  have beta: "crypto_scalarmult_ristretto255 ref_sodium (rec_k_s ?rec) (pub_alpha ?pub)
      = Some (replicate 32 2)"
    by (simp add: ref_rmult_ones)
  obtain resp sk km3 st' where run: "opaque_session_srv ref_sodium (replicate 32 1) (replicate 32 0)
      ?pub ?rec ?ids ?infos ?resp0 None = Inr (resp, sk, km3, st')"
    using session_srv_result [OF valid lock beta keys, of ?infos ?resp0 None] by simp
  from server_auth_covers_info3 [OF run]
  obtain keys' :: Opaque_Keys where "resp_auth resp = crypto_auth_hmacsha256 ref_sodium
          (crypto_hash_sha256 ref_sodium
            (xcript_input (pub_alpha ?pub) (pub_nonceU ?pub) (pub_X_u ?pub) (resp_beta resp)
               (resp_c resp) (unat (resp_extra_len resp + 160)) (replicate 32 0) (resp_X_s resp)
               (without_info3 ?infos)
             @ app_info ?infos info3 info3_len @ app_info ?infos einfo3 einfo3_len))
          (keys_km2 keys')"
    by blast
  then have "resp_auth resp = crypto_auth_hmacsha256 ref_sodium
          (crypto_hash_sha256 ref_sodium
            (xcript_input (replicate 32 1) (replicate 32 0) (replicate 32 1) (resp_beta resp)
               (resp_c resp) (unat (resp_extra_len resp + 160)) (replicate 32 0) (resp_X_s resp)
               (Some \<lparr> info1 = None, info1_len = 0, info2 = None, info2_len = 0, einfo2 = None,
                  einfo2_len = 0, info3 = None, info3_len = 1, einfo3 = None, einfo3_len = 0 \<rparr>)
             @ [0x33]))
          (keys_km2 keys')"
    by (simp add: without_info3_def app_info_def)
  then have concl: "\<exists>keys :: Opaque_Keys. resp_auth resp = crypto_auth_hmacsha256 ref_sodium
          (crypto_hash_sha256 ref_sodium
            (xcript_input (replicate 32 1) (replicate 32 0) (replicate 32 1) (resp_beta resp)
               (resp_c resp) (unat (resp_extra_len resp + 160)) (replicate 32 0) (resp_X_s resp)
               (Some \<lparr> info1 = None, info1_len = 0, info2 = None, info2_len = 0, einfo2 = None,
                  einfo2_len = 0, info3 = None, info3_len = 1, einfo3 = None, einfo3_len = 0 \<rparr>)
             @ [0x33]))
          (keys_km2 keys)"
    by (rule exI)
  show ?thesis
    by (rule exI [of _ resp], rule exI [of _ sk], rule exI [of _ km3], rule exI [of _ st'],
        rule conjI [OF run concl])
qed

section \<open>The same \<open>rwd\<close> at private registration and at login\<close>

text \<open>
  C10. With a non-null \<open>rwd\<close> pointer, \<open>opaque_private_init_usr_respond\<close> and a
  successful \<open>opaque_session_usr_finish\<close> both write the generic hash of \<open>rw\<close>
  under the key \<^verbatim>\<open>"rwd"\<close>, where \<open>rw\<close> is the password hash of the OPRF value of
  \<open>pw\<close> under \<open>k_s\<close> and the optional key. For a record of the private
  registration completed by \<open>opaque_private_init_srv_finish\<close> and a login with the
  same \<open>pw\<close> and \<open>key\<close> against it, the two outputs are the same 32 bytes. The
  primitive is asked to unblind: the inverse of the blinding scalar takes the evaluated
  point to the OPRF value.
\<close>

theorem rwd_stable:
  assumes unbl: "oprf_unblinds S"
    and reg_start: "opaque_private_init_usr_start S r pw = Some (r1, alpha)"
    and reg_srv: "opaque_private_init_srv_respond S k_s p_s alpha = Inr (rsec, rpub)"
    and reg: "opaque_private_init_usr_respond S p_u nonce pw r1 rpub extra extra_len key ClrEnv
                ClrEnv_len rec_ptr rec0 (Some b1) export_key = Inr (rec1, rwd_reg, ek)"
    and start: "opaque_session_usr_start S r' x_u nonceU pw = Inr (sec, pub)"
    and srv: "opaque_session_srv S x_s nonceS pub (opaque_private_init_srv_finish rsec rpub rec1)
                ids infos_s resp0 st = Inr (resp, sk, km3, st')"
    and buf: "out_rwd out = Some b2"
    and fin: "opaque_session_usr_finish S pw resp_ptr resp sec key ids infos out ClrEnv_len'
                = (Inr (), out')"
  shows "\<exists>hk rw.
      crypto_scalarmult_ristretto255 S k_s (hash_to_group S pw) = Some hk
      \<and> crypto_pwhash S 32
            (crypto_generichash S 32 (pw @ take 32 hk) (case key of None \<Rightarrow> [] | Some b \<Rightarrow> b))
            (replicate 32 0) = Some rw
      \<and> rwd_reg = Some (crypto_generichash S 32 rw rwd_key)
      \<and> out_rwd out' = Some (crypto_generichash S 32 rw rwd_key)"
proof -
  let ?h = "hash_to_group S pw"
  from reg_start have r1: "r1 = r"
    and blind1: "crypto_scalarmult_ristretto255 S r ?h = Some alpha"
    by (auto simp: opaque_private_init_usr_start_def sphinx_blindPW_def split: option.splits)
  from private_init_srv_respond_InrD [OF reg_srv]
  have beta1: "crypto_scalarmult_ristretto255 S k_s alpha = Some (rpub_beta rpub)"
    and rsec: "rsec = \<lparr> rsec_p_s = p_s, rsec_k_s = k_s \<rparr>"
    by simp_all
  from private_init_usr_respond_InrD [OF reg] obtain ir h0 rw where
    inv1: "crypto_core_ristretto255_scalar_invert S r1 = Some ir"
    and unb1: "crypto_scalarmult_ristretto255 S ir (rpub_beta rpub) = Some h0"
    and kdf1: "crypto_pwhash S 32
            (crypto_generichash S 32 (pw @ take 32 h0) (case key of None \<Rightarrow> [] | Some b \<Rightarrow> b))
            (replicate 32 0) = Some rw"
    and rwd1: "rwd_reg = map_option (\<lambda>_. crypto_generichash S 32 rw rwd_key) (Some b1)"
    by blast
  have oprf: "crypto_scalarmult_ristretto255 S k_s ?h = Some h0"
    using unbl inv1 blind1 beta1 unb1 unfolding oprf_unblinds_def r1 by metis
  from session_usr_start_InrD [OF start]
  have blind2: "crypto_scalarmult_ristretto255 S r' ?h = Some (pub_alpha pub)"
    and sec: "sec_r sec = r'"
    by (simp, metis Opaque_UserSession_Secret.select_convs(1))
  from session_srv_InrD [OF srv]
  have beta2: "crypto_scalarmult_ristretto255 S k_s (pub_alpha pub) = Some (resp_beta resp)"
    by (auto simp: opaque_private_init_srv_finish_def rsec)
  from usr_finish_InrD [OF fin] obtain ir' h0' rw' where
    inv2: "crypto_core_ristretto255_scalar_invert S (sec_r sec) = Some ir'"
    and unb2: "crypto_scalarmult_ristretto255 S ir' (resp_beta resp) = Some h0'"
    and kdf2: "crypto_pwhash S 32
            (crypto_generichash S 32 (pw @ take 32 h0') (case key of None \<Rightarrow> [] | Some b \<Rightarrow> b))
            (replicate 32 0) = Some rw'"
    and rwd2: "out_rwd out' = map_option (\<lambda>_. crypto_generichash S 32 rw' rwd_key) (out_rwd out)"
    by blast
  have "crypto_scalarmult_ristretto255 S k_s ?h = Some h0'"
    using unbl inv2 blind2 beta2 unb2 unfolding oprf_unblinds_def sec by metis
  with oprf have "h0' = h0" by simp
  with kdf1 kdf2 have "rw' = rw" by simp
  with rwd1 rwd2 buf oprf kdf1 show ?thesis by simp
qed

theorem rwd_stable_witness:
  "\<exists>rsec rpub rec1 rwd_reg ek sec pub resp sk km3 st' out'.
     opaque_private_init_usr_start ref_sodium (replicate 32 2) [5]
       = Some (replicate 32 2, [3, 7] @ replicate 30 2)
     \<and> opaque_private_init_srv_respond ref_sodium (replicate 32 1) (replicate 32 1)
         ([3, 7] @ replicate 30 2) = Inr (rsec, rpub)
     \<and> opaque_private_init_usr_respond ref_sodium (replicate 32 7) (replicate 32 7) [5]
         (replicate 32 2) rpub [] 0 None None 0 4096 (sample_rec0 160) (Some (replicate 32 0)) None
         = Inr (rec1, rwd_reg, ek)
     \<and> opaque_session_usr_start ref_sodium (replicate 32 4) (replicate 32 9) (replicate 32 0) [5]
         = Inr (sec, pub)
     \<and> opaque_session_srv ref_sodium (replicate 32 5) (replicate 32 0) pub
         (opaque_private_init_srv_finish rsec rpub rec1) sample_ids None (sample_resp0 160) None
         = Inr (resp, sk, km3, st')
     \<and> opaque_session_usr_finish ref_sodium [5] 8192 resp sec None sample_ids None sample_out 0
         = (Inr (), out')
     \<and> rwd_reg \<noteq> None \<and> out_rwd out' = rwd_reg"
proof -
  let ?S = ref_sodium
  define k_s :: bytes where "k_s = replicate 32 1"
  define p_u :: bytes where "p_u = replicate 32 7"
  define nonce :: bytes where "nonce = replicate 32 7"
  define alpha :: bytes where "alpha = [3, 7] @ replicate 30 2"
  define beta :: bytes where "beta = [4, 8] @ replicate 30 3"
  define hk :: bytes where "hk = [2, 6] @ replicate 30 1"
  define rsec where "rsec = \<lparr> rsec_p_s = k_s, rsec_k_s = k_s \<rparr>"
  define rpub where "rpub = \<lparr> rpub_beta = beta, rpub_P_s = crypto_scalarmult_base ?S k_s \<rparr>"
  define rw where "rw = map2 (+) (fitn 32 (crypto_generichash ?S 32 ([5] @ take 32 hk) []))
                          (fitn 32 (replicate 32 0))"
  define sec where "sec = \<lparr> sec_r = replicate 32 4, sec_x_u = replicate 32 9,
                             sec_nonceU = replicate 32 0, sec_alpha = [5, 9] @ replicate 30 4 \<rparr>"
  define pub where "pub = \<lparr> pub_alpha = [5, 9] @ replicate 30 4,
                             pub_X_u = crypto_scalarmult_base ?S (replicate 32 9),
                             pub_nonceU = replicate 32 0 \<rparr>"
  have blind: "crypto_scalarmult_ristretto255 ?S (replicate 32 2) (hash_to_group ?S [5]) = Some alpha"
    unfolding alpha_def by (rule ref_alpha_reg)
  have eval: "crypto_scalarmult_ristretto255 ?S k_s alpha = Some beta"
    unfolding alpha_def beta_def k_s_def by (rule ref_beta_reg)
  have oprf: "crypto_scalarmult_ristretto255 ?S k_s (hash_to_group ?S [5]) = Some hk"
    unfolding hk_def k_s_def by (rule ref_hk)
  have e1: "opaque_private_init_usr_start ?S (replicate 32 2) [5] = Some (replicate 32 2, alpha)"
    by (simp add: opaque_private_init_usr_start_def sphinx_blindPW_def blind)
  have valid_alpha: "crypto_core_ristretto255_is_valid_point ?S alpha"
    using ref_products_valid blind unfolding products_valid_def by blast
  have e2: "opaque_private_init_srv_respond ?S k_s k_s alpha = Inr (rsec, rpub)"
    by (simp add: opaque_private_init_srv_respond_def valid_alpha eval rsec_def rpub_def)
  have valid_beta: "crypto_core_ristretto255_is_valid_point ?S (rpub_beta rpub)"
    using ref_products_valid eval unfolding products_valid_def rpub_def by auto
  have "crypto_scalarmult_ristretto255 ?S (replicate 32 254) beta
      = crypto_scalarmult_ristretto255 ?S k_s (hash_to_group ?S [5])"
    using ref_oprf_unblinds ref_invert_reg blind eval unfolding oprf_unblinds_def by blast
  then have unb: "crypto_scalarmult_ristretto255 ?S (replicate 32 254) (rpub_beta rpub) = Some hk"
    by (simp add: oprf rpub_def)
  have kdf: "crypto_pwhash ?S 32
       (crypto_generichash ?S 32 ([5] @ take 32 hk) (case None of None \<Rightarrow> [] | Some b \<Rightarrow> b))
       (replicate 32 0) = Some rw"
    by (simp add: ref_pwhash_Some rw_def)
  define rec1 where "rec1 = (sample_rec0 160) \<lparr> rec_P_u := crypto_scalarmult_base ?S p_u,
      rec_extra_len := 0,
      rec_c := sealed ?S rw nonce (p_u @ crypto_scalarmult_base ?S p_u @ rpub_P_s rpub @ []) [] \<rparr>"
  have lenP: "length (rpub_P_s rpub) = 32"
    using ref_points_32 by (simp add: rpub_def points_32_def)
  have e3: "opaque_private_init_usr_respond ?S p_u nonce [5] (replicate 32 2) rpub [] 0 None None 0
       4096 (sample_rec0 160) (Some (replicate 32 0)) None
       = Inr (rec1, Some (crypto_generichash ?S 32 rw rwd_key), None)"
    using private_init_usr_respond_result [OF ref_locks ref_points_32 ref_tags_32 valid_beta ref_invert_reg unb kdf,
        of p_u nonce 0 "[]" None 0 "[]" 4096 "sample_rec0 160" "Some (replicate 32 0)" None]
      lenP
    by (simp add: p_u_def [symmetric] nonce_def [symmetric] rec1_def)
      (simp add: p_u_def nonce_def sample_rec0_def)
  define rec where "rec = opaque_private_init_srv_finish rsec rpub rec1"
  have rec: "rec_k_s rec = k_s" "rec_p_s rec = k_s" "rec_P_u rec = crypto_scalarmult_base ?S p_u"
    "rec_extra_len rec = 0"
    "rec_c rec = sealed ?S rw nonce
       (p_u @ crypto_scalarmult_base ?S p_u @ crypto_scalarmult_base ?S (rec_p_s rec) @ []) [] @ []"
    by (simp_all add: rec_def opaque_private_init_srv_finish_def rsec_def rpub_def rec1_def
        sample_rec0_def)
  have blind2: "crypto_scalarmult_ristretto255 ?S (sec_r sec) (hash_to_group ?S [5])
      = Some (pub_alpha pub)"
    using ref_alpha_login by (simp add: sec_def pub_def)
  have e4: "opaque_session_usr_start ?S (replicate 32 4) (replicate 32 9) (replicate 32 0) [5]
      = Inr (sec, pub)"
    using ref_alpha_login
    by (simp add: opaque_session_usr_start_def sphinx_blindPW_def sec_def pub_def)
  have valid2: "crypto_core_ristretto255_is_valid_point ?S (pub_alpha pub)"
    using ref_products_valid blind2 unfolding products_valid_def by blast
  have lock: "sodium_mlock ?S ''x_s''" by (simp add: ref_sodium_def)
  have beta2: "crypto_scalarmult_ristretto255 ?S (rec_k_s rec) (pub_alpha pub)
      = Some ([6, 10] @ replicate 30 5)"
    using ref_beta_login by (simp add: rec(1) k_s_def pub_def)
  obtain keys where keys: "opaque_server_3dh ?S (rec_p_s rec) (replicate 32 5) (rec_P_u rec)
      (pub_X_u pub) (calc_info ?S (pub_nonceU pub) (replicate 32 0) sample_ids) = Some keys"
    by (simp add: opaque_server_3dh_def rec(2,3) k_s_def p_u_def pub_def ref_base
        ref_server_products)
  obtain resp sk km3 st' where e5: "opaque_session_srv ?S (replicate 32 5) (replicate 32 0) pub rec
      sample_ids None (sample_resp0 160) None = Inr (resp, sk, km3, st')"
    using session_srv_result [OF valid2 lock beta2 keys, of None "sample_resp0 160" None] by simp
  then have srv: "opaque_session_srv ?S (replicate 32 5) (replicate 32 0) pub rec
      sample_ids (without_info3 None) (sample_resp0 160) None = Inr (resp, sk, km3, st')"
    by (simp add: without_info3_def)
  have lens: "length nonce = 32" "length p_u = 32" "length ([] :: bytes) = unat (rec_extra_len rec)"
    by (simp_all add: nonce_def p_u_def rec(4))
  have oprf': "crypto_scalarmult_ristretto255 ?S (rec_k_s rec) (hash_to_group ?S [5]) = Some hk"
    by (simp add: rec(1) oprf)
  have inv2: "crypto_core_ristretto255_scalar_invert ?S (sec_r sec) = Some (replicate 32 252)"
    using ref_invert_login by (simp add: sec_def)
  have secs: "sec_alpha sec = pub_alpha pub" "sec_nonceU sec = pub_nonceU pub"
      "pub_X_u pub = crypto_scalarmult_base ?S (sec_x_u sec)"
    by (simp_all add: sec_def pub_def)
  have bound: "rec_extra_len rec \<le> OPAQUE_MAX_EXTRA_BYTES"
    by (simp add: rec(4))
  have place: "unat (8192 :: 64 word) + 296 + unat (rec_extra_len rec) < 2 ^ 64"
    by (simp add: rec(4))
  have room: "160 + unat (rec_extra_len rec) \<le> length (resp_c (sample_resp0 160))"
    by (simp add: rec(4) sample_resp0_def)
  have out: "out_ClrEnv sample_out = None" by (simp add: sample_out_def)
  note fin = login_from_record [OF ref_locks ref_tags_32 ref_points_32 ref_dh_commutes
      ref_oprf_unblinds ref_products_valid rec(5) lens rec(3) oprf' kdf blind2 inv2 secs srv
      bound place room out]
  obtain out' where fin': "opaque_session_usr_finish ?S [5] 8192 resp sec None sample_ids None
      sample_out 0 = (Inr (), out')"
    using fin by blast
  have buf: "out_rwd sample_out = Some (replicate 32 0)" by (simp add: sample_out_def)
  from rwd_stable [OF ref_oprf_unblinds e1 e2 e3 e4 e5 [unfolded rec_def] buf fin']
  have same: "Some (crypto_generichash ?S 32 rw rwd_key) \<noteq> None"
    "out_rwd out' = Some (crypto_generichash ?S 32 rw rwd_key)"
    by auto
  show ?thesis
    using e1 [unfolded alpha_def] e2 [unfolded alpha_def k_s_def] e3 [unfolded p_u_def nonce_def]
      e4 e5 [unfolded rec_def] fin' same
    by - (rule exI [of _ rsec], rule exI [of _ rpub], rule exI [of _ rec1],
        rule exI [of _ "Some (crypto_generichash ?S 32 rw rwd_key)"], rule exI [of _ None],
        rule exI [of _ sec], rule exI [of _ pub], rule exI [of _ resp], rule exI [of _ sk],
        rule exI [of _ km3], rule exI [of _ st'], rule exI [of _ out'], intro conjI, assumption+)
qed

section \<open>The bound on \<open>extra_len\<close> at registration\<close>

text \<open>
  C8. Neither \<open>opaque_init_srv\<close> nor \<open>opaque_private_init_usr_respond\<close> compares
  \<open>extra_len\<close> with \<open>OPAQUE_MAX_EXTRA_BYTES\<close>: with an \<open>extra_len\<close> above the
  maximum, buffers that hold that many bytes and an envelope that fits into the address
  space, both return 0 and store \<open>extra_len\<close> in the record. Only
  \<open>opaque_session_usr_finish\<close> has the comparison.
\<close>

theorem registration_accepts_oversized_extra:
  assumes locks: "locks S" and pts: "points_32 S" and tags: "tags_32 S"
    and big: "OPAQUE_MAX_EXTRA_BYTES < extra_len"
    and draws: "length p_u = 32" "length nonce = 32"
    and extra: "unat extra_len \<le> length extra"
    and clr: "ClrEnv = (if ClrEnv_len = 0 then None else Some cl)" "unat ClrEnv_len \<le> length cl"
    and place: "unat rec_ptr + 296 + unat extra_len + unat ClrEnv_len < 2 ^ 64"
    and room: "160 + unat extra_len + unat ClrEnv_len \<le> length (rec_c rec0)"
    and oprf: "sphinx_oprf S pw k_s key = Some rw0"
    and kdf: "crypto_pwhash S 32 rw0 (replicate 32 0) = Some rw"
    and valid: "crypto_core_ristretto255_is_valid_point S (rpub_beta pub)"
    and inv: "crypto_core_ristretto255_scalar_invert S r = Some ir"
    and unb: "crypto_scalarmult_ristretto255 S ir (rpub_beta pub) = Some h0"
    and kdf': "crypto_pwhash S 32
                (crypto_generichash S 32 (pw @ take 32 h0) (case key of None \<Rightarrow> [] | Some b \<Rightarrow> b))
                (replicate 32 0) = Some rw'"
    and P_s: "length (rpub_P_s pub) = 32"
  shows "(\<exists>rec ek. opaque_init_srv S k_s p_s p_u nonce pw extra extra_len key ClrEnv ClrEnv_len
                      rec_ptr rec0 export_key = Inr (rec, ek)
                  \<and> rec_extra_len rec = extra_len)
       \<and> (\<exists>rec rwd' ek. opaque_private_init_usr_respond S p_u nonce pw r pub extra extra_len key
                      ClrEnv ClrEnv_len rec_ptr rec0 rwd export_key = Inr (rec, rwd', ek)
                  \<and> rec_extra_len rec = extra_len)"
  using init_srv_result [OF locks pts tags oprf kdf draws extra clr place room, of p_s export_key]
    private_init_usr_respond_result [OF locks pts tags valid inv unb kdf' draws P_s extra clr place
      room, of rwd export_key]
  by simp

theorem registration_accepts_oversized_extra_witness:
  "(\<exists>rec ek. opaque_init_srv ref_sodium (replicate 32 1) (replicate 32 1) (replicate 32 7)
                 (replicate 32 7) [5] (replicate 1025 7) 1025 None None 0 4096 (sample_rec0 1185)
                 None = Inr (rec, ek)
             \<and> rec_extra_len rec = 1025)
   \<and> (\<exists>rec rwd' ek. opaque_private_init_usr_respond ref_sodium (replicate 32 7) (replicate 32 7)
                 [5] (replicate 32 2)
                 \<lparr> rpub_beta = [4, 8] @ replicate 30 3, rpub_P_s = ref_scalarmult_base (replicate 32 1) \<rparr>
                 (replicate 1025 7) 1025 None None 0 4096 (sample_rec0 1185) None None
                 = Inr (rec, rwd', ek)
             \<and> rec_extra_len rec = 1025)
   \<and> OPAQUE_MAX_EXTRA_BYTES < 1025"
proof -
  let ?S = ref_sodium
  let ?pub = "\<lparr> rpub_beta = [4, 8] @ replicate 30 3, rpub_P_s = ref_scalarmult_base (replicate 32 1) \<rparr>"
  have big: "OPAQUE_MAX_EXTRA_BYTES < 1025" by (simp add: OPAQUE_MAX_EXTRA_BYTES_def)
  have draws: "length (replicate 32 7 :: bytes) = 32" by simp
  have extra: "unat (1025 :: 64 word) \<le> length (replicate 1025 7 :: bytes)" by simp
  have clr: "None = (if (0 :: 64 word) = 0 then None else Some ([] :: bytes))"
    "unat (0 :: 64 word) \<le> length ([] :: bytes)" by simp_all
  have place: "unat (4096 :: 64 word) + 296 + unat (1025 :: 64 word) + unat (0 :: 64 word) < 2 ^ 64"
    by simp
  have room: "160 + unat (1025 :: 64 word) + unat (0 :: 64 word) \<le> length (rec_c (sample_rec0 1185))"
    by (simp add: sample_rec0_def)
  have oprf: "sphinx_oprf ?S [5] (replicate 32 1) None
      = Some (crypto_generichash ?S 32 ([5] @ take 32 ([2, 6] @ replicate 30 1)) [])"
    by (simp add: sphinx_oprf_def ref_hk del: append.simps)
  have kdf: "crypto_pwhash ?S 32 (crypto_generichash ?S 32 ([5] @ take 32 ([2, 6] @ replicate 30 1)) [])
      (replicate 32 0)
      = Some (map2 (+) (fitn 32 (crypto_generichash ?S 32 ([5] @ take 32 ([2, 6] @ replicate 30 1)) []))
                (fitn 32 (replicate 32 0)))"
    by (rule ref_pwhash_Some)
  have valid: "crypto_core_ristretto255_is_valid_point ?S (rpub_beta ?pub)"
    using ref_valid_beta_reg by simp
  have unb: "crypto_scalarmult_ristretto255 ?S (replicate 32 254) (rpub_beta ?pub)
      = Some ([2, 6] @ replicate 30 1)"
    using ref_unblind_reg by simp
  have kdf': "crypto_pwhash ?S 32
      (crypto_generichash ?S 32 ([5] @ take 32 ([2, 6] @ replicate 30 1))
         (case None of None \<Rightarrow> [] | Some b \<Rightarrow> b))
      (replicate 32 0)
      = Some (map2 (+) (fitn 32 (crypto_generichash ?S 32 ([5] @ take 32 ([2, 6] @ replicate 30 1)) []))
                (fitn 32 (replicate 32 0)))"
    unfolding option.case by (rule ref_pwhash_Some)
  have P_s: "length (rpub_P_s ?pub) = 32"
    by (simp add: ref_scalarmult_base_def)
  from registration_accepts_oversized_extra [OF ref_locks ref_points_32 ref_tags_32 big draws draws
    extra clr place room oprf kdf valid ref_invert_reg unb kdf' P_s,
    of "replicate 32 1" None None] big
  show ?thesis by simp
qed

section \<open>What a failed check of the server's tag leaves behind\<close>

text \<open>
  C4. Whenever \<open>opaque_session_usr_finish\<close> fails at the check of the server's tag
  (the HMAC under \<open>Km2\<close>) and the caller passed an \<open>export_key\<close> buffer, that buffer
  holds the export key of the envelope when the call returns: \<open>opaque_envelope_open\<close>
  wrote it before the check and the failure path clears \<open>rwd\<close> only. \<open>rwd\<close> is zero
  and \<open>sk\<close> is as it was before the call.
\<close>

theorem auth_failure_leaves_export_key:
  assumes fail: "opaque_session_usr_finish S pw resp_ptr resp sec key ids infos out ClrEnv_len
                   = (Inl ServerAuthFailed, out')"
    and buf: "out_export_key out = Some b"
  shows "\<exists>ir h0 rw.
      crypto_core_ristretto255_scalar_invert S (sec_r sec) = Some ir
      \<and> crypto_scalarmult_ristretto255 S ir (resp_beta resp) = Some h0
      \<and> crypto_pwhash S 32
            (crypto_generichash S 32 (pw @ take 32 h0) (case key of None \<Rightarrow> [] | Some b \<Rightarrow> b))
            (replicate 32 0) = Some rw
      \<and> out_export_key out'
          = Some (take 32 (drop (unat (96 + resp_extra_len resp) + 32)
                    (crypto_kdf_hkdf_sha256_expand S (64 + unat (96 + resp_extra_len resp))
                       (take 32 (resp_c resp) @ EnvU) rw)))
      \<and> out_rwd out' = map_option (\<lambda>_. replicate 32 0) (out_rwd out)
      \<and> out_sk out' = out_sk out"
proof -
  from usr_finish_server_auth_failed [OF fail] obtain ir h0 rw SecEnv ClrEnv ek where
    inv: "crypto_core_ristretto255_scalar_invert S (sec_r sec) = Some ir"
    and unb: "crypto_scalarmult_ristretto255 S ir (resp_beta resp) = Some h0"
    and kdf: "crypto_pwhash S 32
            (crypto_generichash S 32 (pw @ take 32 h0) (case key of None \<Rightarrow> [] | Some b \<Rightarrow> b))
            (replicate 32 0) = Some rw"
    and opn: "opaque_envelope_open S (Some rw) (resp_ptr + 136) (resp_c resp)
            (Some (replicate (OPAQUE_BLOB_LEN + unat (resp_extra_len resp) - 32) 0))
            (32 + 32 * 2 + resp_extra_len resp) (out_ClrEnv out) ClrEnv_len (out_export_key out)
          = Inr (SecEnv, ClrEnv, ek)"
    and out': "out' = out \<lparr> out_ClrEnv := ClrEnv, out_export_key := ek,
                      out_rwd := (case out_rwd out of None \<Rightarrow> None | Some _ \<Rightarrow> Some (replicate 32 0)) \<rparr>"
    by blast
  from envelope_open_export_key [OF opn] buf
  have ek: "ek = Some (take 32 (drop (unat (96 + resp_extra_len resp) + 32)
                    (crypto_kdf_hkdf_sha256_expand S (64 + unat (96 + resp_extra_len resp))
                       (take 32 (resp_c resp) @ EnvU) rw)))"
    by simp
  have rwd: "out_rwd out' = map_option (\<lambda>_. replicate 32 0) (out_rwd out)"
    by (cases "out_rwd out") (simp_all add: out')
  from inv unb kdf ek rwd show ?thesis by (auto simp: out')
qed

theorem auth_failure_leaves_export_key_witness:
  "\<exists>rec ek sec pub resp sk km3 st' out'.
     opaque_init_srv ref_sodium (replicate 32 1) (replicate 32 1) (replicate 32 7) (replicate 32 7)
         [5] [] 0 None None 0 4096 (sample_rec0 160) (Some (replicate 32 0)) = Inr (rec, ek)
     \<and> opaque_session_usr_start ref_sodium (replicate 32 4) (replicate 32 9) (replicate 32 0) [5]
         = Inr (sec, pub)
     \<and> opaque_session_srv ref_sodium (replicate 32 5) (replicate 32 0) pub rec sample_ids None
         (sample_resp0 160) None = Inr (resp, sk, km3, st')
     \<and> opaque_session_usr_finish ref_sodium [5] 8192
         (resp \<lparr> resp_auth := map ((+) 1) (resp_auth resp) \<rparr>) sec None sample_ids None
         sample_out 0 = (Inl ServerAuthFailed, out')
     \<and> out_export_key out' \<noteq> None \<and> out_export_key out' = ek"
proof -
  let ?S = ref_sodium
  define k_s :: bytes where "k_s = replicate 32 1"
  define p_u :: bytes where "p_u = replicate 32 7"
  define nonce :: bytes where "nonce = replicate 32 7"
  define hk :: bytes where "hk = [2, 6] @ replicate 30 1"
  define rw where "rw = map2 (+) (fitn 32 (crypto_generichash ?S 32 ([5] @ take 32 hk) []))
                          (fitn 32 (replicate 32 0))"
  define sec where "sec = \<lparr> sec_r = replicate 32 4, sec_x_u = replicate 32 9,
                             sec_nonceU = replicate 32 0, sec_alpha = [5, 9] @ replicate 30 4 \<rparr>"
  define pub where "pub = \<lparr> pub_alpha = [5, 9] @ replicate 30 4,
                             pub_X_u = crypto_scalarmult_base ?S (replicate 32 9),
                             pub_nonceU = replicate 32 0 \<rparr>"
  define rec where "rec = (sample_rec0 160) \<lparr> rec_k_s := k_s, rec_p_s := k_s,
      rec_P_u := crypto_scalarmult_base ?S p_u, rec_P_s := crypto_scalarmult_base ?S k_s,
      rec_extra_len := 0,
      rec_c := sealed ?S rw nonce
                 (p_u @ crypto_scalarmult_base ?S p_u @ crypto_scalarmult_base ?S k_s) [] \<rparr>"
  define ek where "ek = Some (export_key_of ?S rw nonce 96)"
  have oprf: "crypto_scalarmult_ristretto255 ?S k_s (hash_to_group ?S [5]) = Some hk"
    unfolding hk_def k_s_def by (rule ref_hk)
  have oprf0: "sphinx_oprf ?S [5] k_s None = Some (crypto_generichash ?S 32 ([5] @ take 32 hk) [])"
    by (simp add: sphinx_oprf_def oprf)
  have kdf0: "crypto_pwhash ?S 32 (crypto_generichash ?S 32 ([5] @ take 32 hk) []) (replicate 32 0)
      = Some rw"
    by (simp add: ref_pwhash_Some rw_def)
  have kdf: "crypto_pwhash ?S 32
       (crypto_generichash ?S 32 ([5] @ take 32 hk) (case None of None \<Rightarrow> [] | Some b \<Rightarrow> b))
       (replicate 32 0) = Some rw"
    by (simp add: ref_pwhash_Some rw_def)
  have lens0: "length p_u = 32" "length nonce = 32" by (simp_all add: p_u_def nonce_def)
  have e1: "opaque_init_srv ?S k_s k_s p_u nonce [5] [] 0 None None 0 4096 (sample_rec0 160)
      (Some (replicate 32 0)) = Inr (rec, ek)"
    using init_srv_result [OF ref_locks ref_points_32 ref_tags_32 oprf0 kdf0 lens0,
        of 0 "[]" None 0 "[]" 4096 "sample_rec0 160" k_s "Some (replicate 32 0)"]
    by (simp add: rec_def ek_def sample_rec0_def)
  have rec: "rec_k_s rec = k_s" "rec_p_s rec = k_s" "rec_P_u rec = crypto_scalarmult_base ?S p_u"
    "rec_extra_len rec = 0"
    "rec_c rec = sealed ?S rw nonce
       (p_u @ crypto_scalarmult_base ?S p_u @ crypto_scalarmult_base ?S (rec_p_s rec) @ []) [] @ []"
    by (simp_all add: rec_def)
  have blind2: "crypto_scalarmult_ristretto255 ?S (sec_r sec) (hash_to_group ?S [5])
      = Some (pub_alpha pub)"
    using ref_alpha_login by (simp add: sec_def pub_def)
  have e4: "opaque_session_usr_start ?S (replicate 32 4) (replicate 32 9) (replicate 32 0) [5]
      = Inr (sec, pub)"
    using ref_alpha_login
    by (simp add: opaque_session_usr_start_def sphinx_blindPW_def sec_def pub_def)
  have valid2: "crypto_core_ristretto255_is_valid_point ?S (pub_alpha pub)"
    using ref_products_valid blind2 unfolding products_valid_def by blast
  have lock: "sodium_mlock ?S ''x_s''" by (simp add: ref_sodium_def)
  have beta2: "crypto_scalarmult_ristretto255 ?S (rec_k_s rec) (pub_alpha pub)
      = Some ([6, 10] @ replicate 30 5)"
    using ref_beta_login by (simp add: rec(1) k_s_def pub_def)
  obtain keys where keys: "opaque_server_3dh ?S (rec_p_s rec) (replicate 32 5) (rec_P_u rec)
      (pub_X_u pub) (calc_info ?S (pub_nonceU pub) (replicate 32 0) sample_ids) = Some keys"
    by (simp add: opaque_server_3dh_def rec(2,3) k_s_def p_u_def pub_def ref_base
        ref_server_products)
  obtain resp sk km3 st' where e5: "opaque_session_srv ?S (replicate 32 5) (replicate 32 0) pub rec
      sample_ids None (sample_resp0 160) None = Inr (resp, sk, km3, st')"
    using session_srv_result [OF valid2 lock beta2 keys, of None "sample_resp0 160" None] by simp
  then have srv: "opaque_session_srv ?S (replicate 32 5) (replicate 32 0) pub rec
      sample_ids (without_info3 None) (sample_resp0 160) None = Inr (resp, sk, km3, st')"
    by (simp add: without_info3_def)
  have "length (resp_auth resp) = 32"
    using session_srv_InrD [OF e5] ref_tags_32 by (auto simp: tags_32_def)
  then have tamper: "map ((+) 1) (resp_auth resp) \<noteq> resp_auth resp"
    by (intro map_succ_neq) auto
  have lens: "length nonce = 32" "length p_u = 32" "length ([] :: bytes) = unat (rec_extra_len rec)"
    by (simp_all add: nonce_def p_u_def rec(4))
  have oprf': "crypto_scalarmult_ristretto255 ?S (rec_k_s rec) (hash_to_group ?S [5]) = Some hk"
    by (simp add: rec(1) oprf)
  have inv2: "crypto_core_ristretto255_scalar_invert ?S (sec_r sec) = Some (replicate 32 252)"
    using ref_invert_login by (simp add: sec_def)
  have secs: "sec_alpha sec = pub_alpha pub" "sec_nonceU sec = pub_nonceU pub"
      "pub_X_u pub = crypto_scalarmult_base ?S (sec_x_u sec)"
    by (simp_all add: sec_def pub_def)
  have bound: "rec_extra_len rec \<le> OPAQUE_MAX_EXTRA_BYTES"
    by (simp add: rec(4))
  have place: "unat (8192 :: 64 word) + 296 + unat (rec_extra_len rec) < 2 ^ 64"
    by (simp add: rec(4))
  have room: "160 + unat (rec_extra_len rec) \<le> length (resp_c (sample_resp0 160))"
    by (simp add: rec(4) sample_resp0_def)
  have out: "out_ClrEnv sample_out = None" by (simp add: sample_out_def)
  define out' where "out' = sample_out \<lparr> out_ClrEnv := None,
      out_export_key := map_option
        (\<lambda>_. export_key_of ?S rw nonce (96 + unat (rec_extra_len rec))) (out_export_key sample_out),
      out_rwd := map_option (\<lambda>_. replicate 32 0) (out_rwd sample_out) \<rparr>"
  have fin: "opaque_session_usr_finish ?S [5] 8192
      (resp \<lparr> resp_auth := map ((+) 1) (resp_auth resp) \<rparr>) sec None sample_ids None sample_out 0
      = (Inl ServerAuthFailed, out')"
    unfolding out'_def
    by (rule login_tampered [OF ref_locks ref_tags_32 ref_points_32 ref_dh_commutes
      ref_oprf_unblinds ref_products_valid rec(5) lens rec(3) oprf' kdf blind2 inv2 secs srv
      bound place room out tamper])
  have buf: "out_export_key sample_out = Some (replicate 32 0)" by (simp add: sample_out_def)
  from auth_failure_leaves_export_key [OF fin buf]
  have left: "out_export_key out' \<noteq> None" by auto
  have same: "out_export_key out' = ek"
    by (simp add: out'_def ek_def sample_out_def rec(4))
  show ?thesis
    using e1 [unfolded k_s_def p_u_def nonce_def] e4 e5 fin left same
    by - (rule exI [of _ rec], rule exI [of _ ek], rule exI [of _ sec], rule exI [of _ pub],
        rule exI [of _ resp], rule exI [of _ sk], rule exI [of _ km3], rule exI [of _ st'],
        rule exI [of _ out'], intro conjI, assumption+)
qed

section \<open>Login with another password\<close>




section \<open>Registration with a clear part of the envelope, then login\<close>

text \<open>
  C1. A record is registered by \<open>opaque_init_srv\<close> with a clear part \<open>ClrEnv\<close> of
  1 to 32 bytes, and a login is run against it with the same \<open>pw\<close> and \<open>key\<close>.
  \<open>opaque_session_srv\<close> copies \<^verbatim>\<open>sizeof rec->c + rec->extra_len\<close> bytes of the
  envelope into the response, which leaves out its last \<open>ClrEnv_len\<close> bytes, the end
  of the tag. \<open>opaque_session_usr_finish\<close> reads the tag behind the clear part, so
  its last \<open>ClrEnv_len\<close> bytes are what the response buffer held before the server
  wrote to it. Unless those bytes happen to be the end of the tag, the login fails where
  the envelope is opened and no session key is written: registration followed by login
  does not succeed for this \<open>ClrEnv\<close>.
\<close>

theorem login_fails_with_clear_envelope:
  assumes locks: "locks S" and tags: "tags_32 S" and pts: "points_32 S"
    and unbl: "oprf_unblinds S" and pv: "products_valid S"
    and oprf: "sphinx_oprf S pw k_s key = Some rw0"
    and kdf: "crypto_pwhash S 32 rw0 (replicate 32 0) = Some rw"
    and draws: "length p_u = 32" "length nonce = 32"
    and extra: "unat extra_len \<le> length extra"
    and clr: "ClrEnv_len \<noteq> 0" "unat ClrEnv_len \<le> length cl" "unat ClrEnv_len \<le> 32"
    and place: "unat rec_ptr + 296 + unat extra_len + unat ClrEnv_len < 2 ^ 64"
    and room: "160 + unat extra_len + unat ClrEnv_len \<le> length (rec_c rec0)"
    and reg: "opaque_init_srv S k_s p_s p_u nonce pw extra extra_len key (Some cl) ClrEnv_len
                rec_ptr rec0 ek0 = Inr (rec, ek)"
    and start: "opaque_session_usr_start S r x_u nonceU pw = Inr (sec, pub)"
    and inv: "crypto_core_ristretto255_scalar_invert S r = Some ir"
    and srv: "opaque_session_srv S x_s nonceS pub rec ids infos_s resp0 st = Inr (resp, sk, km3, st')"
    and bound: "extra_len \<le> OPAQUE_MAX_EXTRA_BYTES"
    and place': "unat resp_ptr + 296 + unat extra_len + unat ClrEnv_len < 2 ^ 64"
    and clr_out: "out_ClrEnv out = Some cbuf"
    and stale: "take (unat ClrEnv_len) (drop (160 + unat extra_len) (resp_c resp0))
                  \<noteq> take (unat ClrEnv_len) (drop (160 + unat extra_len) (rec_c rec))"
  shows "opaque_session_usr_finish S pw resp_ptr resp sec key ids infos out ClrEnv_len
     = (Inl EnvelopeAuthFailed, out)"
proof -
  define n where "n = unat extra_len"
  define m where "m = unat ClrEnv_len"
  define secb where "secb = p_u @ crypto_scalarmult_base S p_u @ crypto_scalarmult_base S p_s
                            @ take n extra"
  define clrb where "clrb = take m cl"
  define E where "E = sealed S rw nonce secb clrb"
  define body where "body = take (128 + n + m) E"
  define T where "T = envelope_tag S rw nonce body (96 + n)"
  define rest where "rest = drop (160 + n + m) (rec_c rec0)"
  define tail where "tail = drop (160 + n) (resp_c resp0)"
  have m32: "m \<le> 32" using clr(3) by (simp add: m_def)
  have clr': "Some cl = (if ClrEnv_len = 0 then None else Some cl)"
    using clr(1) by simp
  from init_srv_result [OF locks pts tags oprf kdf draws extra clr' clr(2) place room, of p_s ek0] reg
  have rec: "rec_k_s rec = k_s" "rec_extra_len rec = extra_len" "rec_c rec = E @ rest"
    by (auto simp: E_def secb_def clrb_def n_def m_def rest_def)
  have lensec: "length secb = 96 + n"
    using draws(1) pts extra by (simp add: secb_def points_32_def n_def)
  have lenclr: "length clrb = m" using clr(2) by (simp add: clrb_def m_def)
  have lenE: "length E = 160 + n + m"
    using length_sealed [OF tags, of rw nonce secb clrb] draws(2) lensec lenclr
    by (simp add: E_def)
  have split: "E = body @ T"
    using sealed_split [OF draws(2) lensec, of S rw clrb] lenclr
    by (simp add: E_def [symmetric] body_def T_def add.assoc [symmetric])
  have lenb: "length body = 128 + n + m" using lenE by (simp add: body_def)
  have lenT: "length T = 32" using tags by (simp add: T_def length_envelope_tag)
  have nonce: "take 32 body = nonce"
    using draws(2) by (simp add: body_def E_def sealed_def Let_def)
  have nowrap: "unat (rec_extra_len rec) + 160 < 2 ^ 64" using place' by (simp add: rec(2))
  have env: "resp_c resp = take (160 + n) ((body @ T) @ rest) @ tail"
    using session_srv_envelope [OF srv nowrap]
    by (simp only: rec(2,3) split n_def [symmetric] tail_def)
  note slices = truncated_envelope_slices [OF lenb lenT m32 env]
  have s3: "take 32 (resp_c resp) = nonce"
  proof -
    have "take 32 (resp_c resp) = take 32 (take (128 + n + m) (resp_c resp))" by simp
    then show ?thesis by (simp only: slices(1) nonce)
  qed
  have s4: "take m (drop (160 + n) (rec_c rec)) = drop (32 - m) T"
    using lenb lenT m32 by (simp add: rec(3) split)
  have differ: "take (32 - m) T @ take m tail \<noteq> T"
  proof
    assume "take (32 - m) T @ take m tail = T"
    then have "take (32 - m) T @ take m tail = take (32 - m) T @ drop (32 - m) T" by simp
    then have "take m tail = drop (32 - m) T" by (simp only: same_append_eq)
    with stale show False by (simp add: n_def [symmetric] m_def [symmetric] tail_def s4)
  qed
  from sphinx_oprf_SomeD [OF oprf] obtain hk where
    hk: "crypto_scalarmult_ristretto255 S k_s (hash_to_group S pw) = Some hk"
    and rw0: "rw0 = crypto_generichash S 32 (pw @ take 32 hk)
                      (case key of None \<Rightarrow> [] | Some b \<Rightarrow> b)"
    by blast
  from session_usr_start_InrD [OF start]
  have blind: "crypto_scalarmult_ristretto255 S r (hash_to_group S pw) = Some (pub_alpha pub)"
    and sec_r: "sec_r sec = r"
    by (simp, metis Opaque_UserSession_Secret.select_convs(1))
  have tag: "take 32 (drop (128 + unat (rec_extra_len rec) + unat ClrEnv_len) (resp_c resp))
        \<noteq> crypto_auth_hmacsha256 S
            (take (128 + unat (rec_extra_len rec) + unat ClrEnv_len) (resp_c resp))
            (take 32 (drop (96 + unat (rec_extra_len rec))
               (crypto_kdf_hkdf_sha256_expand S (160 + unat (rec_extra_len rec))
                  (take 32 (resp_c resp) @ EnvU) rw)))"
    using differ draws(2)
    by (simp add: rec(2) n_def [symmetric] m_def [symmetric] slices s3 T_def envelope_tag_def
        envelope_keys_def)
  have b: "crypto_scalarmult_ristretto255 S (sec_r sec) (hash_to_group S pw) = Some (pub_alpha pub)"
    by (simp add: sec_r blind)
  have i: "crypto_core_ristretto255_scalar_invert S (sec_r sec) = Some ir"
    by (simp add: sec_r inv)
  have o: "crypto_scalarmult_ristretto255 S (rec_k_s rec) (hash_to_group S pw) = Some hk"
    by (simp add: rec(1) hk)
  have bd: "rec_extra_len rec \<le> OPAQUE_MAX_EXTRA_BYTES"
    by (simp add: rec(2) bound)
  have pl: "unat resp_ptr + 296 + unat (rec_extra_len rec) + unat ClrEnv_len < 2 ^ 64"
    using place' by (simp add: rec(2))
  have co: "out_ClrEnv out = (if ClrEnv_len = 0 then None else Some cbuf)"
    using clr(1) by (simp add: clr_out)
  show ?thesis
    by (rule login_envelope_rejected [OF locks unbl pv srv b i o kdf [unfolded rw0] bd pl co tag])
qed

theorem login_fails_with_clear_envelope_witness:
  "\<exists>rec ek sec pub resp sk km3 st'.
     opaque_init_srv ref_sodium (replicate 32 1) (replicate 32 1) (replicate 32 7) (replicate 32 7)
         [5] [] 0 None (Some [0x43, 0x6c, 0x72, 0x45, 0x6e, 0x76, 0]) 7 4096 (sample_rec0 167) None
         = Inr (rec, ek)
     \<and> opaque_session_usr_start ref_sodium (replicate 32 4) (replicate 32 9) (replicate 32 0) [5]
         = Inr (sec, pub)
     \<and> opaque_session_srv ref_sodium (replicate 32 5) (replicate 32 0) pub rec sample_ids None
         (sample_resp0 167) None = Inr (resp, sk, km3, st')
     \<and> opaque_session_usr_finish ref_sodium [5] 8192 resp sec None sample_ids None
         (sample_out \<lparr> out_ClrEnv := Some (replicate 7 0) \<rparr>) 7
         = (Inl EnvelopeAuthFailed, sample_out \<lparr> out_ClrEnv := Some (replicate 7 0) \<rparr>)"
proof -
  let ?S = ref_sodium
  define k_s :: bytes where "k_s = replicate 32 1"
  define p_u :: bytes where "p_u = replicate 32 7"
  define nonce :: bytes where "nonce = replicate 32 7"
  define cl :: bytes where "cl = [0x43, 0x6c, 0x72, 0x45, 0x6e, 0x76, 0]"
  define rw0 where "rw0 = crypto_generichash ?S 32 ([5] @ take 32 ([2, 6] @ replicate 30 1)) []"
  define rw where "rw = map2 (+) (fitn 32 rw0) (fitn 32 (replicate 32 0))"
  define sec where "sec = \<lparr> sec_r = replicate 32 4, sec_x_u = replicate 32 9,
                             sec_nonceU = replicate 32 0, sec_alpha = [5, 9] @ replicate 30 4 \<rparr>"
  define pub where "pub = \<lparr> pub_alpha = [5, 9] @ replicate 30 4,
                             pub_X_u = crypto_scalarmult_base ?S (replicate 32 9),
                             pub_nonceU = replicate 32 0 \<rparr>"
  define rec where "rec = (sample_rec0 167) \<lparr> rec_k_s := k_s, rec_p_s := k_s,
      rec_P_u := crypto_scalarmult_base ?S p_u, rec_P_s := crypto_scalarmult_base ?S k_s,
      rec_extra_len := 0,
      rec_c := sealed ?S rw nonce
                 (p_u @ crypto_scalarmult_base ?S p_u @ crypto_scalarmult_base ?S k_s) cl \<rparr>"
  define out where "out = sample_out \<lparr> out_ClrEnv := Some (replicate 7 0) \<rparr>"
  have oprf: "sphinx_oprf ?S [5] k_s None = Some rw0"
    using ref_hk by (simp add: sphinx_oprf_def k_s_def rw0_def del: append.simps)
  have kdf: "crypto_pwhash ?S 32 rw0 (replicate 32 0) = Some rw"
    by (simp add: ref_pwhash_Some rw_def)
  have lens0: "length p_u = 32" "length nonce = 32" by (simp_all add: p_u_def nonce_def)
  have extra: "unat (0 :: 64 word) \<le> length ([] :: bytes)" by simp
  have clr: "(7 :: 64 word) \<noteq> 0" "unat (7 :: 64 word) \<le> length cl" "unat (7 :: 64 word) \<le> 32"
    by (simp_all add: cl_def)
  have clr': "Some cl = (if (7 :: 64 word) = 0 then None else Some cl)" by simp
  have place: "unat (4096 :: 64 word) + 296 + unat (0 :: 64 word) + unat (7 :: 64 word) < 2 ^ 64"
    by simp
  have room: "160 + unat (0 :: 64 word) + unat (7 :: 64 word) \<le> length (rec_c (sample_rec0 167))"
    by (simp add: sample_rec0_def)
  have e1: "opaque_init_srv ?S k_s k_s p_u nonce [5] [] 0 None (Some cl) 7 4096 (sample_rec0 167) None
      = Inr (rec, None)"
    using init_srv_result [OF ref_locks ref_points_32 ref_tags_32 oprf kdf lens0 extra clr' clr(2)
        place room, of k_s None]
    by (simp add: rec_def sample_rec0_def cl_def)
  have e4: "opaque_session_usr_start ?S (replicate 32 4) (replicate 32 9) (replicate 32 0) [5]
      = Inr (sec, pub)"
    using ref_alpha_login
    by (simp add: opaque_session_usr_start_def sphinx_blindPW_def sec_def pub_def)
  have valid2: "crypto_core_ristretto255_is_valid_point ?S (pub_alpha pub)"
    using ref_products_valid ref_alpha_login unfolding products_valid_def pub_def by auto
  have lock: "sodium_mlock ?S ''x_s''" by (simp add: ref_sodium_def)
  have beta2: "crypto_scalarmult_ristretto255 ?S (rec_k_s rec) (pub_alpha pub)
      = Some ([6, 10] @ replicate 30 5)"
    using ref_beta_login by (simp add: rec_def k_s_def pub_def)
  obtain keys where keys: "opaque_server_3dh ?S (rec_p_s rec) (replicate 32 5) (rec_P_u rec)
      (pub_X_u pub) (calc_info ?S (pub_nonceU pub) (replicate 32 0) sample_ids) = Some keys"
    by (simp add: opaque_server_3dh_def rec_def k_s_def p_u_def pub_def ref_base
        ref_server_products)
  obtain resp sk km3 st' where e5: "opaque_session_srv ?S (replicate 32 5) (replicate 32 0) pub rec
      sample_ids None (sample_resp0 167) None = Inr (resp, sk, km3, st')"
    using session_srv_result [OF valid2 lock beta2 keys, of None "sample_resp0 167" None] by simp
  have bound: "(0 :: 64 word) \<le> OPAQUE_MAX_EXTRA_BYTES" by simp
  have place': "unat (8192 :: 64 word) + 296 + unat (0 :: 64 word) + unat (7 :: 64 word) < 2 ^ 64"
    by simp
  have clr_out: "out_ClrEnv out = Some (replicate 7 0)" by (simp add: out_def)
  have stale: "take (unat (7 :: 64 word)) (drop (160 + unat (0 :: 64 word)) (resp_c (sample_resp0 167)))
      \<noteq> take (unat (7 :: 64 word)) (drop (160 + unat (0 :: 64 word)) (rec_c rec))"
    using ref_stale_tag [symmetric]
    by (simp add: rec_def rw_def rw0_def nonce_def p_u_def k_s_def cl_def sample_resp0_def
        del: append.simps)
  have fin: "opaque_session_usr_finish ?S [5] 8192 resp sec None sample_ids None out 7
      = (Inl EnvelopeAuthFailed, out)"
    by (rule login_fails_with_clear_envelope [OF ref_locks ref_tags_32 ref_points_32
          ref_oprf_unblinds ref_products_valid oprf kdf lens0 extra clr place room e1 e4
          ref_invert_login e5 bound place' clr_out stale])
  show ?thesis
    using e1 [unfolded k_s_def p_u_def nonce_def cl_def] e4 e5 fin [unfolded out_def]
    by - (rule exI [of _ rec], rule exI [of _ None], rule exI [of _ sec], rule exI [of _ pub],
        rule exI [of _ resp], rule exI [of _ sk], rule exI [of _ km3], rule exI [of _ st'],
        intro conjI, assumption+)
qed

end
